(* ===== verification/Prelude.thy ===== *)
theory Prelude
  imports Complex_Main
begin

text \<open>
  Shared vocabulary of the development: Python exceptions as values, the
  short-circuiting composition of fallible steps (the \<open>try\<close> block of
  \<open>analyze_track\<close>), the NumPy reductions and Python list primitives that
  the detectors of \<open>src/src/python_scripts/audio_analyzer.py\<close> call, and the
  generic lemmas on them that the component theories use through
  \<open>simp add:\<close>.  Python floats are modelled as exact reals, Python ints as
  \<open>int\<close>, NumPy 1-D arrays as \<open>real list\<close>.
\<close>

named_theorems py_simps "evaluation rules of the Python and NumPy primitives"

section \<open>Exceptions\<close>

text \<open>
  The exceptions the analysed code can raise.  \<open>ValueError\<close> and
  \<open>IndexError\<close> carry the message \<open>str(e)\<close> that the orchestrator copies
  into its \<open>error\<close> field; \<open>ProviderError\<close> stands for any exception of the
  feature-extraction library (decoding, STFT, beat tracking), which the
  development does not model beyond its message.
\<close>

datatype py_exc =
    ValueError string
  | IndexError string
  | ProviderError string

fun exc_str :: "py_exc \<Rightarrow> string" where
  "exc_str (ValueError m) = m"
| "exc_str (IndexError m) = m"
| "exc_str (ProviderError m) = m"

type_synonym 'a py = "py_exc + 'a"

text \<open>Sequencing of two fallible steps: the first exception wins.\<close>

definition sbind :: "'a py \<Rightarrow> ('a \<Rightarrow> 'b py) \<Rightarrow> 'b py" where
  "sbind m f = (case m of Inl e \<Rightarrow> Inl e | Inr a \<Rightarrow> f a)"

section \<open>Time intervals\<close>

text \<open>A segment \<open>[start, end]\<close> of the output, in seconds.\<close>

type_synonym interval = "real \<times> real"

section \<open>NumPy reductions\<close>

text \<open>
  \<open>np.mean\<close>.  NumPy returns NaN (with a warning, no exception) for an empty
  array; every call of the analysed code that is followed by a use of the
  mean is on a non-empty array, so the value chosen here for \<open>[]\<close> is never
  observed by the detectors.
\<close>

definition np_mean :: "real list \<Rightarrow> real" where
  "np_mean xs = sum_list xs / real (length xs)"

text \<open>\<open>np.min\<close> and \<open>np.max\<close> raise \<open>ValueError\<close> on an empty array.\<close>

fun np_min :: "real list \<Rightarrow> real py" where
  "np_min [] = Inl (ValueError ''zero-size array to reduction operation minimum which has no identity'')"
| "np_min (x # xs) = Inr (fold min xs x)"

fun np_max :: "real list \<Rightarrow> real py" where
  "np_max [] = Inl (ValueError ''zero-size array to reduction operation maximum which has no identity'')"
| "np_max (x # xs) = Inr (fold max xs x)"

text \<open>\<open>np.diff\<close> of a 1-D array: \<open>out[i] = x[i+1] - x[i]\<close>.\<close>

fun np_diff :: "real list \<Rightarrow> real list" where
  "np_diff (x # y # zs) = (y - x) # np_diff (y # zs)"
| "np_diff _ = []"

section \<open>Python list primitives\<close>

text \<open>Python's \<open>int(x)\<close> on a float truncates towards zero.\<close>

definition py_int :: "real \<Rightarrow> int" where
  "py_int x = (if 0 \<le> x then \<lfloor>x\<rfloor> else \<lceil>x\<rceil>)"

text \<open>\<open>xs[i]\<close>: negative indices count from the end; out of range raises.\<close>

definition py_get :: "'a list \<Rightarrow> int \<Rightarrow> 'a py" where
  "py_get xs i =
     (if - int (length xs) \<le> i \<and> i < int (length xs)
      then Inr (xs ! nat (if i < 0 then i + int (length xs) else i))
      else Inl (IndexError ''index out of bounds for axis 0''))"

text \<open>
  \<open>xs[a:b]\<close> with step 1: negative bounds count from the end, then both
  bounds are clipped to \<open>[0, len(xs)]\<close>; slicing never raises.
\<close>

definition py_slice_bound :: "int \<Rightarrow> int \<Rightarrow> int" where
  "py_slice_bound n i = (if i < 0 then max 0 (i + n) else min i n)"

definition py_slice :: "'a list \<Rightarrow> int \<Rightarrow> int \<Rightarrow> 'a list" where
  "py_slice xs a b =
     (let n = int (length xs); a' = py_slice_bound n a; b' = py_slice_bound n b
      in take (nat (b' - a')) (drop (nat a') xs))"

text \<open>
  The truncation idiom \<open>if len(xs) > k: xs = xs[:k]\<close> of all three
  detectors.
\<close>

definition cap :: "nat \<Rightarrow> 'a list \<Rightarrow> 'a list" where
  "cap k xs = (if length xs > k then take k xs else xs)"

text \<open>The duration idiom \<open>min(max_duration, max(min_duration, v))\<close>.\<close>

definition clamp_dur :: "real \<Rightarrow> real \<Rightarrow> real \<Rightarrow> real" where
  "clamp_dur lo hi v = min hi (max lo v)"

section \<open>Generic lemmas\<close>

lemma sbind_Inl [simp, py_simps]: "sbind (Inl e) f = Inl e"
  by (simp add: sbind_def)

lemma sbind_Inr [simp, py_simps]: "sbind (Inr a) f = f a"
  by (simp add: sbind_def)

lemma sbind_eq_Inr_iff: "sbind m f = Inr b \<longleftrightarrow> (\<exists>a. m = Inr a \<and> f a = Inr b)"
  by (cases m) auto

lemma sbind_eq_Inl_iff:
  "sbind m f = Inl e \<longleftrightarrow> m = Inl e \<or> (\<exists>a. m = Inr a \<and> f a = Inl e)"
  by (cases m) auto

lemma cap_eq_take [py_simps]: "cap k xs = take k xs"
  by (simp add: cap_def)

lemma length_cap: "length (cap k xs) \<le> k"
  by (simp add: cap_def)

lemma set_cap: "set (cap k xs) \<subseteq> set xs"
  by (auto simp: cap_def dest: in_set_takeD)

lemma cap_Nil_iff [simp]: "cap k xs = [] \<longleftrightarrow> k = 0 \<or> xs = []"
  by (auto simp: cap_def)

lemma clamp_dur_bounds: "lo \<le> hi \<Longrightarrow> lo \<le> clamp_dur lo hi v \<and> clamp_dur lo hi v \<le> hi"
  by (simp add: clamp_dur_def)

lemma clamp_dur_inside [simp]: "lo \<le> v \<Longrightarrow> v \<le> hi \<Longrightarrow> clamp_dur lo hi v = v"
  by (simp add: clamp_dur_def)

lemma length_np_diff [simp]: "length (np_diff xs) = length xs - 1"
  by (induction xs rule: np_diff.induct) auto

lemma nth_np_diff:
  "Suc i < length xs \<Longrightarrow> np_diff xs ! i = xs ! Suc i - xs ! i"
proof (induction xs arbitrary: i rule: np_diff.induct)
  case (1 x y zs)
  then show ?case by (cases i) auto
qed auto

lemma np_diff_replicate [simp]: "np_diff (replicate n c) = replicate (n - 1) 0"
proof (induction n)
  case (Suc n)
  then show ?case by (cases n) auto
qed simp

lemma np_min_Inr_iff: "(\<exists>m. np_min xs = Inr m) \<longleftrightarrow> xs \<noteq> []"
  by (cases xs) auto

lemma np_max_Inr_iff: "(\<exists>m. np_max xs = Inr m) \<longleftrightarrow> xs \<noteq> []"
  by (cases xs) auto

lemma np_mean_replicate [simp]: "0 < n \<Longrightarrow> np_mean (replicate n c) = c"
  by (simp add: np_mean_def sum_list_replicate)

lemma py_int_of_int [simp]: "py_int (real_of_int k) = k"
  by (simp add: py_int_def)

lemma py_int_of_nat [simp]: "py_int (real k) = int k"
  by (simp add: py_int_def)

lemma py_get_nonneg [py_simps]:
  "0 \<le> i \<Longrightarrow> i < int (length xs) \<Longrightarrow> py_get xs i = Inr (xs ! nat i)"
  by (simp add: py_get_def)

lemma py_slice_nonneg [py_simps]:
  "0 \<le> a \<Longrightarrow> a \<le> b \<Longrightarrow> b \<le> int (length xs) \<Longrightarrow>
   py_slice xs a b = take (nat (b - a)) (drop (nat a) xs)"
  by (simp add: py_slice_def py_slice_bound_def)

lemma length_py_slice_nonneg:
  "0 \<le> a \<Longrightarrow> a \<le> b \<Longrightarrow> b \<le> int (length xs) \<Longrightarrow> length (py_slice xs a b) = nat (b - a)"
  by (simp add: py_slice_nonneg)

lemma np_diff_step:
  assumes "1 \<le> k" "1 \<le> m"
  shows "np_diff (replicate k u @ replicate m v) = replicate (k - 1) 0 @ (v - u) # replicate (m - 1) 0"
  using assms(1)
proof (induction k rule: dec_induct)
  case base
  from assms(2) obtain m' where "m = Suc m'" by (cases m) auto
  then show ?case using np_diff_replicate [of "Suc m'" v] by simp
next
  case (step k)
  then obtain k' where "k = Suc k'" by (cases k) auto
  with step.IH show ?case by simp
qed

lemma fold_min_eq_Min: "fold min xs (x::real) = Min (set (x # xs))"
  by (metis Min.set_eq_fold)

lemma fold_max_eq_Max: "fold max xs (x::real) = Max (set (x # xs))"
  by (metis Max.set_eq_fold)

lemma np_min_le: "np_min xs = Inr m \<Longrightarrow> v \<in> set xs \<Longrightarrow> m \<le> v"
  by (cases xs) (auto simp: fold_min_eq_Min)

lemma np_max_ge: "np_max xs = Inr m \<Longrightarrow> v \<in> set xs \<Longrightarrow> v \<le> m"
  by (cases xs) (auto simp: fold_max_eq_Max)

lemma np_mean_replicate_pos:
  "0 < c \<Longrightarrow> 0 < n \<Longrightarrow> 0 < np_mean (replicate j 0 @ replicate n c)"
  by (simp add: np_mean_def sum_list_replicate)

end
