(* ===== verification/Json.thy ===== *)
theory Json
  imports Prelude
begin

text \<open>
  The JSON documents the program prints, and \<open>json.dumps\<close> with its default
  arguments (\<open>separators=(', ', ': ')\<close>, \<open>ensure_ascii=True\<close>, keys in
  insertion order).  Python ints print as decimal numerals; floats print as
  \<open>repr\<close> does, which for a value that is a short decimal in the range
  \<open>[1e-4, 1e16)\<close> is that decimal (with \<open>.0\<close> for integral values).  The
  printer is partial: it returns \<open>None\<close> for a float outside that range or
  with more than 16 fractional digits, and for a string with non-ASCII
  bytes, which it does not model.
\<close>

section \<open>Definitions\<close>

datatype json =
    JNull
  | JBool bool
  | JInt int
  | JFloat real
  | JStr string
  | JArr "json list"
  | JObj "(string \<times> json) list"

text \<open>Decimal digits of a natural number, most significant first.\<close>

fun nat_str :: "nat \<Rightarrow> string" where
  "nat_str n =
     (if n < 10 then [char_of (48 + n)] else nat_str (n div 10) @ [char_of (48 + n mod 10)])"

definition int_str :: "int \<Rightarrow> string" where
  "int_str i = (if i < 0 then CHR ''-'' # nat_str (nat (- i)) else nat_str (nat i))"

text \<open>
  The least number of fractional digits, up to 16, that represents
  \<open>r\<close> exactly; \<open>None\<close> when there is none.
\<close>

fun frac_digits :: "nat \<Rightarrow> nat \<Rightarrow> real \<Rightarrow> nat option" where
  "frac_digits 0 k r = None"
| "frac_digits (Suc fuel) k r =
     (if r * 10 ^ k = of_int \<lfloor>r * 10 ^ k\<rfloor> then Some k else frac_digits fuel (Suc k) r)"

text \<open>
  The digits of \<open>n / 10^k\<close> with a decimal point before the last \<open>k\<close>
  digits, padded with zeros to at least one integral digit.
\<close>

definition point_str :: "nat \<Rightarrow> nat \<Rightarrow> string" where
  "point_str n k =
     (let ds = nat_str n; ds = replicate (Suc k - length ds) CHR ''0'' @ ds
      in take (length ds - k) ds @ CHR ''.'' # drop (length ds - k) ds)"

definition float_repr :: "real \<Rightarrow> string option" where
  "float_repr r =
     (if r = 0 then Some ''0.0''
      else if \<bar>r\<bar> < 1 / 10 ^ 4 \<or> 10 ^ 16 \<le> \<bar>r\<bar> then None
      else
        (case frac_digits 17 0 \<bar>r\<bar> of
           None \<Rightarrow> None
         | Some k \<Rightarrow>
             (let s = point_str (nat \<lfloor>\<bar>r\<bar> * 10 ^ max k 1\<rfloor>) (max k 1)
              in Some (if r < 0 then CHR ''-'' # s else s))))"

text \<open>
  String escaping of \<open>json.dumps\<close> for ASCII text: quote and backslash are
  escaped, the usual control characters by letter, the others as
  \<open>u00XX\<close> after a backslash.
\<close>

definition hex_digit :: "nat \<Rightarrow> char" where
  "hex_digit n = (if n < 10 then char_of (48 + n) else char_of (87 + n))"

definition escape_char :: "char \<Rightarrow> string option" where
  "escape_char c =
     (let n = of_char c :: nat in
      if n = 34 then Some [CHR 0x5C, CHR 0x22]
      else if n = 92 then Some [CHR 0x5C, CHR 0x5C]
      else if n = 10 then Some [CHR 0x5C, CHR ''n'']
      else if n = 13 then Some [CHR 0x5C, CHR ''r'']
      else if n = 9 then Some [CHR 0x5C, CHR ''t'']
      else if n = 8 then Some [CHR 0x5C, CHR ''b'']
      else if n = 12 then Some [CHR 0x5C, CHR ''f'']
      else if n < 32 then Some (CHR 0x5C # ''u00'' @ [hex_digit (n div 16), hex_digit (n mod 16)])
      else if n < 128 then Some [c]
      else None)"

fun concat_opt :: "string option list \<Rightarrow> string option" where
  "concat_opt [] = Some []"
| "concat_opt (x # xs) =
     (case x of None \<Rightarrow> None | Some s \<Rightarrow> map_option ((@) s) (concat_opt xs))"

definition str_json :: "string \<Rightarrow> string option" where
  "str_json s = map_option (\<lambda>b. CHR 0x22 # b @ [CHR 0x22]) (concat_opt (map escape_char s))"

text \<open>\<open>', '.join(parts)\<close> over printed parts, any of them unprintable.\<close>

definition join_opt :: "string option list \<Rightarrow> string option" where
  "join_opt xs = concat_opt (case xs of [] \<Rightarrow> [] | y # ys \<Rightarrow> y # concat (map (\<lambda>x. [Some '', '', x]) ys))"

fun dumps :: "json \<Rightarrow> string option" where
  "dumps JNull = Some ''null''"
| "dumps (JBool b) = Some (if b then ''true'' else ''false'')"
| "dumps (JInt i) = Some (int_str i)"
| "dumps (JFloat r) = float_repr r"
| "dumps (JStr s) = str_json s"
| "dumps (JArr xs) = map_option (\<lambda>b. ''['' @ b @ '']'') (join_opt (map dumps xs))"
| "dumps (JObj kvs) = map_option (\<lambda>b. ''{'' @ b @ ''}'')
     (join_opt (map (\<lambda>(k, v). concat_opt [str_json k, Some '': '', dumps v]) kvs))"

text \<open>A string between double quotes, and text that \<open>json.dumps\<close> copies verbatim.\<close>

abbreviation jq :: "string \<Rightarrow> string" where
  "jq s \<equiv> CHR 0x22 # s @ [CHR 0x22]"

definition plain_ascii :: "string \<Rightarrow> bool" where
  "plain_ascii s \<longleftrightarrow>
     (\<forall>c \<in> set s. (32::nat) \<le> of_char c \<and> of_char c < (128::nat) \<and>
                  of_char c \<noteq> (34::nat) \<and> of_char c \<noteq> (92::nat))"

section \<open>Lemmas\<close>

lemma concat_opt_map_Some: "\<forall>c \<in> set s. f c = Some [c] \<Longrightarrow> concat_opt (map f s) = Some s"
  by (induction s) auto

lemma concat_opt_single [simp]: "concat_opt [c] = c"
  by (cases c) auto

lemma join_opt_Cons2:
  "ys \<noteq> [] \<Longrightarrow> join_opt (x # ys) = concat_opt [x, Some '', '', join_opt ys]"
  by (cases x; cases ys) (auto simp: join_opt_def split: option.splits)

lemma escape_char_plain:
  "(32::nat) \<le> of_char c \<Longrightarrow> of_char c < (128::nat) \<Longrightarrow> of_char c \<noteq> (34::nat) \<Longrightarrow>
   of_char c \<noteq> (92::nat) \<Longrightarrow> escape_char c = Some [c]"
  by (simp add: escape_char_def Let_def)

text \<open>Printable ASCII text without quote or backslash prints as itself, quoted.\<close>

lemma str_json_plain: "plain_ascii s \<Longrightarrow> str_json s = Some (jq s)"
  by (simp add: str_json_def plain_ascii_def escape_char_plain concat_opt_map_Some)

end
