(* ===== verification/Float64.thy ===== *)
theory Float64
  imports Complex_Main "HOL-Library.Log_Nat"
begin

text \<open>
  Python floats where the program's result depends on their rounding:
  \<open>fl\<close> rounds a real to the nearest IEEE 754 binary64 value, as every
  float division and multiplication does.  It is executable (exponent by
  \<open>bitlen\<close>, significand by \<open>round_half_even\<close>), so concrete conversions
  evaluate by \<open>code_simp\<close>; \<open>fl_err\<close> bounds the rounding error.  The rest
  of the model keeps floats as exact reals.
\<close>

section \<open>Definitions\<close>

text \<open>The binary exponent of a positive real: \<open>2 ^ bin_exp x \<le> x\<close>.\<close>

definition bin_exp :: "real \<Rightarrow> int" where
  "bin_exp x = (if 1 \<le> x then bitlen \<lfloor>x\<rfloor> - 1 else - bitlen (\<lceil>1 / x\<rceil> - 1))"

text \<open>The nearest integer, ties to the even one.\<close>

definition round_half_even :: "real \<Rightarrow> int" where
  "round_half_even m =
     (let f = \<lfloor>m\<rfloor>; d = m - of_int f in
      if d < 1 / 2 then f else if 1 / 2 < d then f + 1 else if even f then f else f + 1)"

text \<open>
  Rounding to the nearest binary64 value, ties to even: 53 significant
  bits.  The exponent range is not bounded (no overflow, no subnormals),
  which agrees with IEEE 754 for magnitudes in \<open>[2^-1022, 2^1024)\<close>.
\<close>

definition fl :: "real \<Rightarrow> real" where
  "fl x =
     (if x = 0 then 0
      else let a = \<bar>x\<bar>; e = bin_exp a - 52
           in sgn x * (of_int (round_half_even (a * 2 powi (- e))) * 2 powi e))"

section \<open>Lemmas\<close>

lemma bin_exp_le:
  assumes "0 < x"
  shows "2 powi bin_exp x \<le> x"
proof (cases "1 \<le> x")
  case True
  let ?n = "\<lfloor>x\<rfloor>"
  have n: "0 < ?n" using True by simp
  have b: "1 \<le> bitlen ?n" using n by (simp add: bitlen_alt_def)
  have "2 ^ nat (bitlen ?n - 1) \<le> ?n" using bitlen_bounds [OF n] by blast
  then have "(2::real) ^ nat (bitlen ?n - 1) \<le> of_int ?n"
    by (metis of_int_le_iff of_int_numeral of_int_power)
  also have "\<dots> \<le> x" by simp
  finally show ?thesis using True b by (simp add: bin_exp_def power_int_def)
next
  case False
  let ?k = "\<lceil>1 / x\<rceil> - 1"
  have gt: "1 < 1 / x" using False assms by simp
  then have k: "0 < ?k" by linarith
  have "?k < 2 ^ nat (bitlen ?k)" using bitlen_bounds [OF k] by blast
  then have "\<lceil>1 / x\<rceil> \<le> 2 ^ nat (bitlen ?k)" by linarith
  then have "1 / x \<le> (2::real) ^ nat (bitlen ?k)"
    by (metis ceiling_le_iff of_int_numeral of_int_power)
  then have "1 / 2 ^ nat (bitlen ?k) \<le> x"
    using assms by (simp add: field_simps)
  moreover have "1 \<le> bitlen ?k" using k by (simp add: bitlen_alt_def)
  ultimately show ?thesis using False by (simp add: bin_exp_def power_int_def power_one_over)
qed

lemma round_half_even_err: "\<bar>of_int (round_half_even m) - m\<bar> \<le> 1 / 2"
proof -
  have "of_int \<lfloor>m\<rfloor> \<le> m" "m < of_int \<lfloor>m\<rfloor> + 1" by linarith+
  then show ?thesis by (auto simp: round_half_even_def Let_def)
qed

text \<open>The relative error of one rounding is at most \<open>2^-53\<close>.\<close>

lemma fl_err: "\<bar>fl x - x\<bar> \<le> \<bar>x\<bar> / 2 ^ 53"
proof (cases "x = 0")
  case False
  let ?a = "\<bar>x\<bar>" let ?e = "bin_exp \<bar>x\<bar> - 52"
  let ?m = "\<bar>x\<bar> * 2 powi (- ?e)"
  have p: "(0::real) < 2 powi ?e" by simp
  have one: "(2::real) powi (- ?e) * 2 powi ?e = 1" by (simp flip: power_int_add)
  have x: "x = sgn x * (?m * 2 powi ?e)"
    by (simp only: mult.assoc one) (simp add: sgn_mult_abs)
  have "\<bar>fl x - x\<bar> = \<bar>sgn x\<bar> * (\<bar>of_int (round_half_even ?m) - ?m\<bar> * 2 powi ?e)"
    using False by (subst (2) x) (simp add: fl_def Let_def abs_mult flip: right_diff_distrib left_diff_distrib)
  also have "\<dots> \<le> 1 / 2 * 2 powi ?e"
    using False p round_half_even_err [of ?m] by (simp add: abs_sgn_eq)
  also have "1 / 2 * 2 powi ?e = (2::real) powi bin_exp ?a / 2 ^ 53"
    by (simp add: power_int_diff)
  also have "\<dots> \<le> ?a / 2 ^ 53" using bin_exp_le [of ?a] False by (simp add: divide_right_mono)
  finally show ?thesis .
qed (simp add: fl_def)

lemma fl_nonneg:
  assumes "0 \<le> x"
  shows "0 \<le> fl x"
proof -
  have "x - fl x \<le> x / 2 ^ 53" using fl_err [of x] assms unfolding abs_le_iff by linarith
  moreover have "x / 2 ^ 53 \<le> x" using assms by simp
  ultimately show ?thesis by linarith
qed

end
