(* ===== verification/Librosa.thy ===== *)
theory Librosa
  imports Prelude Float64
begin

text \<open>
  The two conversions of the feature library that the detectors call,
  \<open>librosa.frames_to_time\<close> and \<open>librosa.time_to_frames\<close>, with their
  default \<open>hop_length = 512\<close> and \<open>n_fft = None\<close> (offset 0).  They are not
  code of the repository: they follow the library's documented definitions
  (\<open>frames_to_samples\<close>, \<open>samples_to_time\<close>, \<open>time_to_samples\<close>,
  \<open>samples_to_frames\<close>).  The sample rate \<open>sr\<close> is the Python int returned by
  \<open>librosa.load(..., sr=None)\<close>.  Times are exact reals; where a time is
  converted back to a frame, the conversion reads the float the program
  holds and rounds the product as float multiplication does, so a frame
  can come back one lower (\<open>frame_back\<close>): at 22050 Hz frame 15 comes
  back as 14.
\<close>

definition hop_length :: int where
  "hop_length = 512"

text \<open>\<open>frames_to_time(f, sr) = int(f * hop) / float(sr)\<close>.\<close>

definition frames_to_time :: "nat \<Rightarrow> int \<Rightarrow> real" where
  "frames_to_time f sr = real_of_int (int f * hop_length) / real_of_int sr"

text \<open>
  \<open>time_to_frames(t, sr) = floor(int(t * sr) // hop)\<close>: the float \<open>t\<close>
  (the binary64 value \<open>fl t\<close> of the exact time) times \<open>sr\<close>, rounded,
  truncated by \<open>astype(int)\<close>, then divided by the hop.
\<close>

definition time_to_frames :: "real \<Rightarrow> int \<Rightarrow> int" where
  "time_to_frames t sr = py_int (fl (fl t * real_of_int sr)) div hop_length"

text \<open>
  The frame a detector loop reads for a peak at frame \<open>p\<close>: the peak
  converted to seconds (\<open>frames_to_time\<close>) and back (\<open>time_to_frames\<close>).
\<close>

definition frame_back :: "int \<Rightarrow> nat \<Rightarrow> int" where
  "frame_back sr p = time_to_frames (frames_to_time p sr) sr"

section \<open>Lemmas\<close>

text \<open>The two roundings move \<open>512 p\<close> samples by less than \<open>512 p / 2^51\<close>.\<close>

lemma frame_back_product:
  assumes "0 < sr"
  shows "\<bar>fl (fl (frames_to_time p sr) * real_of_int sr) - 512 * real p\<bar> \<le> 512 * real p / 2 ^ 51"
proof -
  let ?x = "frames_to_time p sr" let ?s = "real_of_int sr"
  have s: "0 < ?s" using assms by simp
  have x: "?x * ?s = 512 * real p" using s by (simp add: frames_to_time_def hop_length_def)
  have x0: "0 \<le> ?x" using s by (simp add: frames_to_time_def hop_length_def)
  let ?y = "fl ?x * ?s"
  have "\<bar>?y - 512 * real p\<bar> = \<bar>fl ?x - ?x\<bar> * ?s"
    using s by (simp flip: x left_diff_distrib add: abs_mult)
  also have "\<dots> \<le> ?x / 2 ^ 53 * ?s" using fl_err [of ?x] x0 s by (simp add: mult_right_mono)
  finally have y: "\<bar>?y - 512 * real p\<bar> \<le> 512 * real p / 2 ^ 53" using x by simp
  have y0: "0 \<le> ?y" using fl_nonneg [OF x0] s by simp
  have "\<bar>fl ?y - ?y\<bar> \<le> ?y / 2 ^ 53" using fl_err [of ?y] y0 by simp
  also have "\<dots> \<le> (512 * real p + 512 * real p / 2 ^ 53) / 2 ^ 53"
  proof (rule divide_right_mono)
    show "?y \<le> 512 * real p + 512 * real p / 2 ^ 53" using y unfolding abs_le_iff by linarith
  qed simp
  finally have "\<bar>fl ?y - 512 * real p\<bar> \<le>
      512 * real p / 2 ^ 53 + (512 * real p + 512 * real p / 2 ^ 53) / 2 ^ 53"
    using y by linarith
  also have "\<dots> \<le> 512 * real p / 2 ^ 51" by (simp add: field_simps)
  finally show ?thesis .
qed

lemma frame_back_nonneg:
  assumes "0 < sr"
  shows "0 \<le> frame_back sr p"
proof -
  have "0 \<le> frames_to_time p sr" using assms by (simp add: frames_to_time_def hop_length_def)
  then have "0 \<le> fl (fl (frames_to_time p sr) * real_of_int sr)"
    using assms by (intro fl_nonneg mult_nonneg_nonneg fl_nonneg) simp_all
  then show ?thesis
    by (simp add: frame_back_def time_to_frames_def py_int_def hop_length_def pos_imp_zdiv_nonneg_iff)
qed

text \<open>
  For every frame index below \<open>2^51\<close> (far beyond any array in memory)
  the frame read back is the peak's frame or the one before it.
\<close>

lemma frame_back_bounds:
  assumes "0 < sr" "p < 2 ^ 51"
  shows "int p - 1 \<le> frame_back sr p \<and> frame_back sr p \<le> int p"
proof -
  let ?z = "fl (fl (frames_to_time p sr) * real_of_int sr)"
  have "512 * real p / 2 ^ 51 < 512"
    using assms(2) by (simp add: field_simps)
  then have z: "512 * real p - 512 < ?z" "?z < 512 * real p + 512"
    using frame_back_product [OF assms(1), of p] by linarith+
  have z0: "0 \<le> ?z"
    using assms(1) by (intro fl_nonneg mult_nonneg_nonneg)
      (simp_all add: fl_nonneg frames_to_time_def hop_length_def)
  have "512 * int p - 512 \<le> \<lfloor>?z\<rfloor>" "\<lfloor>?z\<rfloor> < 512 * int p + 512"
    using z by linarith+
  then show ?thesis using z0
    by (simp add: frame_back_def time_to_frames_def py_int_def hop_length_def) linarith
qed

text \<open>A bound the loop checks on the frame read back holds for the peak's frame.\<close>

lemma frame_back_lower:
  assumes "0 < sr" "n \<le> 2 ^ 51" "int n \<le> frame_back sr p"
  shows "n \<le> p"
proof (cases "p < 2 ^ 51")
  case True
  then show ?thesis using frame_back_bounds [OF assms(1) True] assms(3) by linarith
qed (use assms(2) in simp)

lemma frames_to_time_nonneg: "0 < sr \<Longrightarrow> 0 \<le> frames_to_time f sr"
  by (simp add: frames_to_time_def hop_length_def)

lemma frames_to_time_mono:
  "0 < sr \<Longrightarrow> a \<le> b \<Longrightarrow> frames_to_time a sr \<le> frames_to_time b sr"
  by (simp add: frames_to_time_def hop_length_def divide_right_mono)

lemma frames_to_time_diff:
  assumes "a \<le> b"
  shows "frames_to_time b sr - frames_to_time a sr = frames_to_time (b - a) sr"
proof -
  have "real_of_int (int b * hop_length) - real_of_int (int a * hop_length)
      = real_of_int (int (b - a) * hop_length)"
    using assms by (simp add: of_nat_diff left_diff_distrib)
  then show ?thesis
    by (simp only: frames_to_time_def flip: diff_divide_distrib)
qed

lemma frames_to_time_add:
  "frames_to_time (a + b) sr = frames_to_time a sr + frames_to_time b sr"
  by (simp add: frames_to_time_def add_divide_distrib distrib_right)

lemma frames_to_time_half_sr:
  assumes "even sr" "0 < sr"
  shows "frames_to_time (nat (sr div 2)) sr = 256"
proof -
  have "int (nat (sr div 2)) * hop_length = sr * 256"
    using assms by (auto simp: hop_length_def elim!: evenE)
  then show ?thesis using assms(2) by (simp add: frames_to_time_def)
qed

text \<open>A frame inside the signal starts no later than the end of the track.\<close>

lemma frame_within_signal:
  assumes "p < ylen div 512 + 1" "0 < sr"
  shows "frames_to_time p sr \<le> real ylen / real_of_int sr"
proof -
  have "p \<le> ylen div 512" using assms(1) by simp
  then have "p * 512 \<le> ylen" by (metis div_times_less_eq_dividend le_trans mult_le_mono1)
  then have "real_of_int (int p * hop_length) \<le> real ylen"
    by (simp add: hop_length_def flip: of_nat_mult)
  then show ?thesis using assms(2) by (simp add: frames_to_time_def divide_right_mono)
qed

text \<open>A spacing of \<open>d\<close> frames between sorted peaks carries over to their times.\<close>

lemma sorted_wrt_frames_to_time:
  assumes "0 < sr" "sorted_wrt (\<lambda>a b. a + d \<le> b) ps"
  shows "sorted_wrt (\<lambda>a b. frames_to_time a sr + frames_to_time d sr \<le> frames_to_time b sr) ps"
  using assms(2) by (rule sorted_wrt_mono_rel [rotated])
    (use assms(1) in \<open>auto simp flip: frames_to_time_add intro: frames_to_time_mono\<close>)

lemma frames_to_time_sr: "0 < sr \<Longrightarrow> frames_to_time (nat sr) sr = 512"
  by (simp add: frames_to_time_def hop_length_def)

end
