(* ===== verification/Peaks.thy ===== *)
theory Peaks
  imports Prelude
begin

text \<open>
  The peak picker that all three detectors call,
  \<open>scipy.signal.find_peaks(x, height=h, distance=d)\<close>.  It is library code,
  not code of the repository; the model follows SciPy's implementation:
  the argument check on \<open>distance\<close>, \<open>_local_maxima_1d\<close> (a scan that reports
  the midpoint of every strict local maximum, plateaus included), the
  height filter \<open>_select_by_property\<close> (\<open>hmin <= x[peak]\<close>) and
  \<open>_select_by_peak_distance\<close> (highest peak first, suppressing every
  remaining peak closer than \<open>d\<close> samples).  The lemmas give the contract the
  detectors use: sorted, in range, local maxima, at least the height, and
  pairwise at least \<open>d\<close> apart.
\<close>

section \<open>The local-maximum scan\<close>

text \<open>
  The inner loop of \<open>_local_maxima_1d\<close>:
  \<open>while i_ahead < i_max and x[i_ahead] == x[i]: i_ahead += 1\<close>,
  with \<open>i_max = len(x) - 1\<close>.
\<close>

function plateau_end :: "real list \<Rightarrow> nat \<Rightarrow> nat \<Rightarrow> nat" where
  "plateau_end x i ia =
     (if ia < length x - 1 \<and> x ! ia = x ! i then plateau_end x i (Suc ia) else ia)"
  by pat_completeness auto
termination
  by (relation "measure (\<lambda>(x, i, ia). length x - ia)") auto

declare plateau_end.simps [simp del]

text \<open>
  The outer loop: \<open>i\<close> runs from 1 while \<open>i < i_max\<close>; at a rising edge the
  plateau is followed to \<open>i_ahead\<close>, and if it falls there the midpoint
  \<open>(left + right) // 2\<close> of \<open>[i, i_ahead - 1]\<close> is reported and the scan
  continues after \<open>i_ahead\<close>.
\<close>

function local_maxima_scan :: "real list \<Rightarrow> nat \<Rightarrow> nat list" where
  "local_maxima_scan x i =
     (if i < length x - 1 then
        (if x ! (i - 1) < x ! i then
           (let ia = plateau_end x i (Suc i) in
            if x ! ia < x ! i then (i + (ia - 1)) div 2 # local_maxima_scan x (Suc ia)
            else local_maxima_scan x (Suc i))
         else local_maxima_scan x (Suc i))
      else [])"
  by pat_completeness auto
termination
proof (relation "measure (\<lambda>(x, i). length x - i)")
  fix x i ia
  assume "i < length x - 1" and "ia = plateau_end x i (Suc i)"
  moreover have ge: "\<And>j. j \<le> plateau_end x i j"
  proof -
    fix j
    show "j \<le> plateau_end x i j"
      by (induction x i j rule: plateau_end.induct)
        (subst plateau_end.simps, auto intro: Suc_leD)
  qed
  then have "Suc i \<le> ia"
    using \<open>ia = plateau_end x i (Suc i)\<close> by simp
  with \<open>i < length x - 1\<close> show "((x, Suc ia), x, i) \<in> measure (\<lambda>(x, i). length x - i)"
    by simp
qed auto

declare local_maxima_scan.simps [simp del]

definition local_maxima :: "real list \<Rightarrow> nat list" where
  "local_maxima x = local_maxima_scan x 1"

section \<open>Selection by distance\<close>

text \<open>
  \<open>_select_by_peak_distance\<close>: for a peak \<open>j\<close> still kept, the loop
  \<open>k = j - 1; while 0 <= k and peaks[j] - peaks[k] < d: keep[k] = 0; k -= 1\<close>
  clears the close peaks to its left (\<open>clear_left p d j (Suc k)\<close> starts
  at \<open>k\<close>), then the symmetric loop to its right.
\<close>

fun clear_left :: "nat list \<Rightarrow> nat \<Rightarrow> nat \<Rightarrow> nat \<Rightarrow> bool list \<Rightarrow> bool list" where
  "clear_left p d j 0 keep = keep"
| "clear_left p d j (Suc k) keep =
     (if int (p ! j) - int (p ! k) < int d then clear_left p d j k (keep[k := False])
      else keep)"

function clear_right :: "nat list \<Rightarrow> nat \<Rightarrow> nat \<Rightarrow> nat \<Rightarrow> bool list \<Rightarrow> bool list" where
  "clear_right p d j k keep =
     (if k < length p \<and> int (p ! k) - int (p ! j) < int d
      then clear_right p d j (Suc k) (keep[k := False])
      else keep)"
  by pat_completeness auto
termination
  by (relation "measure (\<lambda>(p, d, j, k, keep). length p - k)") auto

declare clear_right.simps [simp del]

text \<open>One iteration of the outer loop, for the peak of position \<open>j\<close>.\<close>

definition distance_step :: "nat list \<Rightarrow> nat \<Rightarrow> bool list \<Rightarrow> nat \<Rightarrow> bool list" where
  "distance_step p d keep j =
     (if \<not> keep ! j then keep else clear_right p d j (Suc j) (clear_left p d j j keep))"

text \<open>
  \<open>priority_to_position = np.argsort(priority)\<close>, visited from the end
  (highest priority first).  Ties are taken in the order of a stable sort;
  the contract lemmas below hold for every visiting order.
\<close>

definition argsort_desc :: "real list \<Rightarrow> nat list" where
  "argsort_desc pr = rev (sort_key (\<lambda>j. pr ! j) [0..<length pr])"

definition select_with_order :: "nat list \<Rightarrow> nat \<Rightarrow> nat list \<Rightarrow> bool list" where
  "select_with_order p d order = fold (\<lambda>j keep. distance_step p d keep j) order
     (replicate (length p) True)"

definition select_by_peak_distance :: "nat list \<Rightarrow> real list \<Rightarrow> nat \<Rightarrow> bool list" where
  "select_by_peak_distance p pr d = select_with_order p d (argsort_desc pr)"

text \<open>\<open>peaks[keep]\<close>: boolean-mask indexing.\<close>

definition mask_select :: "'a list \<Rightarrow> bool list \<Rightarrow> 'a list" where
  "mask_select xs ms = map fst (filter snd (zip xs ms))"

section \<open>find_peaks\<close>

definition find_peaks :: "real list \<Rightarrow> real \<Rightarrow> int \<Rightarrow> nat list py" where
  "find_peaks x height distance =
     (if distance < 1 then Inl (ValueError ''`distance` must be greater or equal to 1'')
      else
        (let peaks = local_maxima x;
             peaks = filter (\<lambda>p. height \<le> x ! p) peaks;
             keep = select_by_peak_distance peaks (map (\<lambda>p. x ! p) peaks) (nat distance)
         in Inr (mask_select peaks keep)))"

section \<open>Specification predicates\<close>

text \<open>
  A strict local maximum of \<open>x\<close> at \<open>p\<close>: \<open>p\<close> lies on a plateau
  \<open>[l, r]\<close> of equal values that rises from \<open>x[l-1]\<close> and falls to
  \<open>x[r+1]\<close>; neither end of the array can be a peak.
\<close>

definition is_local_max :: "real list \<Rightarrow> nat \<Rightarrow> bool" where
  "is_local_max x p \<longleftrightarrow>
     (\<exists>l r. 0 < l \<and> l \<le> p \<and> p \<le> r \<and> Suc r < length x \<and> x ! (l - 1) < x ! l \<and>
        (\<forall>k. l \<le> k \<and> k \<le> r \<longrightarrow> x ! k = x ! l) \<and> x ! Suc r < x ! l)"

text \<open>Peak \<open>a\<close> is at least \<open>d\<close> samples from every other peak still kept.\<close>

definition spaced :: "nat list \<Rightarrow> nat \<Rightarrow> bool list \<Rightarrow> nat \<Rightarrow> bool" where
  "spaced p d keep a \<longleftrightarrow>
     (\<forall>b < length p. keep ! b \<longrightarrow> b \<noteq> a \<longrightarrow> int d \<le> \<bar>int (p ! a) - int (p ! b)\<bar>)"

section \<open>The scan: local maxima, sorted\<close>

lemma plateau_end_ge: "ia \<le> plateau_end x i ia"
proof (induction x i ia rule: plateau_end.induct)
  case (1 x i ia)
  then show ?case
    by (subst plateau_end.simps) (auto intro: Suc_leD)
qed

lemma plateau_end_flat: "ia \<le> k \<Longrightarrow> k < plateau_end x i ia \<Longrightarrow> x ! k = x ! i"
proof (induction x i ia rule: plateau_end.induct)
  case (1 x i ia)
  show ?case
  proof (cases "ia < length x - 1 \<and> x ! ia = x ! i")
    case True
    with "1.prems" "1.IH" show ?thesis
      by (cases "k = ia") (auto simp: plateau_end.simps [of x i ia])
  next
    case False
    with "1.prems" show ?thesis by (auto simp: plateau_end.simps [of x i ia])
  qed
qed

lemma plateau_end_le: "ia \<le> length x - 1 \<Longrightarrow> plateau_end x i ia \<le> length x - 1"
proof (induction x i ia rule: plateau_end.induct)
  case (1 x i ia)
  then show ?case
    by (subst plateau_end.simps) auto
qed

lemma plateau_midpoint_local_max:
  assumes "0 < i" "i < length x - 1" "x ! (i - 1) < x ! i"
    and ia: "ia = plateau_end x i (Suc i)" and fall: "x ! ia < x ! i"
  shows "is_local_max x ((i + (ia - 1)) div 2)"
proof -
  have ge: "Suc i \<le> ia" using ia plateau_end_ge by blast
  have le: "ia \<le> length x - 1" using ia assms(2) plateau_end_le [of "Suc i" x i] by simp
  have flat: "\<forall>k. i \<le> k \<and> k \<le> ia - 1 \<longrightarrow> x ! k = x ! i"
  proof (intro allI impI)
    fix k assume k: "i \<le> k \<and> k \<le> ia - 1"
    show "x ! k = x ! i"
    proof (cases "k = i")
      case False
      with k ge have "Suc i \<le> k" "k < plateau_end x i (Suc i)" using ia by auto
      then show ?thesis by (rule plateau_end_flat)
    qed simp
  qed
  have suc: "Suc (ia - 1) = ia" using ge by simp
  have bounds: "i \<le> (i + (ia - 1)) div 2" "(i + (ia - 1)) div 2 \<le> ia - 1"
    using ge by simp_all
  have "Suc (ia - 1) < length x" using suc le assms(2) by linarith
  moreover have "x ! Suc (ia - 1) < x ! i" using suc fall by simp
  ultimately show ?thesis
    unfolding is_local_max_def
    using assms(1,3) bounds flat by blast
qed

lemma local_maxima_scan_peak:
  "i < length x - 1 \<Longrightarrow> x ! (i - 1) < x ! i \<Longrightarrow> x ! plateau_end x i (Suc i) < x ! i \<Longrightarrow>
   local_maxima_scan x i =
     (i + (plateau_end x i (Suc i) - 1)) div 2 # local_maxima_scan x (Suc (plateau_end x i (Suc i)))"
  by (simp add: local_maxima_scan.simps [of x i] Let_def)

lemma local_maxima_scan_skip:
  "i < length x - 1 \<Longrightarrow> \<not> (x ! (i - 1) < x ! i \<and> x ! plateau_end x i (Suc i) < x ! i) \<Longrightarrow>
   local_maxima_scan x i = local_maxima_scan x (Suc i)"
  by (auto simp: local_maxima_scan.simps [of x i] Let_def)

lemma local_maxima_scan_stop: "\<not> i < length x - 1 \<Longrightarrow> local_maxima_scan x i = []"
  by (simp add: local_maxima_scan.simps [of x i])

lemma local_maxima_scan_ge: "p \<in> set (local_maxima_scan x i) \<Longrightarrow> i \<le> p"
proof (induction x i rule: local_maxima_scan.induct)
  case (1 x i)
  let ?ia = "plateau_end x i (Suc i)"
  have ge: "Suc i \<le> ?ia" by (rule plateau_end_ge)
  consider (peak) "i < length x - 1" "x ! (i - 1) < x ! i" "x ! ?ia < x ! i"
    | (skip) "i < length x - 1" "\<not> (x ! (i - 1) < x ! i \<and> x ! ?ia < x ! i)"
    | (stop) "\<not> i < length x - 1"
    by blast
  then show ?case
  proof cases
    case peak
    with "1.prems" ge show ?thesis
      using "1.IH"(1) [OF _ _ refl] by (fastforce simp: local_maxima_scan_peak)
  next
    case skip
    then have "local_maxima_scan x i = local_maxima_scan x (Suc i)"
      by (rule local_maxima_scan_skip)
    with "1.prems" have p: "p \<in> set (local_maxima_scan x (Suc i))" by simp
    have "Suc i \<le> p"
    proof (cases "x ! (i - 1) < x ! i")
      case True
      with skip p show ?thesis using "1.IH"(2) [OF _ _ refl] by blast
    next
      case False
      with skip p show ?thesis using "1.IH"(3) by blast
    qed
    then show ?thesis by simp
  next
    case stop
    with "1.prems" show ?thesis by (simp add: local_maxima_scan_stop)
  qed
qed

lemma sorted_local_maxima_scan: "sorted_wrt (<) (local_maxima_scan x i)"
proof (induction x i rule: local_maxima_scan.induct)
  case (1 x i)
  let ?ia = "plateau_end x i (Suc i)"
  have ge: "Suc i \<le> ?ia" by (rule plateau_end_ge)
  consider (peak) "i < length x - 1" "x ! (i - 1) < x ! i" "x ! ?ia < x ! i"
    | (skip) "i < length x - 1" "\<not> (x ! (i - 1) < x ! i \<and> x ! ?ia < x ! i)"
    | (stop) "\<not> i < length x - 1"
    by blast
  then show ?case
  proof cases
    case peak
    have "\<forall>q \<in> set (local_maxima_scan x (Suc ?ia)). (i + (?ia - 1)) div 2 < q"
      using ge by (auto dest: local_maxima_scan_ge)
    with peak show ?thesis
      using "1.IH"(1) [OF _ _ refl] by (simp add: local_maxima_scan_peak)
  next
    case skip
    then have "local_maxima_scan x i = local_maxima_scan x (Suc i)"
      by (rule local_maxima_scan_skip)
    with skip show ?thesis
      using "1.IH"(2) [OF _ _ refl] "1.IH"(3)
      by (cases "x ! (i - 1) < x ! i") simp_all
  next
    case stop
    then show ?thesis by (simp add: local_maxima_scan_stop)
  qed
qed

lemma local_maxima_scan_local_max:
  "p \<in> set (local_maxima_scan x i) \<Longrightarrow> 0 < i \<Longrightarrow> is_local_max x p"
proof (induction x i rule: local_maxima_scan.induct)
  case (1 x i)
  let ?ia = "plateau_end x i (Suc i)"
  consider (peak) "i < length x - 1" "x ! (i - 1) < x ! i" "x ! ?ia < x ! i"
    | (skip) "i < length x - 1" "\<not> (x ! (i - 1) < x ! i \<and> x ! ?ia < x ! i)"
    | (stop) "\<not> i < length x - 1"
    by blast
  then show ?case
  proof cases
    case peak
    have mid: "is_local_max x ((i + (?ia - 1)) div 2)"
      using peak \<open>0 < i\<close> by (intro plateau_midpoint_local_max [OF _ _ _ refl]) auto
    with peak "1.prems" show ?thesis
      using "1.IH"(1) [OF _ _ refl] by (auto simp: local_maxima_scan_peak)
  next
    case skip
    then have "local_maxima_scan x i = local_maxima_scan x (Suc i)"
      by (rule local_maxima_scan_skip)
    with skip "1.prems" show ?thesis
      using "1.IH"(2) [OF _ _ refl] "1.IH"(3)
      by (cases "x ! (i - 1) < x ! i") simp_all
  next
    case stop
    with "1.prems" show ?thesis by (simp add: local_maxima_scan_stop)
  qed
qed

section \<open>Distance selection and the contract of find\_peaks\<close>

lemma sorted_nth_less: "sorted_wrt (<) (p :: nat list) \<Longrightarrow> a < b \<Longrightarrow> b < length p \<Longrightarrow> p ! a < p ! b"
  by (simp add: sorted_wrt_iff_nth_less)

lemma sorted_nth_le: "sorted_wrt (<) (p :: nat list) \<Longrightarrow> a \<le> b \<Longrightarrow> b < length p \<Longrightarrow> p ! a \<le> p ! b"
  using sorted_nth_less [of p a b] by (cases "a = b") auto

lemma length_clear_left [simp]: "length (clear_left p d j k keep) = length keep"
  by (induction k arbitrary: keep) auto

lemma length_clear_right [simp]: "length (clear_right p d j k keep) = length keep"
  by (induction p d j k keep rule: clear_right.induct) (subst clear_right.simps, simp)

lemma clear_left_nth:
  assumes "sorted_wrt (<) p" "k \<le> j" "j < length p" "m < length keep"
  shows "clear_left p d j k keep ! m = (keep ! m \<and> \<not> (m < k \<and> int (p ! j) - int (p ! m) < int d))"
  using assms(2,4)
proof (induction k arbitrary: keep)
  case 0
  then show ?case by simp
next
  case (Suc k)
  show ?case
  proof (cases "int (p ! j) - int (p ! k) < int d")
    case True
    with Suc show ?thesis by (cases "m = k") auto
  next
    case False
    have "m < Suc k \<Longrightarrow> p ! m \<le> p ! k"
      using Suc.prems assms(1,3) by (intro sorted_nth_le) auto
    with False show ?thesis by auto
  qed
qed

lemma clear_right_nth:
  assumes "sorted_wrt (<) p" "j < k" "m < length keep"
  shows "clear_right p d j k keep ! m =
           (keep ! m \<and> \<not> (k \<le> m \<and> m < length p \<and> int (p ! m) - int (p ! j) < int d))"
  using assms
proof (induction p d j k keep rule: clear_right.induct)
  case (1 p d j k keep)
  show ?case
  proof (cases "k < length p \<and> int (p ! k) - int (p ! j) < int d")
    case True
    with "1.prems" have "clear_right p d j k keep ! m =
        (keep[k := False] ! m \<and> \<not> (Suc k \<le> m \<and> m < length p \<and> int (p ! m) - int (p ! j) < int d))"
      by (simp add: clear_right.simps [of p d j k keep] "1.IH")
    with True "1.prems"(3) show ?thesis by (cases "m = k") auto
  next
    case False
    have "k \<le> m \<Longrightarrow> m < length p \<Longrightarrow> p ! k \<le> p ! m"
      using "1.prems"(1) by (intro sorted_nth_le) auto
    with False show ?thesis
      by (auto simp: clear_right.simps [of p d j k keep])
  qed
qed

lemma length_distance_step [simp]: "length (distance_step p d keep j) = length keep"
  by (simp add: distance_step_def)

lemma distance_step_nth:
  assumes "sorted_wrt (<) p" "j < length p" "length keep = length p" "m < length p"
  shows "distance_step p d keep j ! m =
           (keep ! m \<and> (\<not> keep ! j \<or> m = j \<or> int d \<le> \<bar>int (p ! m) - int (p ! j)\<bar>))"
proof (cases "keep ! j")
  case True
  have lt: "m < j \<Longrightarrow> p ! m < p ! j" "j < m \<Longrightarrow> p ! j < p ! m"
    using assms by (auto intro: sorted_nth_less)
  have "distance_step p d keep j ! m =
      (keep ! m \<and> \<not> (m < j \<and> int (p ! j) - int (p ! m) < int d)
        \<and> \<not> (Suc j \<le> m \<and> m < length p \<and> int (p ! m) - int (p ! j) < int d))"
    using True assms by (simp add: distance_step_def clear_right_nth clear_left_nth)
  with True lt assms(4) show ?thesis
    by (cases m j rule: linorder_cases) auto
next
  case False
  then show ?thesis by (simp add: distance_step_def)
qed

lemma distance_step_mono:
  assumes "sorted_wrt (<) p" "j < length p" "length keep = length p" "m < length p"
    and "distance_step p d keep j ! m"
  shows "keep ! m"
  using assms distance_step_nth by blast

lemma fold_distance_step_spaced:
  assumes "sorted_wrt (<) p" "set order \<subseteq> {..<length p}" "length keep = length p"
    and "\<forall>a \<in> P. a < length p \<longrightarrow> keep ! a \<longrightarrow> spaced p d keep a"
  shows "length (fold (\<lambda>j keep. distance_step p d keep j) order keep) = length p \<and>
    (\<forall>a \<in> P \<union> set order. a < length p \<longrightarrow>
       fold (\<lambda>j keep. distance_step p d keep j) order keep ! a \<longrightarrow>
       spaced p d (fold (\<lambda>j keep. distance_step p d keep j) order keep) a)"
  using assms(2-4)
proof (induction order arbitrary: keep P)
  case Nil
  then show ?case by simp
next
  case (Cons j order)
  let ?k = "distance_step p d keep j"
  have j: "j < length p" using Cons.prems(1) by simp
  have len: "length ?k = length p" using Cons.prems(2) by simp
  have sub: "\<And>m. m < length p \<Longrightarrow> ?k ! m \<Longrightarrow> keep ! m"
    using assms(1) j Cons.prems(2) by (rule distance_step_mono)
  have "\<forall>a \<in> insert j P. a < length p \<longrightarrow> ?k ! a \<longrightarrow> spaced p d ?k a"
  proof (intro ballI impI)
    fix a assume a: "a \<in> insert j P" "a < length p" "?k ! a"
    show "spaced p d ?k a"
    proof (cases "a = j")
      case True
      with a sub have "keep ! j" by blast
      with True show ?thesis
        using assms(1) j Cons.prems(2) by (auto simp: spaced_def distance_step_nth abs_minus_commute)
    next
      case False
      with a sub Cons.prems(3) have "spaced p d keep a" by blast
      with sub show ?thesis by (auto simp: spaced_def)
    qed
  qed
  then have "length (fold (\<lambda>j keep. distance_step p d keep j) order ?k) = length p \<and>
    (\<forall>a \<in> insert j P \<union> set order. a < length p \<longrightarrow>
       fold (\<lambda>j keep. distance_step p d keep j) order ?k ! a \<longrightarrow>
       spaced p d (fold (\<lambda>j keep. distance_step p d keep j) order ?k) a)"
    using Cons.prems(1) len by (intro Cons.IH) auto
  then show ?case by simp
qed

lemma select_with_order_spaced:
  assumes "sorted_wrt (<) p" "set order = {..<length p}"
  shows "length (select_with_order p d order) = length p \<and>
    (\<forall>a < length p. select_with_order p d order ! a \<longrightarrow> spaced p d (select_with_order p d order) a)"
  using fold_distance_step_spaced [OF assms(1), of order "replicate (length p) True" "{}"] assms(2)
  by (simp add: select_with_order_def)

lemma set_argsort_desc: "set (argsort_desc pr) = {..<length pr}"
  by (auto simp: argsort_desc_def)

lemma select_by_peak_distance_spaced:
  assumes "sorted_wrt (<) p" "length pr = length p"
  shows "length (select_by_peak_distance p pr d) = length p \<and>
    (\<forall>a < length p. select_by_peak_distance p pr d ! a \<longrightarrow>
       spaced p d (select_by_peak_distance p pr d) a)"
  using select_with_order_spaced [OF assms(1)] assms(2)
  by (simp add: select_by_peak_distance_def set_argsort_desc)

lemma mask_Cons [simp]: "mask_select (x # xs) (m # ms) = (if m then x # mask_select xs ms else mask_select xs ms)"
  by (simp add: mask_select_def)

lemma mask_Nil [simp]: "mask_select [] ms = []"
  by (simp add: mask_select_def)

lemma set_mask: "set (mask_select xs ms) \<subseteq> set xs"
  by (auto simp: mask_select_def dest: set_zip_leftD)

lemma in_set_mask:
  "length ms = length xs \<Longrightarrow> y \<in> set (mask_select xs ms) \<Longrightarrow> \<exists>i < length xs. ms ! i \<and> xs ! i = y"
  by (auto simp: mask_select_def set_zip)

lemma sorted_wrt_mask:
  assumes "length ms = length xs"
    and "\<forall>i j. i < j \<longrightarrow> j < length xs \<longrightarrow> ms ! i \<longrightarrow> ms ! j \<longrightarrow> R (xs ! i) (xs ! j)"
  shows "sorted_wrt R (mask_select xs ms)"
  using assms
proof (induction xs ms rule: list_induct2')
  case (4 x xs m ms)
  have IH: "sorted_wrt R (mask_select xs ms)"
  proof (rule "4.IH")
    show "length ms = length xs" using "4.prems"(1) by simp
    show "\<forall>i j. i < j \<longrightarrow> j < length xs \<longrightarrow> ms ! i \<longrightarrow> ms ! j \<longrightarrow> R (xs ! i) (xs ! j)"
    proof (intro allI impI)
      fix i j assume "i < j" "j < length xs" "ms ! i" "ms ! j"
      then show "R (xs ! i) (xs ! j)"
        using "4.prems"(2) [rule_format, of "Suc i" "Suc j"] by simp
    qed
  qed
  have head: "R x y" if m: "m" and y: "y \<in> set (mask_select xs ms)" for y
  proof -
    have "length ms = length xs" using "4.prems"(1) by simp
    from in_set_mask [OF this y] obtain i where i: "i < length xs" "ms ! i" "xs ! i = y"
      by blast
    have "(0::nat) < Suc i" "Suc i < length (x # xs)" "(m # ms) ! 0" "(m # ms) ! Suc i"
      using i(1,2) m by simp_all
    then have "R ((x # xs) ! 0) ((x # xs) ! Suc i)"
      using "4.prems"(2) by blast
    with i(3) show "R x y" by simp
  qed
  show ?case
  proof (cases m)
    case True
    with IH head show ?thesis by simp
  next
    case False
    with IH show ?thesis by simp
  qed
qed (simp_all add: mask_select_def)

lemma local_max_bounds:
  assumes "is_local_max x p"
  shows "0 < p \<and> Suc p < length x"
proof -
  from assms obtain l r where "0 < l" "l \<le> p" "p \<le> r" "Suc r < length x"
    unfolding is_local_max_def by blast
  then show ?thesis by linarith
qed

lemma sorted_local_maxima: "sorted_wrt (<) (local_maxima x)"
  by (simp add: local_maxima_def sorted_local_maxima_scan)

lemma local_maxima_local_max: "p \<in> set (local_maxima x) \<Longrightarrow> is_local_max x p"
  by (simp add: local_maxima_def local_maxima_scan_local_max)

lemma find_peaks_Inl_iff:
  "find_peaks x h d = Inl e \<longleftrightarrow> d < 1 \<and> e = ValueError ''`distance` must be greater or equal to 1''"
  by (auto simp: find_peaks_def Let_def)

lemma find_peaks_Inr_facts:
  assumes "find_peaks x h d = Inr ps"
  shows "1 \<le> d \<and> sorted_wrt (\<lambda>a b. a + nat d \<le> b) ps \<and> (\<forall>p \<in> set ps. is_local_max x p \<and> h \<le> x ! p)"
proof -
  let ?p = "filter (\<lambda>p. h \<le> x ! p) (local_maxima x)"
  let ?keep = "select_by_peak_distance ?p (map (\<lambda>p. x ! p) ?p) (nat d)"
  have d: "1 \<le> d" and ps: "ps = mask_select ?p ?keep"
    using assms by (auto simp: find_peaks_def Let_def split: if_splits)
  have sorted: "sorted_wrt (<) ?p"
    using sorted_local_maxima by (rule sorted_wrt_filter)
  have "length (map (\<lambda>p. x ! p) ?p) = length ?p" by (rule length_map)
  with sorted have sel: "length ?keep = length ?p \<and>
      (\<forall>a < length ?p. ?keep ! a \<longrightarrow> spaced ?p (nat d) ?keep a)"
    by (rule select_by_peak_distance_spaced)
  have "sorted_wrt (\<lambda>a b. a + nat d \<le> b) ps"
    unfolding ps
  proof (rule sorted_wrt_mask)
    show "length ?keep = length ?p" using sel by simp
    show "\<forall>i j. i < j \<longrightarrow> j < length ?p \<longrightarrow> ?keep ! i \<longrightarrow> ?keep ! j \<longrightarrow>
        ?p ! i + nat d \<le> ?p ! j"
    proof (intro allI impI)
      fix i j assume ij: "i < j" "j < length ?p" "?keep ! i" "?keep ! j"
      then have "int (nat d) \<le> \<bar>int (?p ! i) - int (?p ! j)\<bar>"
        using sel by (auto simp: spaced_def)
      moreover have "?p ! i < ?p ! j" using sorted ij(1,2) by (rule sorted_nth_less)
      ultimately show "?p ! i + nat d \<le> ?p ! j" by linarith
    qed
  qed
  moreover have "\<forall>p \<in> set ps. is_local_max x p \<and> h \<le> x ! p"
  proof
    fix p assume "p \<in> set ps"
    then have "p \<in> set ?p" using set_mask [of ?p ?keep] ps by blast
    then show "is_local_max x p \<and> h \<le> x ! p"
      using local_maxima_local_max by simp
  qed
  ultimately show ?thesis using d by blast
qed

section \<open>Peaks of flat and single-spike signals\<close>

lemma local_maxima_scan_no_rise:
  "\<forall>q. i \<le> q \<and> q < length x - 1 \<longrightarrow> \<not> x ! (q - 1) < x ! q \<Longrightarrow> local_maxima_scan x i = []"
proof (induction x i rule: local_maxima_scan.induct)
  case (1 x i)
  show ?case
  proof (cases "i < length x - 1")
    case True
    with "1.prems" have "\<not> x ! (i - 1) < x ! i" by blast
    with True have "local_maxima_scan x i = local_maxima_scan x (Suc i)"
      by (simp add: local_maxima_scan_skip)
    also have "\<dots> = []"
      using "1.IH"(3) True \<open>\<not> x ! (i - 1) < x ! i\<close> "1.prems" by simp
    finally show ?thesis .
  qed (simp add: local_maxima_scan_stop)
qed

lemma local_maxima_scan_skip_to:
  "\<forall>q. i \<le> q \<and> q < j \<longrightarrow> \<not> x ! (q - 1) < x ! q \<Longrightarrow> i \<le> j \<Longrightarrow> j < length x - 1 \<Longrightarrow>
   local_maxima_scan x i = local_maxima_scan x j"
proof (induction "j - i" arbitrary: i)
  case 0
  then show ?case by simp
next
  case (Suc n)
  then have "i < j" by simp
  with Suc.prems have "\<not> x ! (i - 1) < x ! i" "i < length x - 1" by auto
  then have "local_maxima_scan x i = local_maxima_scan x (Suc i)"
    by (simp add: local_maxima_scan_skip)
  also have "\<dots> = local_maxima_scan x j"
    using Suc.hyps(1) [of "Suc i"] Suc.hyps(2) Suc.prems \<open>i < j\<close> by simp
  finally show ?case .
qed

lemma local_maxima_spike:
  assumes "0 < c" "1 \<le> j" "1 \<le> k"
  shows "local_maxima (replicate j 0 @ c # replicate k 0) = [j]"
proof -
  let ?x = "replicate j 0 @ c # replicate k (0::real)"
  have len: "length ?x = j + k + 1" by simp
  have nth: "?x ! q = (if q = j then c else 0)" if "q < length ?x" for q
    using that by (auto simp: nth_append nth_Cons')
  have "local_maxima_scan ?x 1 = local_maxima_scan ?x j"
    using assms by (intro local_maxima_scan_skip_to) (auto simp: nth split: if_splits)
  also have "plateau_end ?x j (Suc j) = Suc j"
    using assms by (subst plateau_end.simps) (auto simp: nth)
  then have "local_maxima_scan ?x j = j # local_maxima_scan ?x (Suc (Suc j))"
    using assms by (subst local_maxima_scan_peak) (auto simp: nth)
  also have "local_maxima_scan ?x (Suc (Suc j)) = []"
    using assms by (intro local_maxima_scan_no_rise) (auto simp: nth split: if_splits)
  finally show ?thesis by (simp add: local_maxima_def)
qed

lemma find_peaks_single:
  assumes "local_maxima x = [p]" "h \<le> x ! p" "1 \<le> d"
  shows "find_peaks x h d = Inr [p]"
  using assms
  by (simp add: find_peaks_def select_by_peak_distance_def argsort_desc_def select_with_order_def
      distance_step_def clear_right.simps)

lemma find_peaks_no_local_max:
  assumes "\<forall>p. \<not> is_local_max x p" "1 \<le> d"
  shows "find_peaks x h d = Inr []"
proof -
  obtain ps where ps: "find_peaks x h d = Inr ps"
    using assms(2) by (cases "find_peaks x h d") (auto simp: find_peaks_Inl_iff)
  then have "ps = []" using find_peaks_Inr_facts [OF ps] assms(1) by (cases ps) auto
  with ps show ?thesis by simp
qed

section \<open>The contract\<close>

text \<open>
  The contract of the peak picker.  On success the distance argument was at
  least 1 and the returned indices are strictly increasing, pairwise at least
  \<open>distance\<close> apart, each an interior strict local maximum (plateau
  midpoint) of the signal whose value reaches the height threshold.
\<close>

theorem find_peaks_contract:
  assumes "find_peaks x h d = Inr ps"
  shows "1 \<le> d \<and> sorted_wrt (\<lambda>a b. a + nat d \<le> b) ps \<and>
    (\<forall>p \<in> set ps. 0 < p \<and> Suc p < length x \<and> is_local_max x p \<and> h \<le> x ! p)"
  using find_peaks_Inr_facts [OF assms] local_max_bounds by blast

theorem find_peaks_contract_witness:
  "find_peaks [0, 5, 0, 0, 5, 0] 3 4 = Inr [4] \<and>
   1 \<le> (4::int) \<and> (0::nat) < 4 \<and> Suc 4 < length [0, 5, 0, 0, 5, 0 :: real] \<and>
   is_local_max [0, 5, 0, 0, 5, 0] 4"
proof -
  have eq: "find_peaks [0, 5, 0, 0, 5, 0] 3 4 = Inr [4]" by code_simp
  show ?thesis using find_peaks_contract [OF eq] eq by simp
qed

end
