(* ===== verification/Hooks.thy ===== *)
theory Hooks
  imports Librosa Peaks
begin

text \<open>
  The hook detector, \<open>detect_hooks(y, sr, onset_env, rms, min_duration=3,
  max_duration=8)\<close> of \<open>audio_analyzer.py\<close>.  Of the audio \<open>y\<close> only its
  length is used by the code itself; the novelty envelope that the function
  recomputes with \<open>librosa.onset.onset_strength(..., aggregate=np.median,
  fmax=8000)\<close> is an output of the feature library and is an argument here;
  \<open>onset_env\<close> is accepted but never read by the source, so it is not an
  argument of the model.  The lemmas show that the peak-filtering loop is a
  map over a filter (its energy gate reads the frame recovered from the
  peak's time, \<open>frame_back\<close>), that every emitted interval is well formed
  and at most three are emitted, when the fallback fires, that the function
  fails exactly when \<open>sr < 2\<close>, how far apart consecutive hooks must be, and
  that at 22050 Hz the gate of the peak at frame 15 reads frame 14.
\<close>

section \<open>Definitions\<close>

text \<open>The length of the track in seconds, \<open>len(y)/sr\<close> (true division).\<close>

definition track_length :: "nat \<Rightarrow> int \<Rightarrow> real" where
  "track_length ylen sr = real ylen / real_of_int sr"

text \<open>
  \<open>duration = min(max_duration, max(min_duration, min(6, len(y)/sr - peak_time)))\<close>
  and the emitted \<open>[peak_time, peak_time + duration]\<close>.
\<close>

definition hook_interval :: "real \<Rightarrow> real \<Rightarrow> nat \<Rightarrow> int \<Rightarrow> real \<Rightarrow> interval" where
  "hook_interval min_d max_d ylen sr pt =
     (pt, pt + clamp_dur min_d max_d (min 6 (track_length ylen sr - pt)))"

text \<open>
  The loop \<open>for peak_time in peak_times\<close>: map the time back to a frame,
  skip it when \<open>frame_idx >= len(rms)\<close>, keep it when
  \<open>rms[frame_idx] > np.mean(rms) * 0.8\<close>.
\<close>

fun hooks_loop ::
  "real \<Rightarrow> real \<Rightarrow> nat \<Rightarrow> int \<Rightarrow> real list \<Rightarrow> real list \<Rightarrow> interval list py" where
  "hooks_loop min_d max_d ylen sr rms [] = Inr []"
| "hooks_loop min_d max_d ylen sr rms (pt # pts) =
     (let frame_idx = time_to_frames pt sr in
      if int (length rms) \<le> frame_idx then hooks_loop min_d max_d ylen sr rms pts
      else sbind (py_get rms frame_idx) (\<lambda>e.
        if np_mean rms * 0.8 < e
        then sbind (hooks_loop min_d max_d ylen sr rms pts)
               (\<lambda>hs. Inr (hook_interval min_d max_d ylen sr pt # hs))
        else hooks_loop min_d max_d ylen sr rms pts))"

text \<open>The fallback \<open>[[len(y)/sr / 3, len(y)/sr / 3 + 5]]\<close>.\<close>

definition hook_fallback :: "nat \<Rightarrow> int \<Rightarrow> interval list" where
  "hook_fallback ylen sr =
     (let start_time = track_length ylen sr / 3 in [(start_time, start_time + 5)])"

definition detect_hooks ::
  "nat \<Rightarrow> int \<Rightarrow> real list \<Rightarrow> real list \<Rightarrow> real \<Rightarrow> real \<Rightarrow> interval list py" where
  "detect_hooks ylen sr novelty rms min_d max_d =
     sbind (find_peaks novelty (np_mean novelty * 1.5) (sr div 2)) (\<lambda>novelty_peaks.
       let peak_times = map (\<lambda>p. frames_to_time p sr) novelty_peaks in
       sbind (hooks_loop min_d max_d ylen sr rms peak_times) (\<lambda>hooks.
         let hooks = cap 3 hooks in
         Inr (if hooks = [] \<and> 30 < track_length ylen sr then hook_fallback ylen sr
              else hooks)))"

text \<open>
  The peaks that pass the energy gate, as a predicate on peak frames: the
  gate reads \<open>rms\<close> at the frame recovered from the peak's time.
\<close>

definition hook_qualifies :: "real list \<Rightarrow> int \<Rightarrow> nat \<Rightarrow> bool" where
  "hook_qualifies rms sr p \<longleftrightarrow>
     frame_back sr p < int (length rms) \<and> np_mean rms * 0.8 < rms ! nat (frame_back sr p)"

section \<open>Lemmas\<close>

lemma hooks_loop_map_filter:
  assumes "0 < sr"
  shows "hooks_loop min_d max_d ylen sr rms (map (\<lambda>p. frames_to_time p sr) ps) =
    Inr (map (\<lambda>p. hook_interval min_d max_d ylen sr (frames_to_time p sr))
           (filter (hook_qualifies rms sr) ps))"
proof (induction ps)
  case (Cons p ps)
  have fb: "time_to_frames (frames_to_time p sr) sr = frame_back sr p" by (simp add: frame_back_def)
  have nn: "0 \<le> frame_back sr p" using assms by (rule frame_back_nonneg)
  show ?case
  proof (cases "frame_back sr p < int (length rms)")
    case True
    then have "py_get rms (frame_back sr p) = Inr (rms ! nat (frame_back sr p))"
      using nn by (simp add: py_get_nonneg)
    with True Cons.IH fb show ?thesis by (simp add: hook_qualifies_def)
  next
    case False
    with Cons.IH fb show ?thesis by (simp add: hook_qualifies_def)
  qed
qed simp

lemma find_peaks_half_sr:
  assumes "find_peaks x h (sr div 2) = Inr ps"
  shows "2 \<le> sr"
proof -
  from assms have "1 \<le> sr div 2"
    using find_peaks_Inr_facts by blast
  then show ?thesis by linarith
qed

lemma detect_hooks_eq:
  "detect_hooks ylen sr novelty rms min_d max_d =
     sbind (find_peaks novelty (np_mean novelty * 1.5) (sr div 2)) (\<lambda>ps.
       let hooks = take 3 (map (\<lambda>p. hook_interval min_d max_d ylen sr (frames_to_time p sr))
                        (filter (hook_qualifies rms sr) ps))
       in Inr (if hooks = [] \<and> 30 < track_length ylen sr then hook_fallback ylen sr else hooks))"
proof (cases "find_peaks novelty (np_mean novelty * 1.5) (sr div 2)")
  case (Inr ps)
  then have "0 < sr" using find_peaks_half_sr by fastforce
  with Inr show ?thesis
    by (simp add: detect_hooks_def hooks_loop_map_filter cap_eq_take Let_def)
qed (simp add: detect_hooks_def)

text \<open>
  C4: the detector raises (the \<open>ValueError\<close> of \<open>find_peaks\<close> on a
  distance below 1) exactly when the sample rate is below 2; it never raises
  for a positive even rate such as 22050.
\<close>

theorem detect_hooks_error_iff:
  "(\<exists>e. detect_hooks ylen sr novelty rms min_d max_d = Inl e) \<longleftrightarrow> sr < 2"
proof -
  have "(\<exists>e. detect_hooks ylen sr novelty rms min_d max_d = Inl e) \<longleftrightarrow>
      (\<exists>e. find_peaks novelty (np_mean novelty * 1.5) (sr div 2) = Inl e)"
    by (cases "find_peaks novelty (np_mean novelty * 1.5) (sr div 2)")
      (simp_all add: detect_hooks_eq Let_def)
  also have "\<dots> \<longleftrightarrow> sr div 2 < 1" by (simp add: find_peaks_Inl_iff)
  also have "\<dots> \<longleftrightarrow> sr < 2" by linarith
  finally show ?thesis .
qed

lemma hook_interval_wf:
  assumes "0 \<le> pt" "hook_interval 3 8 ylen sr pt = (s, e)"
  shows "0 \<le> s \<and> s + 3 \<le> e \<and> e \<le> s + 8 \<and> e \<le> max (track_length ylen sr) (s + 3)"
  using assms by (auto simp: hook_interval_def clamp_dur_def)

lemma hook_fallback_wf:
  assumes "30 < track_length ylen sr" "(s, e) \<in> set (hook_fallback ylen sr)"
  shows "0 \<le> s \<and> s + 3 \<le> e \<and> e \<le> s + 8 \<and> e \<le> max (track_length ylen sr) (s + 3)"
  using assms by (auto simp: hook_fallback_def Let_def)

lemma detect_hooks_InrE:
  assumes "detect_hooks ylen sr novelty rms min_d max_d = Inr hs"
  obtains ps where "find_peaks novelty (np_mean novelty * 1.5) (sr div 2) = Inr ps" "2 \<le> sr"
    "hs = (let hooks = take 3 (map (\<lambda>p. hook_interval min_d max_d ylen sr (frames_to_time p sr))
                        (filter (hook_qualifies rms sr) ps))
       in if hooks = [] \<and> 30 < track_length ylen sr then hook_fallback ylen sr else hooks)"
proof -
  from assms obtain ps where fp: "find_peaks novelty (np_mean novelty * 1.5) (sr div 2) = Inr ps"
    and "hs = (let hooks = take 3 (map (\<lambda>p. hook_interval min_d max_d ylen sr (frames_to_time p sr))
                        (filter (hook_qualifies rms sr) ps))
       in if hooks = [] \<and> 30 < track_length ylen sr then hook_fallback ylen sr else hooks)"
    by (auto simp: detect_hooks_eq sbind_eq_Inr_iff)
  moreover from fp have "2 \<le> sr" by (rule find_peaks_half_sr)
  ultimately show ?thesis using that by blast
qed

lemma detect_hooks_memE:
  assumes "detect_hooks ylen sr novelty rms min_d max_d = Inr hs" "(s, e) \<in> set hs"
  obtains (fallback) "hs = hook_fallback ylen sr" "30 < track_length ylen sr"
    | (peak) ps p where "find_peaks novelty (np_mean novelty * 1.5) (sr div 2) = Inr ps" "p \<in> set ps"
        "hook_qualifies rms sr p" "hook_interval min_d max_d ylen sr (frames_to_time p sr) = (s, e)" "2 \<le> sr"
proof -
  obtain ps where fp: "find_peaks novelty (np_mean novelty * 1.5) (sr div 2) = Inr ps" and sr: "2 \<le> sr"
    and hs: "hs = (let hooks = take 3 (map (\<lambda>p. hook_interval min_d max_d ylen sr (frames_to_time p sr))
                        (filter (hook_qualifies rms sr) ps))
       in if hooks = [] \<and> 30 < track_length ylen sr then hook_fallback ylen sr else hooks)"
    using assms(1) by (rule detect_hooks_InrE)
  let ?hooks = "take 3 (map (\<lambda>p. hook_interval min_d max_d ylen sr (frames_to_time p sr))
                        (filter (hook_qualifies rms sr) ps))"
  show ?thesis
  proof (cases "?hooks = [] \<and> 30 < track_length ylen sr")
    case True
    then show ?thesis using hs fallback by simp
  next
    case False
    have "hs = ?hooks" unfolding hs Let_def using False by (rule if_not_P)
    then have "(s, e) \<in> set ?hooks" using assms(2) by simp
    then have "(s, e) \<in> set (map (\<lambda>p. hook_interval min_d max_d ylen sr (frames_to_time p sr))
                        (filter (hook_qualifies rms sr) ps))"
      by (rule in_set_takeD)
    then show ?thesis using peak [OF fp _ _ _ sr] by auto
  qed
qed

lemma detect_hooks_wf:
  assumes "detect_hooks ylen sr novelty rms 3 8 = Inr hs"
  shows "length hs \<le> 3 \<and>
    (\<forall>(s, e) \<in> set hs. 0 \<le> s \<and> s + 3 \<le> e \<and> e \<le> s + 8 \<and> e \<le> max (track_length ylen sr) (s + 3))"
proof -
  obtain ps where sr: "2 \<le> sr" and hs: "hs = (let hooks = take 3 (map (\<lambda>p. hook_interval 3 8 ylen sr (frames_to_time p sr))
                        (filter (hook_qualifies rms sr) ps))
       in if hooks = [] \<and> 30 < track_length ylen sr then hook_fallback ylen sr else hooks)"
    using assms by (rule detect_hooks_InrE)
  let ?hooks = "take 3 (map (\<lambda>p. hook_interval 3 8 ylen sr (frames_to_time p sr))
                        (filter (hook_qualifies rms sr) ps))"
  show ?thesis
  proof (cases "?hooks = [] \<and> 30 < track_length ylen sr")
    case True
    then show ?thesis using hs hook_fallback_wf [of ylen sr] by (auto simp: hook_fallback_def Let_def)
  next
    case False
    have "\<forall>(s, e) \<in> set ?hooks. 0 \<le> s \<and> s + 3 \<le> e \<and> e \<le> s + 8 \<and> e \<le> max (track_length ylen sr) (s + 3)"
    proof (clarify)
      fix s e assume "(s, e) \<in> set ?hooks"
      then have "(s, e) \<in> set (map (\<lambda>p. hook_interval 3 8 ylen sr (frames_to_time p sr))
                        (filter (hook_qualifies rms sr) ps))"
        by (rule in_set_takeD)
      then obtain p where "hook_interval 3 8 ylen sr (frames_to_time p sr) = (s, e)"
        by auto
      moreover have "0 \<le> frames_to_time p sr" using sr by (simp add: frames_to_time_nonneg)
      ultimately show "0 \<le> s \<and> s + 3 \<le> e \<and> e \<le> s + 8 \<and> e \<le> max (track_length ylen sr) (s + 3)"
        by (intro hook_interval_wf)
    qed
    moreover have "hs = ?hooks"
      unfolding hs Let_def using False by (rule if_not_P)
    ultimately show ?thesis by simp
  qed
qed

text \<open>
  C1: every hook the detector returns (with the defaults \<open>min_duration = 3\<close>,
  \<open>max_duration = 8\<close>) starts at a non-negative time, lasts between 3 and 8
  seconds, ends inside the track unless its 3-second minimum forces it past
  the end, and at most three hooks are returned.
\<close>

theorem detect_hooks_intervals:
  assumes "detect_hooks ylen sr novelty rms 3 8 = Inr hs"
  shows "length hs \<le> 3 \<and>
    (\<forall>(s, e) \<in> set hs. 0 \<le> s \<and> s + 3 \<le> e \<and> e \<le> s + 8 \<and> e \<le> max (track_length ylen sr) (s + 3))"
  using assms by (rule detect_hooks_wf)

text \<open>
  C2: when no novelty peak passes the energy gate (read at the frame the
  loop recovers from the peak's time), the detector returns the
  single fallback hook at a third of the track for tracks longer than 30
  seconds, and no hook at all for shorter ones.
\<close>

theorem detect_hooks_no_qualifying_peak:
  assumes "find_peaks novelty (np_mean novelty * 1.5) (sr div 2) = Inr ps"
    and "\<forall>p \<in> set ps. \<not> hook_qualifies rms sr p"
  shows "detect_hooks ylen sr novelty rms min_d max_d =
           Inr (if 30 < track_length ylen sr then hook_fallback ylen sr else [])"
proof -
  have "filter (hook_qualifies rms sr) ps = []" using assms(2) by (simp add: filter_empty_conv)
  with assms(1) show ?thesis by (simp add: detect_hooks_eq)
qed

lemma fst_hook_interval [simp]: "fst (hook_interval min_d max_d ylen sr pt) = pt"
  by (simp add: hook_interval_def)

lemma detect_hooks_spacing:
  assumes "detect_hooks ylen sr novelty rms min_d max_d = Inr hs"
  shows "sorted_wrt (\<lambda>a b. fst a + frames_to_time (nat (sr div 2)) sr \<le> fst b) hs"
proof -
  obtain ps where fp: "find_peaks novelty (np_mean novelty * 1.5) (sr div 2) = Inr ps"
    and sr: "2 \<le> sr"
    and hs: "hs = (let hooks = take 3 (map (\<lambda>p. hook_interval min_d max_d ylen sr (frames_to_time p sr))
                        (filter (hook_qualifies rms sr) ps))
       in if hooks = [] \<and> 30 < track_length ylen sr then hook_fallback ylen sr else hooks)"
    using assms by (rule detect_hooks_InrE)
  let ?d = "nat (sr div 2)"
  have "sorted_wrt (\<lambda>a b. a + ?d \<le> b) ps" using fp find_peaks_Inr_facts by blast
  then have "sorted_wrt (\<lambda>a b. a + ?d \<le> b) (filter (hook_qualifies rms sr) ps)"
    by (rule sorted_wrt_filter)
  then have "sorted_wrt (\<lambda>a b. frames_to_time a sr + frames_to_time ?d sr \<le> frames_to_time b sr)
      (filter (hook_qualifies rms sr) ps)"
    using sr by (intro sorted_wrt_frames_to_time) simp_all
  then have "sorted_wrt (\<lambda>a b. fst a + frames_to_time ?d sr \<le> fst b)
      (take 3 (map (\<lambda>p. hook_interval min_d max_d ylen sr (frames_to_time p sr))
                        (filter (hook_qualifies rms sr) ps)))"
    by (simp add: sorted_wrt_map sorted_wrt_take)
  then show ?thesis using hs by (simp add: Let_def hook_fallback_def)
qed

text \<open>
  C3: the minimum peak distance \<open>sr // 2\<close> is passed to \<open>find_peaks\<close> in
  frames of 512 samples, not in samples: consecutive hooks start at least
  256 seconds apart for every even sample rate, instead of the half second
  the comment in the source intends.
\<close>

theorem detect_hooks_gap_256:
  assumes "detect_hooks ylen sr novelty rms min_d max_d = Inr hs" and "even sr"
  shows "sorted_wrt (\<lambda>a b. fst a + 256 \<le> fst b) hs"
proof -
  obtain ps where "find_peaks novelty (np_mean novelty * 1.5) (sr div 2) = Inr ps"
    using assms(1) by (auto simp: detect_hooks_eq sbind_eq_Inr_iff)
  then have "0 < sr" using find_peaks_half_sr by fastforce
  with assms show ?thesis
    using detect_hooks_spacing frames_to_time_half_sr by metis
qed

section \<open>Evaluated examples and witnesses\<close>

text \<open>
  A signal at \<open>sr = 8\<close> (a frame lasts 64 seconds) with two equal novelty
  peaks three frames apart: the distance of \<open>8 // 2 = 4\<close> frames keeps
  one of them.
\<close>

lemma hooks_example_peaks: "find_peaks [0, 5, 0, 0, 5, 0] (np_mean [0, 5, 0, 0, 5, 0] * 1.5) (8 div 2) = Inr [4]"
  by code_simp

lemma frame_back_8_4: "frame_back 8 4 = 4"
  by code_simp

lemma hooks_example:
  "detect_hooks 100000 8 [0, 5, 0, 0, 5, 0] [1, 1, 1, 1, 1, 1] 3 8 = Inr [(256, 262)]"
  unfolding detect_hooks_eq hooks_example_peaks
  by (simp add: hook_qualifies_def np_mean_def frame_back_8_4
      hook_interval_def frames_to_time_def hop_length_def track_length_def clamp_dur_def)

theorem detect_hooks_intervals_witness:
  "length [(256::real, 262::real)] \<le> 3 \<and>
   0 \<le> (256::real) \<and> 256 + 3 \<le> (262::real) \<and> 262 \<le> (256 + 8::real) \<and>
   262 \<le> max (track_length 100000 8) (256 + 3)"
  using detect_hooks_intervals [OF hooks_example] by simp

theorem detect_hooks_gap_256_witness:
  "sorted_wrt (\<lambda>a b. fst a + 256 \<le> fst b) [(256::real, 262::real)]"
  using detect_hooks_gap_256 [OF hooks_example] by simp

theorem detect_hooks_no_qualifying_peak_witness:
  "detect_hooks 100000 8 [0, 5, 0, 0, 5, 0] [1, 1, 1, 1] 3 8 = Inr [(12500 / 3, 12500 / 3 + 5)]"
proof -
  have "\<forall>p \<in> set [4]. \<not> hook_qualifies [1, 1, 1, 1] 8 p" by (simp add: hook_qualifies_def frame_back_8_4)
  from detect_hooks_no_qualifying_peak [OF hooks_example_peaks this]
  show ?thesis by (simp add: track_length_def hook_fallback_def)
qed

text \<open>
  A novelty spike at frame 15 at 22050 Hz, and an energy envelope that is
  high only at frame 14.
\<close>

lemma early_novelty_peaks:
  "find_peaks (replicate 15 0 @ 1 # replicate 5 0) (np_mean (replicate 15 0 @ 1 # replicate 5 0) * 1.5)
     (22050 div 2) = Inr [15]"
proof (rule find_peaks_single)
  show "local_maxima (replicate 15 0 @ 1 # replicate 5 (0::real)) = [15]"
    by (rule local_maxima_spike) simp_all
qed (simp_all add: np_mean_def nth_append sum_list_replicate)

lemma frame_back_22050_15: "frame_back 22050 15 = 14"
  by code_simp

text \<open>
  C23: the energy gate of a hook is read one frame early for some peaks:
  at 22050 Hz the novelty peak at frame 15 converts to 0.348... seconds
  and back to frame 14 (\<open>int(7679.999999999999) // 512\<close>), so with the
  energy above the threshold at frame 14 and below it at frame 15 the
  detector emits a hook at the peak, where a gate at the peak's own frame
  would emit none.
\<close>

theorem detect_hooks_early_frame:
  "\<not> np_mean (replicate 14 0 @ 1 # replicate 7 0) * 0.8 < (replicate 14 0 @ 1 # replicate 7 (0::real)) ! 15 \<and>
   detect_hooks 220500 22050 (replicate 15 0 @ 1 # replicate 5 0) (replicate 14 0 @ 1 # replicate 7 0) 3 8 =
     Inr [(frames_to_time 15 22050, frames_to_time 15 22050 + 6)]"
proof -
  have q: "hook_qualifies (replicate 14 0 @ 1 # replicate 7 0) 22050 15"
    by (simp add: hook_qualifies_def frame_back_22050_15 np_mean_def nth_append sum_list_replicate)
  have iv: "hook_interval 3 8 220500 22050 (frames_to_time 15 22050) =
      (frames_to_time 15 22050, frames_to_time 15 22050 + 6)"
    by (simp add: hook_interval_def clamp_dur_def track_length_def frames_to_time_def hop_length_def)
  have "detect_hooks 220500 22050 (replicate 15 0 @ 1 # replicate 5 0) (replicate 14 0 @ 1 # replicate 7 0) 3 8 =
     Inr [(frames_to_time 15 22050, frames_to_time 15 22050 + 6)]"
    unfolding detect_hooks_eq early_novelty_peaks using q iv by simp
  moreover have "\<not> np_mean (replicate 14 0 @ 1 # replicate 7 0) * 0.8 <
      (replicate 14 0 @ 1 # replicate 7 (0::real)) ! 15"
    by (simp add: np_mean_def nth_append sum_list_replicate)
  ultimately show ?thesis by blast
qed

end
