(* ===== verification/Drops.thy ===== *)
theory Drops
  imports Librosa Peaks
begin

text \<open>
  The drop detector, \<open>detect_drops(y, sr, rms, min_strength=0.6,
  min_duration=2, max_duration=6)\<close> of \<open>audio_analyzer.py\<close>: min-max
  normalisation of the RMS envelope (guarded by \<open>1e-10\<close>), its first
  difference, peaks of the difference of height \<open>min_strength\<close> at least
  \<open>sr\<close> frames apart, the boundary guard of 20 frames and the energy gate
  comparing the mean over \<open>[idx-20, idx-5)\<close> with the mean over
  \<open>[idx, idx+20)\<close>, then the cap at two.  The audio \<open>y\<close> is not read by
  the function and is not an argument of the model.  The lemmas show that
  the loop is a map over a filter whose guard and gate read the frame
  recovered from the candidate's time (\<open>frame_back\<close>), that drops are
  5-second intervals starting at frame 20 or later, at most two, when the
  detector raises, that a step up of the envelope yields one drop whatever
  the ratio of the two levels when its frame reads back past the guard, and
  that the specification's step test yields a drop at 22050 Hz and none at
  77 Hz.
\<close>

section \<open>Definitions\<close>

text \<open>The literal \<open>1e-10\<close> of the normalisation.\<close>

definition norm_eps :: real where
  "norm_eps = 1 / 10 ^ 10"

text \<open>\<open>norm_rms = (rms - np.min(rms)) / (np.max(rms) - np.min(rms) + 1e-10)\<close>.\<close>

definition normalize_rms :: "real list \<Rightarrow> real \<Rightarrow> real \<Rightarrow> real list" where
  "normalize_rms rms mn mx = map (\<lambda>v. (v - mn) / (mx - mn + norm_eps)) rms"

text \<open>
  The validation loop \<open>for i, drop_time in enumerate(drop_times)\<close>: skip a
  candidate with fewer than 20 frames on either side, keep it when
  \<open>post_energy > pre_energy * 1.5\<close>.  Slices never raise and both windows
  are non-empty after the guard, so the loop cannot fail.
\<close>

fun drops_loop :: "real \<Rightarrow> real \<Rightarrow> int \<Rightarrow> real list \<Rightarrow> real list \<Rightarrow> interval list" where
  "drops_loop min_d max_d sr norm_rms [] = []"
| "drops_loop min_d max_d sr norm_rms (drop_time # dts) =
     (let frame_idx = time_to_frames drop_time sr in
      if frame_idx < 20 \<or> int (length norm_rms) - 20 \<le> frame_idx
      then drops_loop min_d max_d sr norm_rms dts
      else
        (let pre_energy = np_mean (py_slice norm_rms (frame_idx - 20) (frame_idx - 5));
             post_energy = np_mean (py_slice norm_rms frame_idx (frame_idx + 20))
         in if pre_energy * 1.5 < post_energy
            then (drop_time, drop_time + clamp_dur min_d max_d 5)
                   # drops_loop min_d max_d sr norm_rms dts
            else drops_loop min_d max_d sr norm_rms dts))"

definition detect_drops :: "int \<Rightarrow> real list \<Rightarrow> real \<Rightarrow> real \<Rightarrow> real \<Rightarrow> interval list py" where
  "detect_drops sr rms min_strength min_d max_d =
     sbind (np_min rms) (\<lambda>mn. sbind (np_max rms) (\<lambda>mx.
       let norm_rms = normalize_rms rms mn mx;
           rms_diff = np_diff norm_rms
       in sbind (find_peaks rms_diff min_strength sr) (\<lambda>drop_candidates.
            let drop_times = map (\<lambda>c. frames_to_time c sr) drop_candidates
            in Inr (cap 2 (drops_loop min_d max_d sr norm_rms drop_times)))))"

text \<open>
  The guard and gate of the loop, as a predicate on candidate frames: both
  read the frame recovered from the candidate's time.
\<close>

definition drop_gate :: "real list \<Rightarrow> int \<Rightarrow> nat \<Rightarrow> bool" where
  "drop_gate norm_rms sr c \<longleftrightarrow>
     20 \<le> frame_back sr c \<and> frame_back sr c + 20 < int (length norm_rms) \<and>
     np_mean (take 15 (drop (nat (frame_back sr c) - 20) norm_rms)) * 1.5 <
       np_mean (take 20 (drop (nat (frame_back sr c)) norm_rms))"

section \<open>Lemmas\<close>

lemma drops_loop_map_filter:
  assumes "0 < sr"
  shows "drops_loop min_d max_d sr norm_rms (map (\<lambda>c. frames_to_time c sr) cs) =
    map (\<lambda>c. (frames_to_time c sr, frames_to_time c sr + clamp_dur min_d max_d 5))
      (filter (drop_gate norm_rms sr) cs)"
proof (induction cs)
  case (Cons c cs)
  define n where "n = nat (frame_back sr c)"
  have fb: "frame_back sr c = int n" using frame_back_nonneg [OF assms] by (simp add: n_def)
  then have tf: "time_to_frames (frames_to_time c sr) sr = int n" by (simp add: frame_back_def)
  show ?case
  proof (cases "20 \<le> n \<and> n + 20 < length norm_rms")
    case True
    then have "py_slice norm_rms (int n - 20) (int n - 5) = take 15 (drop (n - 20) norm_rms)"
      and "py_slice norm_rms (int n) (int n + 20) = take 20 (drop n norm_rms)"
      by (simp_all add: py_slice_nonneg nat_diff_distrib')
    with True Cons.IH tf fb show ?thesis
      by (simp add: drop_gate_def Let_def)
  next
    case False
    then have "int n < 20 \<or> int (length norm_rms) - 20 \<le> int n" by linarith
    moreover have "\<not> drop_gate norm_rms sr c" using False unfolding drop_gate_def fb by auto
    ultimately show ?thesis using Cons.IH tf by simp
  qed
qed simp

lemma detect_drops_eq:
  "detect_drops sr rms min_strength min_d max_d =
     sbind (np_min rms) (\<lambda>mn. sbind (np_max rms) (\<lambda>mx.
       sbind (find_peaks (np_diff (normalize_rms rms mn mx)) min_strength sr) (\<lambda>cs.
         Inr (take 2 (map (\<lambda>c. (frames_to_time c sr, frames_to_time c sr + clamp_dur min_d max_d 5))
           (filter (drop_gate (normalize_rms rms mn mx) sr) cs))))))"
proof (cases rms)
  case (Cons r rs)
  show ?thesis
  proof (cases "find_peaks (np_diff (normalize_rms rms (fold min rs r) (fold max rs r))) min_strength sr")
    case (Inr cs)
    then have "1 \<le> sr" using find_peaks_Inr_facts by blast
    with Inr Cons show ?thesis
      by (simp add: detect_drops_def drops_loop_map_filter cap_eq_take)
  qed (simp add: detect_drops_def Cons)
qed (simp add: detect_drops_def)

text \<open>
  C8: the drop detector raises exactly when the energy envelope is empty
  (\<open>np.min\<close> of an empty array) or the sample rate is below 1
  (\<open>find_peaks\<close> rejects the distance); a constant or any non-empty
  envelope at a positive rate never raises.
\<close>

theorem detect_drops_error_iff:
  "(\<exists>e. detect_drops sr rms min_strength min_d max_d = Inl e) \<longleftrightarrow> rms = [] \<or> sr < 1"
proof (cases rms)
  case Nil
  then show ?thesis by (simp add: detect_drops_def)
next
  case (Cons r rs)
  then have "(\<exists>e. detect_drops sr rms min_strength min_d max_d = Inl e) \<longleftrightarrow>
      (\<exists>e. find_peaks (np_diff (normalize_rms rms (fold min rs r) (fold max rs r))) min_strength sr = Inl e)"
    by (cases "find_peaks (np_diff (normalize_rms rms (fold min rs r) (fold max rs r))) min_strength sr")
      (simp_all add: detect_drops_eq)
  with Cons show ?thesis by (simp add: find_peaks_Inl_iff)
qed


lemma np_min_step:
  assumes "a < b" "1 \<le> k" "1 \<le> m"
  shows "np_min (replicate k a @ replicate m b) = Inr a"
proof -
  obtain k' where k: "k = Suc k'" using assms(2) by (cases k) auto
  have "np_min (replicate k a @ replicate m b) = Inr (fold min (replicate k' a @ replicate m b) a)"
    using k by simp
  also have "fold min (replicate k' a @ replicate m b) a = Min (set (a # replicate k' a @ replicate m b))"
    by (rule fold_min_eq_Min)
  also have "set (a # replicate k' a @ replicate m b) = {a, b}" using assms(3) by auto
  finally show ?thesis using assms(1) by simp
qed

lemma np_max_step:
  assumes "a < b" "1 \<le> k" "1 \<le> m"
  shows "np_max (replicate k a @ replicate m b) = Inr b"
proof -
  obtain k' where k: "k = Suc k'" using assms(2) by (cases k) auto
  have "np_max (replicate k a @ replicate m b) = Inr (fold max (replicate k' a @ replicate m b) a)"
    using k by simp
  also have "fold max (replicate k' a @ replicate m b) a = Max (set (a # replicate k' a @ replicate m b))"
    by (rule fold_max_eq_Max)
  also have "set (a # replicate k' a @ replicate m b) = {a, b}" using assms(3) by auto
  finally show ?thesis using assms(1) by simp
qed

lemma normalize_rms_step:
  "normalize_rms (replicate k a @ replicate m b) a b =
     replicate k 0 @ replicate m ((b - a) / (b - a + norm_eps))"
  by (simp add: normalize_rms_def)

text \<open>
  A step of the envelope from \<open>a\<close> up to \<open>b\<close> after \<open>k\<close> frames: its single
  candidate is the last frame before the step, and it becomes a drop
  exactly when the frame read back passes the lower guard.
\<close>

lemma detect_drops_step_up:
  assumes "a < b" "3 * norm_eps \<le> 2 * (b - a)" "2 \<le> k" "20 \<le> m" "1 \<le> sr" "k < 2 ^ 51"
  shows "detect_drops sr (replicate k a @ replicate m b) 0.6 2 6 =
           Inr (if 20 \<le> frame_back sr (k - 1)
                then [(frames_to_time (k - 1) sr, frames_to_time (k - 1) sr + 5)] else [])"
proof -
  let ?c = "(b - a) / (b - a + norm_eps)"
  let ?norm = "replicate k 0 @ replicate m ?c"
  have eps: "0 < norm_eps" by (simp add: norm_eps_def)
  have c_pos: "0 < ?c" using assms(1) eps by simp
  have c_ge: "0.6 \<le> ?c"
    using assms(1,2) eps by (simp add: field_simps)
  have diff: "np_diff ?norm = replicate (k - 1) 0 @ ?c # replicate (m - 1) 0"
    using assms(3,4) by (simp add: np_diff_step)
  have lm: "local_maxima (np_diff ?norm) = [k - 1]"
    unfolding diff using assms c_pos by (intro local_maxima_spike) auto
  have "np_diff ?norm ! (k - 1) = ?c" unfolding diff by (simp add: nth_append)
  then have fp: "find_peaks (np_diff ?norm) 0.6 sr = Inr [k - 1]"
    using lm c_ge assms(5) by (intro find_peaks_single) auto
  define n where "n = nat (frame_back sr (k - 1))"
  have sr: "0 < sr" using assms(5) by simp
  have fb: "frame_back sr (k - 1) = int n" using frame_back_nonneg [OF sr] by (simp add: n_def)
  have n: "k - 2 \<le> n" "n \<le> k - 1"
    using frame_back_bounds [OF sr, of "k - 1"] assms(3,6) fb by linarith+
  have gate: "drop_gate ?norm sr (k - 1) \<longleftrightarrow> 20 \<le> frame_back sr (k - 1)"
  proof
    assume "20 \<le> frame_back sr (k - 1)"
    then have n20: "20 \<le> n" using fb by simp
    have pre: "take 15 (drop (n - 20) ?norm) = replicate 15 0"
      using n n20 by (simp add: take_replicate)
    have post: "take 20 (drop n ?norm) = replicate (k - n) 0 @ replicate (20 - (k - n)) ?c"
      using n assms(4) by (simp add: take_replicate)
    have "0 < np_mean (take 20 (drop n ?norm))"
      unfolding post using c_pos n n20 by (intro np_mean_replicate_pos) simp_all
    then show "drop_gate ?norm sr (k - 1)"
      unfolding drop_gate_def fb using pre n n20 assms(4) by simp
  qed (simp add: drop_gate_def)
  show ?thesis
    using assms(1,3,4) fp gate
    by (simp add: detect_drops_eq np_min_step np_max_step normalize_rms_step clamp_dur_def)
qed

lemma detect_drops_InrE:
  assumes "detect_drops sr rms min_strength min_d max_d = Inr ds"
  obtains mn mx cs where "np_min rms = Inr mn" "np_max rms = Inr mx"
    "find_peaks (np_diff (normalize_rms rms mn mx)) min_strength sr = Inr cs" "1 \<le> sr"
    "ds = take 2 (map (\<lambda>c. (frames_to_time c sr, frames_to_time c sr + clamp_dur min_d max_d 5))
           (filter (drop_gate (normalize_rms rms mn mx) sr) cs))"
proof -
  from assms obtain mn mx cs where "np_min rms = Inr mn" "np_max rms = Inr mx"
    and fp: "find_peaks (np_diff (normalize_rms rms mn mx)) min_strength sr = Inr cs"
    and "ds = take 2 (map (\<lambda>c. (frames_to_time c sr, frames_to_time c sr + clamp_dur min_d max_d 5))
           (filter (drop_gate (normalize_rms rms mn mx) sr) cs))"
    by (auto simp: detect_drops_eq sbind_eq_Inr_iff)
  moreover have "1 \<le> sr" using find_peaks_Inr_facts [OF fp] by blast
  ultimately show ?thesis using that by blast
qed

lemma length_normalize_rms [simp]: "length (normalize_rms rms mn mx) = length rms"
  by (simp add: normalize_rms_def)

lemma detect_drops_memE:
  assumes "detect_drops sr rms min_strength min_d max_d = Inr ds" "(s, e) \<in> set ds"
  obtains mn mx c where "np_min rms = Inr mn" "np_max rms = Inr mx"
    "drop_gate (normalize_rms rms mn mx) sr c" "is_local_max (np_diff (normalize_rms rms mn mx)) c"
    "min_strength \<le> np_diff (normalize_rms rms mn mx) ! c"
    "s = frames_to_time c sr" "e = s + clamp_dur min_d max_d 5" "1 \<le> sr"
proof -
  obtain mn mx cs where mn: "np_min rms = Inr mn" and mx: "np_max rms = Inr mx"
    and fp: "find_peaks (np_diff (normalize_rms rms mn mx)) min_strength sr = Inr cs" and sr: "1 \<le> sr"
    and ds: "ds = take 2 (map (\<lambda>c. (frames_to_time c sr, frames_to_time c sr + clamp_dur min_d max_d 5))
           (filter (drop_gate (normalize_rms rms mn mx) sr) cs))"
    using assms(1) by (rule detect_drops_InrE)
  from assms(2) ds obtain c where "c \<in> set cs" "drop_gate (normalize_rms rms mn mx) sr c"
    "s = frames_to_time c sr" "e = s + clamp_dur min_d max_d 5"
    by (auto dest!: in_set_takeD)
  with find_peaks_Inr_facts [OF fp] mn mx sr that show ?thesis by blast
qed

lemma detect_drops_wf:
  assumes "detect_drops sr rms min_strength 2 6 = Inr ds"
  shows "length ds \<le> 2 \<and> (\<forall>(s, e) \<in> set ds. frames_to_time 20 sr \<le> s \<and> e = s + 5)"
proof -
  obtain mn mx cs where sr: "1 \<le> sr" and ds: "ds = take 2 (map (\<lambda>c. (frames_to_time c sr, frames_to_time c sr + clamp_dur 2 6 5))
           (filter (drop_gate (normalize_rms rms mn mx) sr) cs))"
    using assms by (rule detect_drops_InrE)
  have "\<forall>(s, e) \<in> set ds. frames_to_time 20 sr \<le> s \<and> e = s + 5"
  proof clarify
    fix s e assume "(s, e) \<in> set ds"
    then have "(s, e) \<in> set (map (\<lambda>c. (frames_to_time c sr, frames_to_time c sr + clamp_dur 2 6 5))
           (filter (drop_gate (normalize_rms rms mn mx) sr) cs))"
      unfolding ds by (rule in_set_takeD)
    then obtain c where "drop_gate (normalize_rms rms mn mx) sr c" "s = frames_to_time c sr"
      "e = frames_to_time c sr + clamp_dur 2 6 5" by auto
    moreover have "20 \<le> c"
    proof -
      have "int 20 \<le> frame_back sr c"
        using \<open>drop_gate (normalize_rms rms mn mx) sr c\<close> by (simp add: drop_gate_def)
      moreover have "0 < sr" using sr by simp
      ultimately show ?thesis using frame_back_lower [of sr 20 c] by simp
    qed
    ultimately show "frames_to_time 20 sr \<le> s \<and> e = s + 5"
      using sr by (simp add: frames_to_time_mono clamp_dur_def)
  qed
  then show ?thesis using ds by simp
qed

text \<open>
  C5: the drop detector (defaults \<open>min_duration = 2\<close>, \<open>max_duration = 6\<close>)
  returns at most two drops, each exactly 5 seconds long and starting no
  earlier than frame 20 (the boundary guard).
\<close>

theorem detect_drops_intervals:
  assumes "detect_drops sr rms min_strength 2 6 = Inr ds"
  shows "length ds \<le> 2 \<and> (\<forall>(s, e) \<in> set ds. frames_to_time 20 sr \<le> s \<and> e = s + 5)"
  using assms by (rule detect_drops_wf)

text \<open>
  C9: every drop starts at a frame \<open>c\<close> that is a strict local maximum of
  the derivative of the normalised envelope, of height at least
  \<open>min_strength\<close>; the frame \<open>i\<close> the loop recovers from its time has 20
  frames on both sides, and the mean normalised energy over the 20 frames
  from \<open>i\<close> exceeds 1.5 times the mean over the frames 20 to 5 before \<open>i\<close>.
\<close>

theorem detect_drops_gate:
  assumes "detect_drops sr rms min_strength min_d max_d = Inr ds" and "(s, e) \<in> set ds"
  shows "\<exists>mn mx c. np_min rms = Inr mn \<and> np_max rms = Inr mx \<and> s = frames_to_time c sr \<and>
    drop_gate (normalize_rms rms mn mx) sr c \<and>
    is_local_max (np_diff (normalize_rms rms mn mx)) c \<and>
    min_strength \<le> np_diff (normalize_rms rms mn mx) ! c"
proof (rule detect_drops_memE [OF assms])
  fix mn mx c
  assume "np_min rms = Inr mn" "np_max rms = Inr mx" "drop_gate (normalize_rms rms mn mx) sr c"
    "is_local_max (np_diff (normalize_rms rms mn mx)) c"
    "min_strength \<le> np_diff (normalize_rms rms mn mx) ! c" "s = frames_to_time c sr"
  then show ?thesis by (intro exI conjI)
qed

text \<open>
  C6: the energy gate compares levels after min-max normalisation, so the
  ratio of the two levels of a step does not matter: a step from \<open>a > 0\<close>
  up to \<open>r * a\<close>, for every ratio \<open>r > 1\<close> (with a difference above the
  rounding guard), with at least 21 frames before it and 20 after it,
  yields exactly one drop, at the last frame before the step, whenever that
  frame read back from its time passes the 20-frame guard (as frame 20 does
  at 22050 Hz).  In particular a 1.2-fold step yields one drop.
\<close>

theorem detect_drops_any_ratio:
  assumes "0 < a" "1 < r" "3 * norm_eps \<le> 2 * ((r - 1) * a)" "21 \<le> k" "20 \<le> m" "1 \<le> sr"
    "k < 2 ^ 51" "20 \<le> frame_back sr (k - 1)"
  shows "detect_drops sr (replicate k a @ replicate m (r * a)) 0.6 2 6 =
           Inr [(frames_to_time (k - 1) sr, frames_to_time (k - 1) sr + 5)]"
proof -
  have "detect_drops sr (replicate k a @ replicate m (r * a)) 0.6 2 6 =
           Inr (if 20 \<le> frame_back sr (k - 1)
                then [(frames_to_time (k - 1) sr, frames_to_time (k - 1) sr + 5)] else [])"
  proof (rule detect_drops_step_up)
    show "a < r * a" using assms(1,2) by simp
    show "3 * norm_eps \<le> 2 * (r * a - a)" using assms(3) by (simp add: algebra_simps)
  qed (use assms in auto)
  then show ?thesis using assms(8) by simp
qed

section \<open>Evaluated examples and witnesses\<close>

text \<open>
  The envelope of the specification's test: 21 frames at level 1, then 20
  frames at 1.2.  Its candidate is frame 20, which reads back as 20 at
  22050 Hz and as 19 at 77 Hz.
\<close>

lemma frame_back_22050_20: "frame_back 22050 20 = 20"
  by code_simp

lemma frame_back_77_20: "frame_back 77 20 = 19"
  by code_simp

lemma drops_example:
  "detect_drops 22050 (replicate 21 1 @ replicate 20 (6 / 5)) 0.6 2 6 =
     Inr [(frames_to_time 20 22050, frames_to_time 20 22050 + 5)]"
  using detect_drops_step_up [of 1 "6 / 5" 21 20 22050] by (simp add: norm_eps_def frame_back_22050_20)

theorem detect_drops_intervals_witness:
  "length [(frames_to_time 20 22050, frames_to_time 20 22050 + 5)] \<le> 2 \<and>
   frames_to_time 20 22050 \<le> frames_to_time 20 22050 \<and>
   frames_to_time 20 22050 + 5 = frames_to_time 20 22050 + 5"
  using detect_drops_intervals [OF drops_example] by simp

theorem detect_drops_any_ratio_witness:
  "detect_drops 22050 (replicate 21 1 @ replicate 20 (6 / 5 * 1)) 0.6 2 6 =
     Inr [(frames_to_time 20 22050, frames_to_time 20 22050 + 5)]"
  using detect_drops_any_ratio [of 1 "6 / 5" 21 20 22050] by (simp add: norm_eps_def frame_back_22050_20)

theorem detect_drops_gate_witness:
  "\<exists>mn mx c. np_min (replicate 21 1 @ replicate 20 (6 / 5)) = Inr mn \<and>
     np_max (replicate 21 1 @ replicate 20 (6 / 5)) = Inr mx \<and>
     frames_to_time 20 22050 = frames_to_time c 22050 \<and>
     drop_gate (normalize_rms (replicate 21 1 @ replicate 20 (6 / 5)) mn mx) 22050 c \<and>
     is_local_max (np_diff (normalize_rms (replicate 21 1 @ replicate 20 (6 / 5)) mn mx)) c \<and>
     0.6 \<le> np_diff (normalize_rms (replicate 21 1 @ replicate 20 (6 / 5)) mn mx) ! c"
  using detect_drops_gate [OF drops_example, of "frames_to_time 20 22050" "frames_to_time 20 22050 + 5"]
  by simp

text \<open>
  C7: whether the specification's step test yields a drop depends on how
  the sample rate rounds: at 22050 Hz it yields the drop at frame 20, at
  77 Hz frame 20 reads back as 19 (\<open>int(10239.999999999998) // 512\<close>),
  fails the guard \<open>frame_idx < 20\<close>, and the same envelope yields no drop.
\<close>

theorem detect_drops_rate_dependent:
  "detect_drops 22050 (replicate 21 1 @ replicate 20 (6 / 5)) 0.6 2 6 =
     Inr [(frames_to_time 20 22050, frames_to_time 20 22050 + 5)] \<and>
   detect_drops 77 (replicate 21 1 @ replicate 20 (6 / 5)) 0.6 2 6 = Inr []"
  using detect_drops_step_up [of 1 "6 / 5" 21 20 22050] detect_drops_step_up [of 1 "6 / 5" 21 20 77]
  by (simp add: norm_eps_def frame_back_22050_20 frame_back_77_20)

text \<open>
  C21: the min-max normalisation maps every energy value into \<open>[0, 1)\<close>:
  the \<open>1e-10\<close> in the denominator keeps the maximum strictly below 1 and
  makes a constant envelope normalise to 0 instead of dividing by zero.
\<close>

theorem normalize_rms_range:
  assumes "np_min rms = Inr mn" "np_max rms = Inr mx" "v \<in> set (normalize_rms rms mn mx)"
  shows "0 \<le> v \<and> v < 1"
proof -
  obtain x where x: "x \<in> set rms" "v = (x - mn) / (mx - mn + norm_eps)"
    using assms(3) by (auto simp: normalize_rms_def)
  have "mn \<le> x" "x \<le> mx" using np_min_le [OF assms(1) x(1)] np_max_ge [OF assms(2) x(1)] by auto
  moreover have "0 < norm_eps" by (simp add: norm_eps_def)
  ultimately have "0 \<le> x - mn" "x - mn < mx - mn + norm_eps" by linarith+
  then show ?thesis unfolding x(2) by (simp add: divide_less_eq_1_pos)
qed

theorem normalize_rms_range_witness:
  "0 \<le> 1 / (1 + norm_eps) \<and> 1 / (1 + norm_eps) < (1::real)"
proof -
  have "np_min [1, 2] = Inr 1" "np_max [1, 2] = Inr 2" by simp_all
  moreover have "1 / (1 + norm_eps) \<in> set (normalize_rms [1, 2] 1 2)"
    by (simp add: normalize_rms_def)
  ultimately show ?thesis by (rule normalize_rms_range)
qed

text \<open>
  C26: consecutive drops start at least 512 seconds apart, whatever the
  sample rate: \<open>find_peaks(rms_diff, distance=sr)\<close> counts \<open>sr\<close> frames of
  512 samples each, not \<open>sr\<close> samples.
\<close>

theorem detect_drops_gap_512:
  assumes "detect_drops sr rms min_strength min_d max_d = Inr ds"
  shows "sorted_wrt (\<lambda>a b. fst a + 512 \<le> fst b) ds"
proof -
  obtain mn mx cs where fp: "find_peaks (np_diff (normalize_rms rms mn mx)) min_strength sr = Inr cs"
    and sr: "1 \<le> sr"
    and ds: "ds = take 2 (map (\<lambda>c. (frames_to_time c sr, frames_to_time c sr + clamp_dur min_d max_d 5))
           (filter (drop_gate (normalize_rms rms mn mx) sr) cs))"
    using assms by (rule detect_drops_InrE)
  have "sorted_wrt (\<lambda>a b. a + nat sr \<le> b) cs" using find_peaks_Inr_facts [OF fp] by blast
  then have "sorted_wrt (\<lambda>a b. a + nat sr \<le> b) (filter (drop_gate (normalize_rms rms mn mx) sr) cs)"
    by (rule sorted_wrt_filter)
  then have "sorted_wrt (\<lambda>a b. frames_to_time a sr + frames_to_time (nat sr) sr \<le> frames_to_time b sr)
      (filter (drop_gate (normalize_rms rms mn mx) sr) cs)"
    using sr by (intro sorted_wrt_frames_to_time) simp_all
  then have "sorted_wrt (\<lambda>a b. frames_to_time a sr + 512 \<le> frames_to_time b sr)
      (filter (drop_gate (normalize_rms rms mn mx) sr) cs)"
    using sr by (simp add: frames_to_time_sr)
  then show ?thesis unfolding ds by (simp add: sorted_wrt_map sorted_wrt_take)
qed

theorem detect_drops_gap_512_witness:
  "sorted_wrt (\<lambda>a b. fst a + 512 \<le> fst b) [(frames_to_time 20 22050, frames_to_time 20 22050 + 5)]"
  using detect_drops_gap_512 [OF drops_example] .

end
