(* ===== verification/Transitions.thy ===== *)
theory Transitions
  imports Librosa Peaks
begin

text \<open>
  The transition detector, \<open>detect_transitions(chroma, sr, threshold=0.15,
  min_duration=1, max_duration=3)\<close> of \<open>audio_analyzer.py\<close>.  The chroma
  matrix of NumPy shape \<open>(n_chroma, T)\<close> is given by its columns: a list of
  \<open>T\<close> frames, each the vector of pitch-class energies of one frame, so that
  \<open>chroma[k][t]\<close> is \<open>frames ! t ! k\<close>.  The unused \<open>avg_chroma\<close> of the
  source is not modelled (it cannot raise and nothing reads it).  The lemmas
  show that at most five 2-second transitions are returned, at least 20
  frames apart, that the detector raises exactly when there are fewer than
  two frames, and that scaling the chroma by a positive factor does not
  change the transitions (the normalisation by the maximum).
\<close>

section \<open>Definitions\<close>

text \<open>
  \<open>np.sum(np.abs(np.diff(chroma, axis=1)), axis=0)\<close>: the L1 distance of
  each frame to the next one.
\<close>

definition frame_distance :: "real list \<Rightarrow> real list \<Rightarrow> real" where
  "frame_distance f g = sum_list (map2 (\<lambda>a b. \<bar>b - a\<bar>) f g)"

definition chroma_diff :: "real list list \<Rightarrow> real list" where
  "chroma_diff frames = map2 frame_distance frames (tl frames)"

text \<open>\<open>if np.max(chroma_diff) > 0: chroma_diff = chroma_diff / np.max(chroma_diff)\<close>.\<close>

definition normalize_diff :: "real list \<Rightarrow> real \<Rightarrow> real list" where
  "normalize_diff cd m = (if 0 < m then map (\<lambda>v. v / m) cd else cd)"

text \<open>
  The loop \<open>for t_time in transition_times\<close> appends
  \<open>[t, t + min(max_duration, max(min_duration, 2))]\<close> for every peak.
\<close>

fun transitions_loop :: "real \<Rightarrow> real \<Rightarrow> real list \<Rightarrow> interval list" where
  "transitions_loop min_d max_d [] = []"
| "transitions_loop min_d max_d (t # ts) =
     (t, t + clamp_dur min_d max_d 2) # transitions_loop min_d max_d ts"

definition detect_transitions ::
  "real list list \<Rightarrow> int \<Rightarrow> real \<Rightarrow> real \<Rightarrow> real \<Rightarrow> interval list py" where
  "detect_transitions chroma sr threshold min_d max_d =
     (let cd = chroma_diff chroma in
      sbind (np_max cd) (\<lambda>m.
        sbind (find_peaks (normalize_diff cd m) threshold 20) (\<lambda>transition_frames.
          let transition_times = map (\<lambda>f. frames_to_time f sr) transition_frames
          in Inr (cap 5 (transitions_loop min_d max_d transition_times)))))"

section \<open>Lemmas\<close>

lemma transitions_loop_map: "transitions_loop min_d max_d ts = map (\<lambda>t. (t, t + clamp_dur min_d max_d 2)) ts"
  by (induction ts) auto

lemma length_chroma_diff [simp]: "length (chroma_diff frames) = length frames - 1"
  by (simp add: chroma_diff_def)

lemma detect_transitions_eq:
  "detect_transitions chroma sr threshold min_d max_d =
     sbind (np_max (chroma_diff chroma)) (\<lambda>m.
       sbind (find_peaks (normalize_diff (chroma_diff chroma) m) threshold 20) (\<lambda>fs.
         Inr (take 5 (map (\<lambda>f. (frames_to_time f sr, frames_to_time f sr + clamp_dur min_d max_d 2)) fs))))"
  by (simp add: detect_transitions_def transitions_loop_map cap_eq_take comp_def Let_def)

text \<open>
  C11: the transition detector raises (the \<open>ValueError\<close> of \<open>np.max\<close>
  on an empty difference array) exactly when the chroma has fewer than two
  frames.
\<close>

theorem detect_transitions_error_iff:
  "(\<exists>e. detect_transitions chroma sr threshold min_d max_d = Inl e) \<longleftrightarrow> length chroma < 2"
proof (cases "chroma_diff chroma")
  case Nil
  then have "length chroma < 2" using length_chroma_diff [of chroma] by simp
  with Nil show ?thesis by (simp add: detect_transitions_eq)
next
  case (Cons v vs)
  then have "2 \<le> length chroma" using length_chroma_diff [of chroma] by simp
  moreover have "\<not> (\<exists>e. find_peaks xs threshold 20 = Inl e)" for xs
    by (simp add: find_peaks_Inl_iff)
  ultimately show ?thesis using Cons
    by (cases "find_peaks (normalize_diff (chroma_diff chroma) (fold max vs v)) threshold 20")
      (auto simp: detect_transitions_eq)
qed

lemma detect_transitions_InrE:
  assumes "detect_transitions chroma sr threshold min_d max_d = Inr ts"
  obtains m fs where "np_max (chroma_diff chroma) = Inr m"
    "find_peaks (normalize_diff (chroma_diff chroma) m) threshold 20 = Inr fs"
    "ts = take 5 (map (\<lambda>f. (frames_to_time f sr, frames_to_time f sr + clamp_dur min_d max_d 2)) fs)"
  using assms that by (auto simp: detect_transitions_eq sbind_eq_Inr_iff)

lemma length_normalize_diff [simp]: "length (normalize_diff cd m) = length cd"
  by (simp add: normalize_diff_def)

lemma detect_transitions_memE:
  assumes "detect_transitions chroma sr threshold min_d max_d = Inr ts" "(s, e) \<in> set ts"
  obtains m f where "np_max (chroma_diff chroma) = Inr m"
    "is_local_max (normalize_diff (chroma_diff chroma) m) f"
    "threshold \<le> normalize_diff (chroma_diff chroma) m ! f"
    "s = frames_to_time f sr" "e = s + clamp_dur min_d max_d 2"
proof -
  obtain m fs where m: "np_max (chroma_diff chroma) = Inr m"
    and fp: "find_peaks (normalize_diff (chroma_diff chroma) m) threshold 20 = Inr fs"
    and ts: "ts = take 5 (map (\<lambda>f. (frames_to_time f sr, frames_to_time f sr + clamp_dur min_d max_d 2)) fs)"
    using assms(1) by (rule detect_transitions_InrE)
  from assms(2) ts obtain f where "f \<in> set fs" "s = frames_to_time f sr" "e = s + clamp_dur min_d max_d 2"
    by (auto dest!: in_set_takeD)
  with find_peaks_Inr_facts [OF fp] m that show ?thesis by blast
qed

lemma detect_transitions_wf:
  assumes "detect_transitions chroma sr threshold 1 3 = Inr ts" "0 < sr"
  shows "length ts \<le> 5 \<and> (\<forall>(s, e) \<in> set ts. 0 \<le> s \<and> e = s + 2) \<and>
    sorted_wrt (\<lambda>a b. fst a + frames_to_time 20 sr \<le> fst b) ts"
proof -
  obtain m fs where fp: "find_peaks (normalize_diff (chroma_diff chroma) m) threshold 20 = Inr fs"
    and ts: "ts = take 5 (map (\<lambda>f. (frames_to_time f sr, frames_to_time f sr + clamp_dur 1 3 2)) fs)"
    using assms(1) by (rule detect_transitions_InrE)
  have "sorted_wrt (\<lambda>a b. a + 20 \<le> b) fs" using find_peaks_Inr_facts [OF fp] by simp
  then have "sorted_wrt (\<lambda>a b. frames_to_time a sr + frames_to_time 20 sr \<le> frames_to_time b sr) fs"
    using assms(2) by (intro sorted_wrt_frames_to_time)
  then have "sorted_wrt (\<lambda>a b. fst a + frames_to_time 20 sr \<le> fst b) ts"
    unfolding ts by (simp add: sorted_wrt_map sorted_wrt_take)
  moreover have "\<forall>(s, e) \<in> set ts. 0 \<le> s \<and> e = s + 2"
    using assms(2) by (auto simp: ts clamp_dur_def frames_to_time_nonneg dest!: in_set_takeD)
  ultimately show ?thesis using ts by simp
qed

text \<open>
  C10: with the defaults \<open>min_duration = 1\<close>, \<open>max_duration = 3\<close> and a
  positive sample rate, at most five transitions are returned, each lasting
  exactly 2 seconds from a non-negative start, and consecutive starts are at
  least 20 frames apart.
\<close>

theorem detect_transitions_intervals:
  assumes "detect_transitions chroma sr threshold 1 3 = Inr ts" "0 < sr"
  shows "length ts \<le> 5 \<and> (\<forall>(s, e) \<in> set ts. 0 \<le> s \<and> e = s + 2) \<and>
    sorted_wrt (\<lambda>a b. fst a + frames_to_time 20 sr \<le> fst b) ts"
  using assms by (rule detect_transitions_wf)

lemma chroma_diff_Cons2: "chroma_diff (x # y # xs) = frame_distance x y # chroma_diff (y # xs)"
  by (simp add: chroma_diff_def)

lemma frame_distance_self [simp]: "frame_distance f f = 0"
  by (induction f) (simp_all add: frame_distance_def)

lemma chroma_diff_single [simp]: "chroma_diff [x] = []"
  by (simp add: chroma_diff_def)

lemma chroma_diff_replicate: "chroma_diff (f # replicate n f) = replicate n 0"
  by (induction n) (simp_all add: chroma_diff_Cons2)

lemma chroma_diff_step:
  assumes "1 \<le> j" "1 \<le> k"
  shows "chroma_diff (replicate j a @ replicate k b) =
    replicate (j - 1) 0 @ frame_distance a b # replicate (k - 1) 0"
  using assms(1)
proof (induction j rule: dec_induct)
  case base
  obtain k' where "k = Suc k'" using assms(2) by (cases k) auto
  then show ?case by (cases k') (simp_all add: chroma_diff_Cons2 chroma_diff_replicate)
next
  case (step j)
  then obtain j' where "j = Suc j'" by (cases j) auto
  then show ?case using step.IH by (simp add: chroma_diff_Cons2)
qed

lemma frame_distance_scale:
  "0 \<le> c \<Longrightarrow> frame_distance (map ((*) c) f) (map ((*) c) g) = c * frame_distance f g"
proof (induction f arbitrary: g)
  case (Cons a f)
  then show ?case
    by (cases g) (simp_all add: frame_distance_def abs_mult distrib_left flip: right_diff_distrib)
qed (simp add: frame_distance_def)

lemma chroma_diff_scale:
  "0 \<le> c \<Longrightarrow> chroma_diff (map (map ((*) c)) frames) = map ((*) c) (chroma_diff frames)"
proof (induction frames)
  case (Cons f fs)
  then show ?case
    by (cases fs) (simp_all add: chroma_diff_def frame_distance_scale)
qed (simp add: chroma_diff_def)

lemma fold_max_scale:
  "0 < c \<Longrightarrow> fold max (map ((*) c) xs) (c * x) = c * fold max xs (x::real)"
proof (induction xs arbitrary: x)
  case (Cons y xs)
  have "max (c * y) (c * x) = c * max y x"
    using Cons.prems by (simp add: max_def)
  with Cons show ?case by simp
qed simp

lemma np_max_scale:
  "0 < c \<Longrightarrow> np_max (map ((*) c) xs) = (case np_max xs of Inl e \<Rightarrow> Inl e | Inr m \<Rightarrow> Inr (c * m))"
  by (cases xs) (simp_all add: fold_max_scale)

lemma frame_distance_nonneg: "0 \<le> frame_distance f g"
  unfolding frame_distance_def by (rule sum_list_nonneg) auto

lemma chroma_diff_nonneg: "v \<in> set (chroma_diff frames) \<Longrightarrow> 0 \<le> v"
  by (auto simp: chroma_diff_def frame_distance_nonneg)

lemma normalize_diff_scale:
  assumes "0 < c" "\<forall>v \<in> set cd. 0 \<le> v \<and> v \<le> m"
  shows "normalize_diff (map ((*) c) cd) (c * m) = normalize_diff cd m"
proof (cases "0 < m")
  case False
  with assms(2) have "\<forall>v \<in> set cd. v = 0" by force
  then have "map ((*) c) cd = cd" by (induction cd) auto
  with False assms(1) show ?thesis by (simp add: normalize_diff_def zero_less_mult_iff)
qed (use assms(1) in \<open>simp add: normalize_diff_def\<close>)

text \<open>
  C12: the normalisation by the maximum makes the detector independent of
  the overall gain: multiplying every chroma value by a positive factor
  does not change the result, errors included.
\<close>

theorem detect_transitions_scale_invariant:
  assumes "0 < c"
  shows "detect_transitions (map (map ((*) c)) chroma) sr threshold min_d max_d =
         detect_transitions chroma sr threshold min_d max_d"
proof -
  have cd: "chroma_diff (map (map ((*) c)) chroma) = map ((*) c) (chroma_diff chroma)"
    using assms by (simp add: chroma_diff_scale)
  show ?thesis
  proof (cases "np_max (chroma_diff chroma)")
    case (Inl e)
    then show ?thesis using assms by (simp add: detect_transitions_eq cd np_max_scale)
  next
    case (Inr m)
    then have "\<forall>v \<in> set (chroma_diff chroma). 0 \<le> v \<and> v \<le> m"
      by (auto intro: chroma_diff_nonneg np_max_ge)
    with Inr show ?thesis
      using assms by (simp add: detect_transitions_eq cd np_max_scale normalize_diff_scale)
  qed
qed

section \<open>Evaluated examples and witnesses\<close>

text \<open>Four one-bin frames with a single change in the middle.\<close>

lemma transitions_example:
  "detect_transitions [[0], [0], [1], [1]] 22050 0.15 1 3 =
     Inr [(frames_to_time 1 22050, frames_to_time 1 22050 + 2)]"
proof -
  have cd: "chroma_diff [[0], [0], [1], [1]] = [0, 1, 0]"
    by (simp add: chroma_diff_def frame_distance_def)
  have "local_maxima (replicate 1 0 @ 1 # replicate 1 0) = [1]"
    by (rule local_maxima_spike) simp_all
  then have "find_peaks [0, 1, 0] 0.15 20 = Inr [1]"
    by (intro find_peaks_single) simp_all
  then show ?thesis
    by (simp add: detect_transitions_eq cd normalize_diff_def clamp_dur_def)
qed

theorem detect_transitions_intervals_witness:
  "length [(frames_to_time 1 22050, frames_to_time 1 22050 + 2)] \<le> 5 \<and>
   0 \<le> frames_to_time 1 22050 \<and>
   frames_to_time 1 22050 + 2 = frames_to_time 1 22050 + 2"
  using detect_transitions_intervals [OF transitions_example] by simp

theorem detect_transitions_scale_invariant_witness:
  "detect_transitions (map (map ((*) 2)) [[0], [0], [1], [1]]) 22050 0.15 1 3 =
     Inr [(frames_to_time 1 22050, frames_to_time 1 22050 + 2)]"
  using detect_transitions_scale_invariant [of 2 "[[0], [0], [1], [1]]" 22050 "0.15" 1 3]
    transitions_example by simp

text \<open>
  C25: a single change of chroma, from frame \<open>a\<close> (repeated \<open>j \<ge> 2\<close>
  times) to frame \<open>b\<close> (repeated \<open>k \<ge> 2\<close> times), gives exactly one
  transition, reported at frame \<open>j - 1\<close>: the last frame before the change,
  because \<open>np.diff\<close> stores the distance between frames \<open>i\<close> and \<open>i + 1\<close>
  at index \<open>i\<close>.
\<close>

theorem detect_transitions_step:
  assumes "2 \<le> j" "2 \<le> k" "0 < frame_distance a b" "threshold \<le> 1"
  shows "detect_transitions (replicate j a @ replicate k b) sr threshold 1 3 =
    Inr [(frames_to_time (j - 1) sr, frames_to_time (j - 1) sr + 2)]"
proof -
  let ?d = "frame_distance a b"
  have cd: "chroma_diff (replicate j a @ replicate k b) = replicate (j - 1) 0 @ ?d # replicate (k - 1) 0"
    using assms(1,2) by (intro chroma_diff_step) simp_all
  have mx: "np_max (replicate (j - 1) 0 @ ?d # replicate (k - 1) 0) = Inr ?d"
  proof -
    obtain j' where j': "j - 1 = Suc j'" using assms(1) by (cases "j - 1") auto
    have l: "replicate (j - 1) 0 @ ?d # replicate (k - 1) 0 = 0 # (replicate j' 0 @ ?d # replicate (k - 1) 0)"
      using j' by simp
    have "Max (set (0 # (replicate j' 0 @ ?d # replicate (k - 1) 0))) = ?d"
      using assms(3) by (intro Max_eqI) auto
    then show ?thesis unfolding l by (simp only: np_max.simps fold_max_eq_Max)
  qed
  have norm: "normalize_diff (replicate (j - 1) 0 @ ?d # replicate (k - 1) 0) ?d =
      replicate (j - 1) 0 @ 1 # replicate (k - 1) 0"
    using assms(3) by (simp add: normalize_diff_def)
  have "local_maxima (replicate (j - 1) 0 @ 1 # replicate (k - 1) 0) = [j - 1]"
    using assms(1,2) by (intro local_maxima_spike) simp_all
  then have fp: "find_peaks (replicate (j - 1) 0 @ 1 # replicate (k - 1) 0) threshold 20 = Inr [j - 1]"
    using assms(1,4) by (intro find_peaks_single) (simp_all add: nth_append)
  show ?thesis
    unfolding detect_transitions_eq cd mx sbind_Inr norm fp by (simp add: clamp_dur_def)
qed

theorem detect_transitions_step_witness:
  "detect_transitions (replicate 2 [0] @ replicate 2 [1]) 22050 0.15 1 3 =
     Inr [(frames_to_time 1 22050, frames_to_time 1 22050 + 2)]"
  using detect_transitions_step [of 2 2 "[0]" "[1]" "0.15" 22050]
  by (simp add: frame_distance_def)

end
