(* ===== verification/Analyzer.thy ===== *)
theory Analyzer
  imports Json Hooks Drops Transitions
begin

text \<open>
  The orchestrator \<open>analyze_track\<close> (audio_analyzer.py, lines 8--106) and the
  script entry point (lines 225--230).  The feature library is an
  interface: a record holding, for the file being analysed, the outcome of
  each library call in the order the code makes them, each one either a
  value or the exception it raises.  Calls whose values flow only into other
  library calls (\<open>hpss\<close>, \<open>stft\<close>, \<open>melspectrogram\<close>, \<open>onset_detect\<close>) keep
  only whether they fail.  The \<open>try\<close> body is \<open>run_analysis\<close>, an
  exception-valued sequence of the stages; \<open>analyze_track\<close> adds the
  existence check, the \<open>except\<close> branch, the lines the code prints to
  standard output and the \<open>json.dumps\<close> of the result.
\<close>

section \<open>Definitions\<close>

text \<open>
  What the feature library returns for one file.  \<open>p_load\<close> gives
  \<open>len(y)\<close> and \<open>sr\<close>; \<open>p_beat_track\<close> the tempo of the first
  \<open>beat_track\<close> call; \<open>p_chroma_stft\<close> the chroma matrix frame by frame;
  \<open>p_spectral_contrast\<close> the contrast matrix flattened (only its mean is
  used); \<open>p_novelty\<close> the median onset strength computed inside
  \<open>detect_hooks\<close>; \<open>p_beats\<close> the beat frames of the second \<open>beat_track\<close>.
\<close>

record provider =
  p_load :: "(nat \<times> int) py"
  p_get_duration :: "real py"
  p_beat_track :: "real py"
  p_hpss :: "unit py"
  p_stft :: "unit py"
  p_melspectrogram :: "unit py"
  p_chroma_stft :: "real list list py"
  p_onset_strength :: "unit py"
  p_onset_detect :: "unit py"
  p_rms :: "real list py"
  p_spectral_contrast :: "real list py"
  p_novelty :: "real list py"
  p_beats :: "nat list py"

text \<open>The dictionary \<open>analysis_result\<close> built on success.\<close>

record analysis =
  a_tempo :: real
  a_energy :: real
  a_duration :: real
  a_contrast :: real
  a_hooks :: "interval list"
  a_drops :: "interval list"
  a_transitions :: "interval list"
  a_beat_count :: nat

text \<open>The \<open>try\<close> body: every stage in source order, the first exception wins.\<close>

definition run_analysis :: "provider \<Rightarrow> analysis py" where
  "run_analysis p =
     sbind (p_load p) (\<lambda>(ylen, sr).
     sbind (p_get_duration p) (\<lambda>duration.
     sbind (p_beat_track p) (\<lambda>tempo.
     sbind (p_hpss p) (\<lambda>_.
     sbind (p_stft p) (\<lambda>_.
     sbind (p_melspectrogram p) (\<lambda>_.
     sbind (p_chroma_stft p) (\<lambda>chroma.
     sbind (p_onset_strength p) (\<lambda>_.
     sbind (p_onset_detect p) (\<lambda>_.
     sbind (p_rms p) (\<lambda>rms. let energy = np_mean rms in
     sbind (p_spectral_contrast p) (\<lambda>contrast. let mean_contrast = np_mean contrast in
     sbind (sbind (p_novelty p) (\<lambda>novelty. detect_hooks ylen sr novelty rms 3 8)) (\<lambda>hooks.
     sbind (detect_drops sr rms 0.6 2 6) (\<lambda>drops.
     sbind (detect_transitions chroma sr 0.15 1 3) (\<lambda>transitions.
     sbind (p_beats p) (\<lambda>beats.
     Inr \<lparr>a_tempo = tempo, a_energy = energy, a_duration = duration,
          a_contrast = mean_contrast, a_hooks = hooks, a_drops = drops,
          a_transitions = transitions, a_beat_count = length beats\<rparr>)))))))))))))))"

definition interval_json :: "interval \<Rightarrow> json" where
  "interval_json iv = JArr [JFloat (fst iv), JFloat (snd iv)]"

definition analysis_json :: "analysis \<Rightarrow> json" where
  "analysis_json a = JObj
     [(''tempo'', JFloat (a_tempo a)),
      (''energy'', JFloat (a_energy a)),
      (''duration'', JFloat (a_duration a)),
      (''contrast'', JFloat (a_contrast a)),
      (''segments'', JObj
         [(''hooks'', JArr (map interval_json (a_hooks a))),
          (''drops'', JArr (map interval_json (a_drops a))),
          (''transitions'', JArr (map interval_json (a_transitions a)))]),
      (''beat_count'', JInt (int (a_beat_count a)))]"

text \<open>The document returned when the file does not exist (lines 17--26).\<close>

definition not_found_doc :: json where
  "not_found_doc = JObj
     [(''error'', JStr ''File not found''),
      (''tempo'', JInt 120),
      (''energy'', JFloat 0.5),
      (''segments'', JObj
         [(''hooks'', JArr [JArr [JInt 15, JInt 25], JArr [JInt 45, JInt 55]]),
          (''drops'', JArr [JArr [JInt 30, JInt 35]]),
          (''transitions'', JArr [JArr [JInt 25, JInt 30], JArr [JInt 55, JInt 60]])])]"

text \<open>The document returned from the \<open>except\<close> branch (lines 97--106).\<close>

definition error_doc :: "string \<Rightarrow> json" where
  "error_doc msg = JObj
     [(''error'', JStr msg),
      (''tempo'', JInt 120),
      (''energy'', JFloat 0.5),
      (''segments'', JObj
         [(''hooks'', JArr [JArr [JInt 15, JInt 25], JArr [JInt 45, JInt 55]]),
          (''drops'', JArr [JArr [JInt 30, JInt 35]]),
          (''transitions'', JArr [JArr [JInt 25, JInt 30], JArr [JInt 55, JInt 60]])])]"

text \<open>
  \<open>analyze_track\<close>: the lines printed to standard output, and the returned
  string (\<open>None\<close> where the printer model does not cover a float of the
  document).  \<open>exists\<close> is \<open>os.path.exists\<close>.
\<close>

definition analyze_track ::
  "(string \<Rightarrow> bool) \<Rightarrow> provider \<Rightarrow> string \<Rightarrow> string list \<times> string option" where
  "analyze_track exists p file_path =
     (let out = [''Analyzing file: '' @ file_path] in
      if \<not> exists file_path
      then (out @ [''Error: File not found - '' @ file_path], dumps not_found_doc)
      else (case run_analysis p of
              Inr a \<Rightarrow> (out, dumps (analysis_json a))
            | Inl e \<Rightarrow> (out @ [''Error analyzing audio: '' @ exc_str e],
                        dumps (error_doc (exc_str e)))))"

text \<open>The script: all lines it prints, given \<open>sys.argv\<close>.\<close>

definition main :: "string list \<Rightarrow> (string \<Rightarrow> bool) \<Rightarrow> (string \<Rightarrow> provider) \<Rightarrow> string list option" where
  "main argv exists prov =
     (if 1 < length argv
      then (case analyze_track exists (prov (argv ! 1)) (argv ! 1) of
              (out, result) \<Rightarrow> map_option (\<lambda>s. out @ [s]) result)
      else map_option (\<lambda>s. [s]) (dumps (JObj [(''error'', JStr ''No input file provided'')])))"

text \<open>
  The text of both fallback documents, around the printed error message.
\<close>

abbreviation fallback_text :: "string \<Rightarrow> string" where
  "fallback_text q \<equiv> ''{'' @ jq ''error'' @ '': '' @ q @ '', '' @
     jq ''tempo'' @ '': 120, '' @ jq ''energy'' @ '': 0.5, '' @ jq ''segments'' @ '': {'' @
     jq ''hooks'' @ '': [[15, 25], [45, 55]], '' @ jq ''drops'' @ '': [[30, 35]], '' @
     jq ''transitions'' @ '': [[25, 30], [55, 60]]}}''"

text \<open>
  The result discipline of the specification (section 7): an analysis ends
  in one of two errors or in a result, and the output is rendered from it
  uniformly, both errors as the same fallback document.
\<close>

datatype analysis_error = InputNotFound | AnalysisFailure string

definition analysis_outcome :: "(string \<Rightarrow> bool) \<Rightarrow> provider \<Rightarrow> string \<Rightarrow> analysis_error + analysis" where
  "analysis_outcome exists p path =
     (if \<not> exists path then Inl InputNotFound
      else (case run_analysis p of Inl e \<Rightarrow> Inl (AnalysisFailure (exc_str e)) | Inr a \<Rightarrow> Inr a))"

fun error_text :: "analysis_error \<Rightarrow> string" where
  "error_text InputNotFound = ''File not found''"
| "error_text (AnalysisFailure m) = m"

fun error_log :: "string \<Rightarrow> analysis_error \<Rightarrow> string" where
  "error_log path InputNotFound = ''Error: File not found - '' @ path"
| "error_log path (AnalysisFailure m) = ''Error analyzing audio: '' @ m"

definition render :: "string \<Rightarrow> analysis_error + analysis \<Rightarrow> string list \<times> string option" where
  "render path r =
     (case r of
        Inl err \<Rightarrow> ([''Analyzing file: '' @ path, error_log path err], dumps (error_doc (error_text err)))
      | Inr a \<Rightarrow> ([''Analyzing file: '' @ path], dumps (analysis_json a)))"

text \<open>
  The schema the two result shapes share (specification section 3): numeric
  \<open>tempo\<close> and \<open>energy\<close>, and \<open>segments\<close> with the three lists of
  two-number intervals.
\<close>

fun is_number :: "json \<Rightarrow> bool" where
  "is_number (JInt _) = True"
| "is_number (JFloat _) = True"
| "is_number _ = False"

fun interval_ok :: "json \<Rightarrow> bool" where
  "interval_ok (JArr [a, b]) = (is_number a \<and> is_number b)"
| "interval_ok _ = False"

fun doc_keys :: "json \<Rightarrow> string list" where
  "doc_keys (JObj kvs) = map fst kvs"
| "doc_keys _ = []"

fun json_field :: "string \<Rightarrow> json \<Rightarrow> json option" where
  "json_field k (JObj kvs) = map_of kvs k"
| "json_field k _ = None"

definition segment_set_ok :: "json \<Rightarrow> bool" where
  "segment_set_ok j \<longleftrightarrow>
     doc_keys j = [''hooks'', ''drops'', ''transitions''] \<and>
     list_all (\<lambda>k. case json_field k j of Some (JArr ivs) \<Rightarrow> list_all interval_ok ivs | _ \<Rightarrow> False)
       [''hooks'', ''drops'', ''transitions'']"

definition shared_schema :: "json \<Rightarrow> bool" where
  "shared_schema j \<longleftrightarrow>
     (case json_field ''tempo'' j of Some v \<Rightarrow> is_number v | None \<Rightarrow> False) \<and>
     (case json_field ''energy'' j of Some v \<Rightarrow> is_number v | None \<Rightarrow> False) \<and>
     (case json_field ''segments'' j of Some s \<Rightarrow> segment_set_ok s | None \<Rightarrow> False)"

text \<open>
  A complete input: a one-second track at 22050 Hz with no novelty peak, an
  energy step after 21 frames, and a chroma change at frame 1.
\<close>

definition example_provider :: provider where
  "example_provider =
     \<lparr>p_load = Inr (22050, 22050), p_get_duration = Inr 1, p_beat_track = Inr 120,
      p_hpss = Inr (), p_stft = Inr (), p_melspectrogram = Inr (),
      p_chroma_stft = Inr [[0], [0], [1], [1]], p_onset_strength = Inr (),
      p_onset_detect = Inr (), p_rms = Inr (replicate 21 1 @ replicate 20 (6 / 5)),
      p_spectral_contrast = Inr [1], p_novelty = Inr [], p_beats = Inr [0, 43]\<rparr>"

section \<open>Lemmas\<close>

lemma run_analysis_InrE:
  assumes "run_analysis p = Inr a"
  obtains ylen sr duration tempo chroma rms contrast novelty beats where
    "p_load p = Inr (ylen, sr)" "p_get_duration p = Inr duration" "p_beat_track p = Inr tempo"
    "p_hpss p = Inr ()" "p_stft p = Inr ()" "p_melspectrogram p = Inr ()"
    "p_chroma_stft p = Inr chroma" "p_onset_strength p = Inr ()" "p_onset_detect p = Inr ()"
    "p_rms p = Inr rms" "p_spectral_contrast p = Inr contrast" "p_novelty p = Inr novelty"
    "detect_hooks ylen sr novelty rms 3 8 = Inr (a_hooks a)"
    "detect_drops sr rms 0.6 2 6 = Inr (a_drops a)"
    "detect_transitions chroma sr 0.15 1 3 = Inr (a_transitions a)"
    "p_beats p = Inr beats"
    "a = \<lparr>a_tempo = tempo, a_energy = np_mean rms, a_duration = duration,
          a_contrast = np_mean contrast, a_hooks = a_hooks a, a_drops = a_drops a,
          a_transitions = a_transitions a, a_beat_count = length beats\<rparr>"
  using assms that
  by (auto simp: run_analysis_def sbind_eq_Inr_iff Let_def split: prod.splits)

lemma hooks_example_empty: "detect_hooks 22050 22050 [] (replicate 21 1 @ replicate 20 (6 / 5)) 3 8 = Inr []"
proof -
  have "find_peaks [] (np_mean [] * 1.5) (22050 div 2) = Inr []"
    by (rule find_peaks_no_local_max) (simp_all add: is_local_max_def)
  then show ?thesis by (simp add: detect_hooks_eq track_length_def)
qed

lemma run_analysis_example:
  "run_analysis example_provider =
     Inr \<lparr>a_tempo = 120, a_energy = np_mean (replicate 21 1 @ replicate 20 (6 / 5)), a_duration = 1,
          a_contrast = 1, a_hooks = [], a_drops = [(frames_to_time 20 22050, frames_to_time 20 22050 + 5)],
          a_transitions = [(frames_to_time 1 22050, frames_to_time 1 22050 + 2)], a_beat_count = 2\<rparr>"
  unfolding run_analysis_def example_provider_def
  by (simp only: provider.simps sbind_Inr hooks_example_empty drops_example transitions_example
      Let_def prod.case) (simp add: np_mean_def)

lemma dumps_error_doc: "dumps (error_doc msg) = map_option fallback_text (str_json msg)"
proof -
  have tail: "join_opt (map (\<lambda>(k, v). concat_opt [str_json k, Some '': '', dumps v])
     [(''tempo'', JInt 120),
      (''energy'', JFloat 0.5),
      (''segments'', JObj
         [(''hooks'', JArr [JArr [JInt 15, JInt 25], JArr [JInt 45, JInt 55]]),
          (''drops'', JArr [JArr [JInt 30, JInt 35]]),
          (''transitions'', JArr [JArr [JInt 25, JInt 30], JArr [JInt 55, JInt 60]])])])
     = Some (jq ''tempo'' @ '': 120, '' @ jq ''energy'' @ '': 0.5, '' @ jq ''segments'' @ '': {'' @
     jq ''hooks'' @ '': [[15, 25], [45, 55]], '' @ jq ''drops'' @ '': [[30, 35]], '' @
     jq ''transitions'' @ '': [[25, 30], [55, 60]]}'')"
    by code_simp
  have err: "str_json ''error'' = Some (jq ''error'')"
    by code_simp
  show ?thesis
    unfolding error_doc_def dumps.simps(7)
    apply (subst list.map(2))
    apply (subst join_opt_Cons2, simp)
    apply (simp only: tail)
    apply (cases "str_json msg")
     apply (simp_all add: err)
    done
qed

lemma not_found_doc_error_doc: "not_found_doc = error_doc ''File not found''"
  by (simp add: error_doc_def not_found_doc_def)

lemma plain_ascii_file_not_found: "plain_ascii ''File not found''"
  by code_simp

lemma dumps_no_input:
  "dumps (JObj [(''error'', JStr ''No input file provided'')]) =
     Some (''{'' @ jq ''error'' @ '': '' @ jq ''No input file provided'' @ ''}'')"
  by code_simp

lemma interval_json_ok: "interval_ok (interval_json iv)"
  by (simp add: interval_json_def)

lemma error_doc_schema: "shared_schema (error_doc msg)"
  by (simp add: shared_schema_def error_doc_def segment_set_ok_def)

lemma analysis_json_schema: "shared_schema (analysis_json a)"
  by (simp add: shared_schema_def analysis_json_def segment_set_ok_def list_all_iff interval_json_ok)

lemma analyze_track_doc:
  assumes "analyze_track exists p path = (out, r)"
  shows "(\<exists>msg. r = dumps (error_doc msg)) \<or> (\<exists>a. r = dumps (analysis_json a))"
proof (cases "exists path")
  case False
  then show ?thesis using assms by (auto simp: analyze_track_def not_found_doc_error_doc)
next
  case True
  then show ?thesis using assms by (cases "run_analysis p") (auto simp: analyze_track_def)
qed

lemma doc_keys_error_doc: "doc_keys (error_doc msg) = [''error'', ''tempo'', ''energy'', ''segments'']"
  by (simp add: error_doc_def)

lemma doc_keys_analysis_json:
  "doc_keys (analysis_json a) = [''tempo'', ''energy'', ''duration'', ''contrast'', ''segments'', ''beat_count'']"
  by (simp add: analysis_json_def)

section \<open>Properties\<close>

text \<open>
  C13: when the file does not exist, \<open>analyze_track\<close> prints two log lines
  and returns the fixed fallback document with error \<open>"File not found"\<close>,
  printed with \<open>json.dumps\<close>'s default separators.
\<close>

theorem analyze_track_not_found:
  assumes "\<not> exists path"
  shows "analyze_track exists p path =
     ([''Analyzing file: '' @ path, ''Error: File not found - '' @ path],
      Some (fallback_text (jq ''File not found'')))"
  using assms
  by (simp add: analyze_track_def not_found_doc_error_doc dumps_error_doc
      str_json_plain [OF plain_ascii_file_not_found])

theorem analyze_track_not_found_witness:
  "analyze_track (\<lambda>_. False) example_provider ''/nonexistent/track.wav'' =
     ([''Analyzing file: /nonexistent/track.wav'', ''Error: File not found - /nonexistent/track.wav''],
      Some (fallback_text (jq ''File not found'')))"
  using analyze_track_not_found [of "\<lambda>_. False" "''/nonexistent/track.wav''" example_provider]
  by simp



text \<open>
  C15: there is no partial result.  A successful analysis ran every library
  call successfully and its three segment lists are exactly what the three
  detectors return on the extracted features, with their default
  parameters; the energy is the mean of the RMS envelope.
\<close>

theorem run_analysis_all_or_nothing:
  assumes "run_analysis p = Inr a"
  shows "\<exists>ylen sr chroma rms novelty.
    p_load p = Inr (ylen, sr) \<and> p_chroma_stft p = Inr chroma \<and> p_rms p = Inr rms \<and>
    p_novelty p = Inr novelty \<and> p_hpss p = Inr () \<and> p_stft p = Inr () \<and>
    p_melspectrogram p = Inr () \<and> p_onset_strength p = Inr () \<and> p_onset_detect p = Inr () \<and>
    detect_hooks ylen sr novelty rms 3 8 = Inr (a_hooks a) \<and>
    detect_drops sr rms 0.6 2 6 = Inr (a_drops a) \<and>
    detect_transitions chroma sr 0.15 1 3 = Inr (a_transitions a) \<and>
    a_energy a = np_mean rms"
  using assms by (elim run_analysis_InrE) (metis analysis.select_convs(2))

theorem run_analysis_all_or_nothing_witness:
  "detect_drops 22050 (replicate 21 1 @ replicate 20 (6 / 5)) 0.6 2 6 =
     Inr [(frames_to_time 20 22050, frames_to_time 20 22050 + 5)]"
  using run_analysis_all_or_nothing [OF run_analysis_example]
  by (simp add: example_provider_def)

text \<open>
  C16: an empty RMS envelope never gives a result: the analysis raises
  (in \<open>detect_drops\<close> at the latest, from \<open>np.min\<close> of an empty array), so
  the fallback document is returned.
\<close>

lemma run_analysis_empty_rms:
  "p_rms p = Inr [] \<Longrightarrow> \<exists>e. run_analysis p = Inl e"
  by (cases "run_analysis p") (auto elim: run_analysis_InrE simp: detect_drops_def)

theorem run_analysis_empty_rms_witness:
  "\<exists>e. run_analysis (example_provider\<lparr>p_rms := Inr []\<rparr>) = Inl e"
  using run_analysis_empty_rms [of "example_provider\<lparr>p_rms := Inr []\<rparr>"] by simp

text \<open>
  C17: without a command-line argument the script prints exactly the one
  line \<open>{"error": "No input file provided"}\<close>.
\<close>

theorem main_no_argument:
  assumes "length argv \<le> 1"
  shows "main argv exists prov = Some [''{'' @ jq ''error'' @ '': '' @ jq ''No input file provided'' @ ''}'']"
  using assms unfolding main_def dumps_no_input by simp

theorem main_no_argument_witness:
  "main [''audio_analyzer.py''] (\<lambda>_. True) (\<lambda>_. example_provider) =
     Some [''{'' @ jq ''error'' @ '': '' @ jq ''No input file provided'' @ ''}'']"
  using main_no_argument [of "[''audio_analyzer.py'']"] by simp

text \<open>
  C18: with an argument, whatever the script prints starts with the log line
  \<open>Analyzing file: <path>\<close> and has at least one more line: standard output
  is never a single JSON document.
\<close>

theorem main_stdout_log_first:
  assumes "1 < length argv" "main argv exists prov = Some out"
  shows "hd out = ''Analyzing file: '' @ argv ! 1 \<and> 2 \<le> length out"
  using assms
  by (auto simp: main_def analyze_track_def Let_def split: if_splits sum.splits)

theorem main_stdout_log_first_witness:
  "main [''audio_analyzer.py'', ''t.wav''] (\<lambda>_. False) (\<lambda>_. example_provider) =
     Some [''Analyzing file: t.wav'', ''Error: File not found - t.wav'', fallback_text (jq ''File not found'')] \<and>
   hd [''Analyzing file: t.wav'', ''Error: File not found - t.wav'', fallback_text (jq ''File not found'')] =
     ''Analyzing file: '' @ [''audio_analyzer.py'', ''t.wav''] ! 1"
proof -
  have m: "main [''audio_analyzer.py'', ''t.wav''] (\<lambda>_. False) (\<lambda>_. example_provider) =
     Some [''Analyzing file: t.wav'', ''Error: File not found - t.wav'', fallback_text (jq ''File not found'')]"
    by (simp add: main_def analyze_track_def not_found_doc_error_doc dumps_error_doc
        str_json_plain [OF plain_ascii_file_not_found])
  show ?thesis using m main_stdout_log_first [OF _ m] by simp
qed

text \<open>
  C20: \<open>analyze_track\<close> refines the specification's result discipline: its
  output is the uniform rendering of the outcome (missing input, failure
  with a message, or the analysis), so the missing-file document is the
  failure document with error \<open>"File not found"\<close>.
\<close>

theorem analyze_track_refines:
  "analyze_track exists p path = render path (analysis_outcome exists p path)"
  by (simp add: analyze_track_def analysis_outcome_def render_def not_found_doc_error_doc
      split: sum.split)

text \<open>
  C22: every document \<open>analyze_track\<close> returns has numeric \<open>tempo\<close> and
  \<open>energy\<close> and a \<open>segments\<close> object of three interval lists, and its keys
  are exactly those of the success shape or of the error shape.
\<close>

theorem analyze_track_schema:
  assumes "analyze_track exists p path = (out, r)"
  shows "\<exists>doc. r = dumps doc \<and> shared_schema doc \<and>
    (doc_keys doc = [''tempo'', ''energy'', ''duration'', ''contrast'', ''segments'', ''beat_count''] \<or>
     doc_keys doc = [''error'', ''tempo'', ''energy'', ''segments''])"
  using analyze_track_doc [OF assms]
  by (metis error_doc_schema analysis_json_schema doc_keys_error_doc doc_keys_analysis_json)

theorem analyze_track_schema_witness:
  "\<exists>doc. dumps (error_doc ''File not found'') = dumps doc \<and> shared_schema doc \<and>
    (doc_keys doc = [''tempo'', ''energy'', ''duration'', ''contrast'', ''segments'', ''beat_count''] \<or>
     doc_keys doc = [''error'', ''tempo'', ''energy'', ''segments''])"
  using analyze_track_schema [of "\<lambda>_. False" example_provider "''t.wav''"
      "[''Analyzing file: t.wav'', ''Error: File not found - t.wav'']" "dumps (error_doc ''File not found'')"]
  by (simp add: analyze_track_def not_found_doc_error_doc)

end
