(* ===== verification/JsonLoads.thy ===== *)
theory JsonLoads
  imports Json
begin

text \<open>
  \<open>json.loads\<close>, the reader of the program's output: a recursive-descent
  parser for the JSON text \<open>json.dumps\<close> writes, after Python's decoder
  (\<open>json.decoder\<close>, \<open>json.scanner\<close>).  Numbers without fraction read as
  ints, with a fraction as floats; leading zeros and control characters in
  strings are rejected, as Python rejects them.  Exponents, \<open>NaN\<close>,
  \<open>Infinity\<close> and non-ASCII text are outside the model (\<open>None\<close>).  The
  nesting is bounded by fuel; the round trip lemma shows the length of the
  text is enough.
\<close>

section \<open>Definitions\<close>

definition is_ws :: "char \<Rightarrow> bool" where
  "is_ws c \<longleftrightarrow> of_char c \<in> {32, 9, 10, 13 :: nat}"

definition skip_ws :: "string \<Rightarrow> string" where
  "skip_ws s = dropWhile is_ws s"

definition is_digit :: "char \<Rightarrow> bool" where
  "is_digit c \<longleftrightarrow> 48 \<le> (of_char c :: nat) \<and> of_char c \<le> (57 :: nat)"

definition digits_val :: "string \<Rightarrow> nat" where
  "digits_val ds = foldl (\<lambda>n c. 10 * n + (of_char c - 48)) 0 ds"

text \<open>What may follow a number: not a digit, a fraction or an exponent.\<close>

definition num_end :: "string \<Rightarrow> bool" where
  "num_end r \<longleftrightarrow>
     (case r of [] \<Rightarrow> True
      | c # _ \<Rightarrow> \<not> is_digit c \<and> c \<noteq> CHR ''.'' \<and> c \<noteq> CHR ''e'' \<and> c \<noteq> CHR ''E'')"

text \<open>The integral part: one digit, or several not starting with \<open>0\<close>.\<close>

definition int_digits_ok :: "string \<Rightarrow> bool" where
  "int_digits_ok ds \<longleftrightarrow> ds \<noteq> [] \<and> (hd ds = CHR ''0'' \<longrightarrow> length ds = 1)"

definition parse_number :: "string \<Rightarrow> (json \<times> string) option" where
  "parse_number s =
     (let neg = (s \<noteq> [] \<and> hd s = CHR ''-'');
          s1 = (if neg then tl s else s);
          ip = takeWhile is_digit s1; s2 = dropWhile is_digit s1;
          sgn = (if neg then -1 else 1)
      in if \<not> int_digits_ok ip then None
         else if s2 \<noteq> [] \<and> hd s2 = CHR ''.'' then
           (let fp = takeWhile is_digit (tl s2); s3 = dropWhile is_digit (tl s2)
            in if fp = [] \<or> \<not> num_end s3 then None
               else Some (JFloat (sgn * (real (digits_val ip) + real (digits_val fp) / 10 ^ length fp)), s3))
         else if num_end s2 then Some (JInt (sgn * int (digits_val ip)), s2)
         else None)"

definition hex_val :: "char \<Rightarrow> nat option" where
  "hex_val c =
     (let n = of_char c :: nat in
      if 48 \<le> n \<and> n \<le> 57 then Some (n - 48)
      else if 97 \<le> n \<and> n \<le> 102 then Some (n - 87)
      else if 65 \<le> n \<and> n \<le> 70 then Some (n - 55)
      else None)"

definition hex4 :: "char \<Rightarrow> char \<Rightarrow> char \<Rightarrow> char \<Rightarrow> nat option" where
  "hex4 a b c d =
     (case (hex_val a, hex_val b, hex_val c, hex_val d) of
        (Some w, Some x, Some y, Some z) \<Rightarrow> Some (((w * 16 + x) * 16 + y) * 16 + z)
      | _ \<Rightarrow> None)"

definition unescape :: "char \<Rightarrow> char option" where
  "unescape d =
     (if d = CHR 0x22 then Some (CHR 0x22)
      else if d = CHR 0x5C then Some (CHR 0x5C)
      else if d = CHR ''/'' then Some (CHR ''/'')
      else if d = CHR ''b'' then Some (char_of (8::nat))
      else if d = CHR ''f'' then Some (char_of (12::nat))
      else if d = CHR ''n'' then Some (char_of (10::nat))
      else if d = CHR ''r'' then Some (char_of (13::nat))
      else if d = CHR ''t'' then Some (char_of (9::nat))
      else None)"

text \<open>The characters of a string up to its closing quote.\<close>

fun parse_chars :: "string \<Rightarrow> (string \<times> string) option" where
  "parse_chars [] = None"
| "parse_chars (c # r) =
     (if c = CHR 0x22 then Some ([], r)
      else if c = CHR 0x5C then
        (case r of
           [] \<Rightarrow> None
         | d # r' \<Rightarrow>
             if d = CHR ''u'' then
               (case r' of
                  h1 # h2 # h3 # h4 # r'' \<Rightarrow>
                    (case hex4 h1 h2 h3 h4 of
                       Some n \<Rightarrow> if n < 128 then map_option (\<lambda>(s, t). (char_of n # s, t)) (parse_chars r'')
                                else None
                     | None \<Rightarrow> None)
                | _ \<Rightarrow> None)
             else (case unescape d of
                     Some e \<Rightarrow> map_option (\<lambda>(s, t). (e # s, t)) (parse_chars r')
                   | None \<Rightarrow> None))
      else if of_char c < (32::nat) \<or> 128 \<le> (of_char c :: nat) then None
      else map_option (\<lambda>(s, t). (c # s, t)) (parse_chars r))"

fun parse_value :: "nat \<Rightarrow> string \<Rightarrow> (json \<times> string) option"
and parse_elems :: "nat \<Rightarrow> string \<Rightarrow> (json list \<times> string) option"
and parse_members :: "nat \<Rightarrow> string \<Rightarrow> ((string \<times> json) list \<times> string) option" where
  "parse_value 0 s = None"
| "parse_value (Suc f) s =
     (case s of
        [] \<Rightarrow> None
      | c # r \<Rightarrow>
          if c = CHR ''['' then
            (case skip_ws r of
               [] \<Rightarrow> None
             | d # r' \<Rightarrow> if d = CHR '']'' then Some (JArr [], r')
                         else map_option (\<lambda>(xs, t). (JArr xs, t)) (parse_elems f (d # r')))
          else if c = CHR ''{'' then
            (case skip_ws r of
               [] \<Rightarrow> None
             | d # r' \<Rightarrow> if d = CHR ''}'' then Some (JObj [], r')
                         else map_option (\<lambda>(kvs, t). (JObj kvs, t)) (parse_members f (d # r')))
          else if c = CHR 0x22 then map_option (\<lambda>(x, t). (JStr x, t)) (parse_chars r)
          else if c = CHR ''n'' then (if take 3 r = ''ull'' then Some (JNull, drop 3 r) else None)
          else if c = CHR ''t'' then (if take 3 r = ''rue'' then Some (JBool True, drop 3 r) else None)
          else if c = CHR ''f'' then (if take 4 r = ''alse'' then Some (JBool False, drop 4 r) else None)
          else parse_number s)"
| "parse_elems 0 s = None"
| "parse_elems (Suc f) s =
     (case parse_value f s of
        None \<Rightarrow> None
      | Some (v, r) \<Rightarrow>
          (case skip_ws r of
             [] \<Rightarrow> None
           | c # r' \<Rightarrow>
               if c = CHR '','' then map_option (\<lambda>(vs, t). (v # vs, t)) (parse_elems f (skip_ws r'))
               else if c = CHR '']'' then Some ([v], r')
               else None))"
| "parse_members 0 s = None"
| "parse_members (Suc f) s =
     (case s of
        [] \<Rightarrow> None
      | c # r \<Rightarrow>
          if c \<noteq> CHR 0x22 then None
          else
            (case parse_chars r of
               None \<Rightarrow> None
             | Some (k, r1) \<Rightarrow>
                 (case skip_ws r1 of
                    [] \<Rightarrow> None
                  | d # r2 \<Rightarrow>
                      if d \<noteq> CHR '':'' then None
                      else
                        (case parse_value f (skip_ws r2) of
                           None \<Rightarrow> None
                         | Some (v, r3) \<Rightarrow>
                             (case skip_ws r3 of
                                [] \<Rightarrow> None
                              | e # r4 \<Rightarrow>
                                  if e = CHR '','' then
                                    map_option (\<lambda>(kvs, t). ((k, v) # kvs, t)) (parse_members f (skip_ws r4))
                                  else if e = CHR ''}'' then Some ([(k, v)], r4)
                                  else None)))))"

text \<open>The characters that can start a value in the scanner's dispatch.\<close>

definition value_start :: "char \<Rightarrow> bool" where
  "value_start c \<longleftrightarrow> c \<in> {CHR ''['', CHR ''{'', CHR 0x22, CHR ''n'', CHR ''t'', CHR ''f''} \<or> is_digit c \<or> c = CHR ''-''"

definition json_loads :: "string \<Rightarrow> json option" where
  "json_loads s =
     (case parse_value (length s) (skip_ws s) of
        Some (v, r) \<Rightarrow> if skip_ws r = [] then Some v else None
      | None \<Rightarrow> None)"

section \<open>Lemmas\<close>

declare nat_str.simps [simp del]

lemma of_char_digit [simp]: "d < 10 \<Longrightarrow> (of_char (char_of (48 + d) :: char) :: nat) = 48 + d"
  by (simp add: of_char_of)

lemma is_digit_char_of [simp]: "(d::nat) < 10 \<Longrightarrow> is_digit (char_of (48 + d))"
  by (simp add: is_digit_def)

lemma nat_str_ne [simp]: "nat_str n \<noteq> []"
  by (subst nat_str.simps) simp

lemma nat_str_digits: "c \<in> set (nat_str n) \<Longrightarrow> is_digit c"
proof (induction n rule: nat_str.induct)
  case (1 n)
  then show ?case by (subst (asm) nat_str.simps) (auto split: if_splits)
qed

lemma digits_val_append: "digits_val (xs @ ys) = digits_val xs * 10 ^ length ys + digits_val ys"
proof (induction ys rule: rev_induct)
  case Nil
  then show ?case by (simp add: digits_val_def)
next
  case (snoc y ys)
  then show ?case by (simp add: digits_val_def algebra_simps)
qed

lemma digits_val_nat_str [simp]: "digits_val (nat_str n) = n"
proof (induction n rule: nat_str.induct)
  case (1 n)
  show ?case
  proof (cases "n < 10")
    case True
    then show ?thesis by (subst nat_str.simps) (simp add: digits_val_def)
  next
    case False
    then have "digits_val (nat_str n) = digits_val (nat_str (n div 10)) * 10 + n mod 10"
      by (subst nat_str.simps) (simp add: digits_val_append digits_val_def)
    then show ?thesis using 1 False by simp
  qed
qed

lemma hd_nat_str_zero: "hd (nat_str n) = CHR ''0'' \<Longrightarrow> n = 0"
proof (induction n rule: nat_str.induct)
  case (1 n)
  show ?case
  proof (cases "n < 10")
    case True
    then have "char_of (48 + n) = (CHR ''0'' :: char)" using 1(2) by (subst (asm) nat_str.simps) simp
    then have "(of_char (char_of (48 + n) :: char) :: nat) = of_char (CHR ''0'')" by simp
    then show ?thesis using True by simp
  next
    case False
    then have "hd (nat_str (n div 10)) = CHR ''0''" using 1(2) by (subst (asm) nat_str.simps) simp
    then have "n div 10 = 0" using 1(1) False by blast
    then show ?thesis using False by simp
  qed
qed

lemma nat_str_zero: "nat_str 0 = ''0''"
  by code_simp

lemma int_digits_ok_nat_str: "int_digits_ok (nat_str n)"
  using hd_nat_str_zero [of n] by (auto simp: int_digits_ok_def nat_str_zero)

lemma takeWhile_digits:
  assumes "\<forall>c \<in> set ds. is_digit c" "r = [] \<or> \<not> is_digit (hd r)"
  shows "takeWhile is_digit (ds @ r) = ds" "dropWhile is_digit (ds @ r) = r"
  using assms by (cases r; simp add: takeWhile_append2 dropWhile_append2)+

lemma num_end_hd: "num_end r \<Longrightarrow> r = [] \<or> \<not> is_digit (hd r)"
  by (cases r) (simp_all add: num_end_def)

lemma num_end_not_dot: "num_end r \<Longrightarrow> \<not> (r \<noteq> [] \<and> hd r = CHR ''.'')"
  by (cases r) (simp_all add: num_end_def)

lemma digit_not_minus: "is_digit c \<Longrightarrow> c \<noteq> CHR ''-''"
  by (auto simp: is_digit_def)

lemma hd_nat_str_not_minus: "hd (nat_str n) \<noteq> CHR ''-''"
  using nat_str_digits hd_in_set nat_str_ne digit_not_minus by blast

lemma parse_number_int_str:
  assumes "num_end rest"
  shows "parse_number (int_str i @ rest) = Some (JInt i, rest)"
proof -
  have d: "takeWhile is_digit (nat_str n @ rest) = nat_str n" "dropWhile is_digit (nat_str n @ rest) = rest" for n
    using nat_str_digits num_end_hd [OF assms] by (blast intro: takeWhile_digits)+
  have e: "\<not> (rest \<noteq> [] \<and> hd rest = CHR ''.'')" by (rule num_end_not_dot [OF assms])
  show ?thesis
  proof (cases "i < 0")
    case True
    then show ?thesis
      using d e assms int_digits_ok_nat_str [of "nat (- i)"]
      by (simp add: parse_number_def int_str_def Let_def)
  next
    case False
    then show ?thesis
      using d e assms int_digits_ok_nat_str [of "nat i"] hd_nat_str_not_minus [of "nat i"]
      by (simp add: parse_number_def int_str_def Let_def)
  qed
qed

lemma frac_digits_Some:
  "frac_digits fuel k0 r = Some k \<Longrightarrow> r * 10 ^ k = of_int \<lfloor>r * 10 ^ k\<rfloor>"
  by (induction fuel arbitrary: k0) (auto split: if_splits)

lemma is_digit_zero [simp]: "is_digit (CHR ''0'')"
  by (simp add: is_digit_def)

lemma digits_val_zeros [simp]: "digits_val (replicate m (CHR ''0'') @ xs) = digits_val xs"
proof -
  have "digits_val (replicate m (CHR ''0'')) = 0"
    by (induction m) (simp_all add: digits_val_def)
  then show ?thesis by (simp add: digits_val_append)
qed

lemma point_str_split:
  assumes "0 < k"
  obtains ip fp where "point_str n k = ip @ CHR ''.'' # fp" "length fp = k"
    "\<forall>c \<in> set ip. is_digit c" "\<forall>c \<in> set fp. is_digit c" "int_digits_ok ip"
    "digits_val ip * 10 ^ k + digits_val fp = n"
proof -
  let ?ds = "replicate (Suc k - length (nat_str n)) (CHR ''0'') @ nat_str n"
  let ?ip = "take (length ?ds - k) ?ds" and ?fp = "drop (length ?ds - k) ?ds"
  have len: "Suc k \<le> length ?ds" by simp
  have digs: "\<forall>c \<in> set ?ds. is_digit c" using nat_str_digits by auto
  have "digits_val ?ds = digits_val ?ip * 10 ^ length ?fp + digits_val ?fp"
    by (metis append_take_drop_id digits_val_append)
  moreover have "length ?fp = k" using len by simp
  ultimately have val: "digits_val ?ip * 10 ^ k + digits_val ?fp = n" by simp
  have ok: "int_digits_ok ?ip"
  proof (cases "length (nat_str n) \<le> k")
    case True
    then have "length ?ip = 1" by simp
    then show ?thesis by (auto simp: int_digits_ok_def)
  next
    case False
    then have ip: "?ip = take (length (nat_str n) - k) (nat_str n)" by simp
    have "hd (nat_str n) \<noteq> CHR ''0''"
    proof
      assume "hd (nat_str n) = CHR ''0''"
      then have "n = 0" by (rule hd_nat_str_zero)
      then show False using False assms by (simp add: nat_str_zero)
    qed
    then show ?thesis using False unfolding ip int_digits_ok_def by simp
  qed
  have "point_str n k = ?ip @ CHR ''.'' # ?fp" by (simp add: point_str_def Let_def)
  moreover have "\<forall>c \<in> set ?ip. is_digit c" "\<forall>c \<in> set ?fp. is_digit c"
    using digs by (auto dest: in_set_takeD in_set_dropD)
  ultimately show ?thesis using that \<open>length ?fp = k\<close> ok val by blast
qed

lemma is_digit_dot [simp]: "\<not> is_digit (CHR ''.'')"
  by (simp add: is_digit_def)

lemma parse_number_zero:
  assumes "num_end rest"
  shows "parse_number (''0.0'' @ rest) = Some (JFloat 0, rest)"
proof -
  have d: "takeWhile is_digit (''0'' @ rest) = ''0''" "dropWhile is_digit (''0'' @ rest) = rest"
    by (rule takeWhile_digits(1), simp, rule num_end_hd [OF assms])
       (rule takeWhile_digits(2), simp, rule num_end_hd [OF assms])
  have "takeWhile is_digit (''0.0'' @ rest) = ''0''" "dropWhile is_digit (''0.0'' @ rest) = ''.0'' @ rest"
    by simp_all
  then show ?thesis using d assms
    by (simp add: parse_number_def Let_def int_digits_ok_def digits_val_def)
qed

lemma float_scaled_int:
  assumes "frac_digits 17 0 \<bar>r\<bar> = Some k"
  shows "real (nat \<lfloor>\<bar>r\<bar> * 10 ^ max k 1\<rfloor>) = \<bar>r\<bar> * 10 ^ max k 1"
proof -
  have i: "\<bar>r\<bar> * 10 ^ k = of_int \<lfloor>\<bar>r\<bar> * 10 ^ k\<rfloor>" using assms by (rule frac_digits_Some)
  have "\<bar>r\<bar> * 10 ^ max k 1 = of_int (\<lfloor>\<bar>r\<bar> * 10 ^ k\<rfloor> * 10 ^ (max k 1 - k))"
  proof -
    have "\<bar>r\<bar> * 10 ^ max k 1 = \<bar>r\<bar> * 10 ^ k * 10 ^ (max k 1 - k)"
      by (simp flip: power_add)
    then show ?thesis using i by simp
  qed
  then show ?thesis by (metis abs_ge_zero floor_of_int mult_nonneg_nonneg of_int_of_nat_eq
        nat_0_le of_int_0_le_iff zero_le_power zero_le_numeral)
qed

lemma parse_number_float_repr:
  assumes "float_repr r = Some s" "num_end rest"
  shows "parse_number (s @ rest) = Some (JFloat r, rest)"
proof (cases "r = 0")
  case True
  then have "s = ''0.0''" using assms(1) by (simp add: float_repr_def)
  then show ?thesis using True parse_number_zero [OF assms(2)] by simp
next
  case False
  then obtain k where k: "frac_digits 17 0 \<bar>r\<bar> = Some k"
    using assms(1) by (auto simp: float_repr_def split: if_splits option.splits)
  let ?K = "max k 1" let ?n = "nat \<lfloor>\<bar>r\<bar> * 10 ^ max k 1\<rfloor>"
  have s: "s = (if r < 0 then CHR ''-'' # point_str ?n ?K else point_str ?n ?K)"
    using assms(1) False k by (auto simp: float_repr_def Let_def split: if_splits)
  obtain ip fp where ps: "point_str ?n ?K = ip @ CHR ''.'' # fp" and lf: "length fp = ?K"
    and dip: "\<forall>c \<in> set ip. is_digit c" and dfp: "\<forall>c \<in> set fp. is_digit c"
    and ok: "int_digits_ok ip" and val: "digits_val ip * 10 ^ ?K + digits_val fp = ?n"
    by (rule point_str_split [of "max k 1"]) (simp add: less_max_iff_disj)
  have t1: "takeWhile is_digit (ip @ CHR ''.'' # fp @ rest) = ip"
    "dropWhile is_digit (ip @ CHR ''.'' # fp @ rest) = CHR ''.'' # fp @ rest"
    using dip by (simp_all add: takeWhile_digits)
  have t2: "takeWhile is_digit (fp @ rest) = fp" "dropWhile is_digit (fp @ rest) = rest"
    using dfp num_end_hd [OF assms(2)] by (blast intro: takeWhile_digits)+
  have ipne: "ip \<noteq> []" using ok by (simp add: int_digits_ok_def)
  have hd_ip: "hd ip \<noteq> CHR ''-''" using dip ipne hd_in_set digit_not_minus by blast
  have "real (digits_val ip) + real (digits_val fp) / 10 ^ ?K = real ?n / 10 ^ ?K"
  proof -
    have "real ?n = real (digits_val ip) * 10 ^ ?K + real (digits_val fp)"
      using val by (metis of_nat_add of_nat_mult of_nat_numeral of_nat_power)
    then show ?thesis by (simp add: field_simps)
  qed
  also have "\<dots> = \<bar>r\<bar> * 10 ^ ?K / 10 ^ ?K" by (simp only: float_scaled_int [OF k])
  also have "\<dots> = \<bar>r\<bar>" by simp
  finally have v: "real (digits_val ip) + real (digits_val fp) / 10 ^ ?K = \<bar>r\<bar>" .
  have fpne: "fp \<noteq> []" using lf by auto
  show ?thesis
  proof (cases "r < 0")
    case True
    then show ?thesis using s ps t1 t2 ok fpne v lf assms(2)
      by (simp add: parse_number_def Let_def)
  next
    case False
    then show ?thesis using s ps t1 t2 ok fpne v lf assms(2) hd_ip ipne \<open>r \<noteq> 0\<close>
      by (simp add: parse_number_def Let_def)
  qed
qed

lemma char_of_codes:
  "char_of (34::nat) = CHR 0x22" "char_of (92::nat) = CHR 0x5C" "char_of (10::nat) = CHR 0x0A"
  "char_of (13::nat) = CHR 0x0D" "char_of (9::nat) = CHR 0x09" "char_of (8::nat) = CHR 0x08"
  "char_of (12::nat) = CHR 0x0C"
  by code_simp+

lemma char_by_code: "of_char c = (n::nat) \<Longrightarrow> c = char_of n"
  by (metis char_of_char)

lemma hex_val_hex_digit: "m < 16 \<Longrightarrow> hex_val (hex_digit m) = Some m"
  by (auto simp: hex_val_def hex_digit_def of_char_of Let_def)

lemma hex4_escape: "n < 32 \<Longrightarrow> hex4 (CHR ''0'') (CHR ''0'') (hex_digit (n div 16)) (hex_digit (n mod 16)) = Some n"
  by (simp add: hex4_def hex_val_hex_digit) (simp add: hex_val_def)

lemma parse_chars_letter:
  "unescape d = Some c \<Longrightarrow> d \<noteq> CHR ''u'' \<Longrightarrow>
   parse_chars (CHR 0x5C # d # more) = map_option (\<lambda>(s, t). (c # s, t)) (parse_chars more)"
  by simp

lemma parse_chars_escape:
  assumes "escape_char c = Some e"
  shows "parse_chars (e @ more) = map_option (\<lambda>(s, t). (c # s, t)) (parse_chars more)"
proof -
  define n where "n = (of_char c :: nat)"
  have c: "c = char_of n" unfolding n_def by (rule char_by_code) simp
  have esc: "escape_char c = Some e" by (rule assms)
  consider "n = 34" | "n = 92" | "n = 10" | "n = 13" | "n = 9" | "n = 8" | "n = 12"
    | "n < 32" "n \<noteq> 10" "n \<noteq> 13" "n \<noteq> 9" "n \<noteq> 8" "n \<noteq> 12"
    | "32 \<le> n" "n < 128" "n \<noteq> 34" "n \<noteq> 92" | "128 \<le> n"
    by arith
  then show ?thesis
  proof cases
    case 1
    then have "c = CHR 0x22" using c by (simp add: char_of_codes)
    then have "e = [CHR 0x5C, CHR 0x22]" using esc by (simp add: escape_char_def)
    then show ?thesis using \<open>c = CHR 0x22\<close> by (simp add: parse_chars_letter unescape_def)
  next
    case 2
    then have "c = CHR 0x5C" using c by (simp add: char_of_codes)
    then have "e = [CHR 0x5C, CHR 0x5C]" using esc by (simp add: escape_char_def)
    then show ?thesis using \<open>c = CHR 0x5C\<close> by (simp add: parse_chars_letter unescape_def)
  next
    case 3
    then have "c = CHR 0x0A" using c by (simp add: char_of_codes)
    then have "e = [CHR 0x5C, CHR ''n'']" using esc by (simp add: escape_char_def)
    then show ?thesis using \<open>c = CHR 0x0A\<close> by (simp add: parse_chars_letter unescape_def char_of_codes)
  next
    case 4
    then have "c = CHR 0x0D" using c by (simp add: char_of_codes)
    then have "e = [CHR 0x5C, CHR ''r'']" using esc by (simp add: escape_char_def)
    then show ?thesis using \<open>c = CHR 0x0D\<close> by (simp add: parse_chars_letter unescape_def char_of_codes)
  next
    case 5
    then have "c = CHR 0x09" using c by (simp add: char_of_codes)
    then have "e = [CHR 0x5C, CHR ''t'']" using esc by (simp add: escape_char_def)
    then show ?thesis using \<open>c = CHR 0x09\<close> by (simp add: parse_chars_letter unescape_def char_of_codes)
  next
    case 6
    then have "c = CHR 0x08" using c by (simp add: char_of_codes)
    then have "e = [CHR 0x5C, CHR ''b'']" using esc by (simp add: escape_char_def)
    then show ?thesis using \<open>c = CHR 0x08\<close> by (simp add: parse_chars_letter unescape_def char_of_codes)
  next
    case 7
    then have "c = CHR 0x0C" using c by (simp add: char_of_codes)
    then have "e = [CHR 0x5C, CHR ''f'']" using esc by (simp add: escape_char_def)
    then show ?thesis using \<open>c = CHR 0x0C\<close> by (simp add: parse_chars_letter unescape_def char_of_codes)
  next
    case 8
    then have e: "e = CHR 0x5C # ''u00'' @ [hex_digit (n div 16), hex_digit (n mod 16)]"
      using esc by (auto simp: escape_char_def Let_def n_def)
    have "hex4 (CHR ''0'') (CHR ''0'') (hex_digit (n div 16)) (hex_digit (n mod 16)) = Some n"
      using 8 by (simp add: hex4_escape)
    then show ?thesis using 8 c by (simp add: e)
  next
    case 9
    then have "e = [c]" using esc by (auto simp: escape_char_def Let_def n_def)
    moreover have "c \<noteq> CHR 0x22" "c \<noteq> CHR 0x5C" using 9 by (auto simp: n_def)
    ultimately show ?thesis using 9 by (simp add: n_def)
  next
    case 10
    then show ?thesis using esc by (simp add: escape_char_def Let_def n_def)
  qed
qed

lemma parse_chars_body:
  "concat_opt (map escape_char s) = Some b \<Longrightarrow> parse_chars (b @ CHR 0x22 # rest) = Some (s, rest)"
proof (induction s arbitrary: b)
  case Nil
  then show ?case by simp
next
  case (Cons c s)
  then obtain e b' where "escape_char c = Some e" "concat_opt (map escape_char s) = Some b'"
    "b = e @ b'" by (auto split: option.splits)
  then show ?case using Cons.IH parse_chars_escape by simp
qed

lemma str_json_parse:
  assumes "str_json k = Some t"
  obtains b where "t = CHR 0x22 # b @ [CHR 0x22]" "\<And>rest. parse_chars (b @ CHR 0x22 # rest) = Some (k, rest)"
  using assms parse_chars_body by (auto simp: str_json_def)

lemma skip_ws_Cons: "\<not> is_ws c \<Longrightarrow> skip_ws (c # t) = c # t"
  by (simp add: skip_ws_def)

lemma skip_ws_space [simp]: "skip_ws (CHR '' '' # t) = skip_ws t"
  by (simp add: skip_ws_def is_ws_def)

lemma value_start_chars:
  assumes "is_digit c \<or> c = CHR ''-''"
  shows "\<not> is_ws c" "c \<noteq> CHR ''['' " "c \<noteq> CHR ''{''" "c \<noteq> CHR 0x22" "c \<noteq> CHR ''n''"
    "c \<noteq> CHR ''t''" "c \<noteq> CHR ''f''" "c \<noteq> CHR '']''" "c \<noteq> CHR ''}''"
  using assms by (auto simp: is_digit_def is_ws_def)

lemma int_str_hd: "\<exists>c t. int_str i = c # t \<and> (is_digit c \<or> c = CHR ''-'')"
proof -
  have "\<exists>c t. nat_str n = c # t \<and> is_digit c" for n
    using nat_str_digits [of _ n] by (cases "nat_str n") auto
  then obtain c t where "nat_str (nat i) = c # t" "is_digit c" by blast
  then show ?thesis by (cases "i < 0") (simp_all add: int_str_def)
qed

lemma float_repr_hd:
  assumes "float_repr r = Some s"
  shows "\<exists>c t. s = c # t \<and> (is_digit c \<or> c = CHR ''-'')"
proof (cases "r = 0")
  case True
  then have "s = ''0.0''" using assms by (simp add: float_repr_def)
  then show ?thesis by simp
next
  case False
  then obtain k where k: "frac_digits 17 0 \<bar>r\<bar> = Some k"
    using assms by (auto simp: float_repr_def split: if_splits option.splits)
  let ?K = "max k 1" let ?n = "nat \<lfloor>\<bar>r\<bar> * 10 ^ max k 1\<rfloor>"
  have s: "s = (if r < 0 then CHR ''-'' # point_str ?n ?K else point_str ?n ?K)"
    using assms False k by (auto simp: float_repr_def Let_def split: if_splits)
  obtain ip fp where ps: "point_str ?n ?K = ip @ CHR ''.'' # fp"
    and dip: "\<forall>c \<in> set ip. is_digit c" and ok: "int_digits_ok ip"
    by (rule point_str_split [of "max k 1"]) (simp add: less_max_iff_disj)
  then obtain c t where ip: "ip = c # t" "is_digit c" by (cases ip) (auto simp: int_digits_ok_def)
  show ?thesis
  proof (cases "r < 0")
    case True
    then show ?thesis using s by simp
  next
    case False
    then show ?thesis using s ps ip by simp
  qed
qed

lemma value_start_ok: "value_start c \<Longrightarrow> \<not> is_ws c \<and> c \<noteq> CHR '']'' \<and> c \<noteq> CHR ''}''"
  unfolding value_start_def using value_start_chars [of c] by (auto simp: is_ws_def)

lemma dumps_start:
  assumes "dumps v = Some s"
  shows "\<exists>c t. s = c # t \<and> value_start c"
proof (cases v)
  case (JInt i)
  then show ?thesis using assms int_str_hd [of i] by (auto simp: value_start_def)
next
  case (JFloat r)
  then show ?thesis using assms float_repr_hd [of r s] by (auto simp: value_start_def)
next
  case (JStr x)
  then show ?thesis using assms by (auto simp: str_json_def value_start_def)
next
  case (JArr xs)
  then show ?thesis using assms by (auto simp: value_start_def)
next
  case (JObj kvs)
  then show ?thesis using assms by (auto simp: value_start_def)
qed (use assms in \<open>auto simp: value_start_def\<close>)

lemma join_opt_hd: "join_opt (x # ys) = Some b \<Longrightarrow> \<exists>s t. x = Some s \<and> b = s @ t"
  by (cases x; cases ys) (auto simp: join_opt_def)

lemma parse_value_number:
  "s = c # t \<Longrightarrow> is_digit c \<or> c = CHR ''-'' \<Longrightarrow> parse_value (Suc f) (s @ rest) = parse_number (s @ rest)"
  using value_start_chars [of c] by simp

lemma num_end_punct [simp]: "num_end (CHR '','' # r)" "num_end (CHR '']'' # r)" "num_end (CHR ''}'' # r)"
  by (simp_all add: num_end_def is_digit_def)

lemma skip_ws_punct [simp]: "skip_ws (CHR '','' # r) = CHR '','' # r" "skip_ws (CHR '']'' # r) = CHR '']'' # r"
  "skip_ws (CHR ''}'' # r) = CHR ''}'' # r" "skip_ws (CHR '':'' # r) = CHR '':'' # r"
  "skip_ws (CHR 0x22 # r) = CHR 0x22 # r"
  by (simp_all add: skip_ws_def is_ws_def)

lemma parse_elems_join:
  assumes IH: "\<And>x s f rest. x \<in> set xs \<Longrightarrow> dumps x = Some s \<Longrightarrow> length s \<le> f \<Longrightarrow> num_end rest \<Longrightarrow>
                 parse_value f (s @ rest) = Some (x, rest)"
    and "xs \<noteq> []" "join_opt (map dumps xs) = Some b" "length b < f"
  shows "parse_elems f (b @ CHR '']'' # rest) = Some (xs, rest)"
  using assms
proof (induction xs arbitrary: b f)
  case Nil
  then show ?case by simp
next
  case (Cons x ys)
  obtain f' where f: "f = Suc f'" using Cons.prems(4) by (cases f) auto
  show ?case
  proof (cases "ys = []")
    case True
    then have "dumps x = Some b" using Cons.prems(3) by (auto simp: join_opt_def split: option.splits)
    then have "parse_value f' (b @ CHR '']'' # rest) = Some (x, CHR '']'' # rest)"
      using Cons.prems(1,4) f by simp
    then show ?thesis using True f by simp
  next
    case False
    then obtain s b' where s: "dumps x = Some s" and b': "join_opt (map dumps ys) = Some b'"
      and b: "b = s @ '', '' @ b'"
      using Cons.prems(3) by (auto simp: join_opt_Cons2 split: option.splits)
    obtain y ys' where ys: "ys = y # ys'" using False by (cases ys) auto
    obtain sy t where "dumps y = Some sy" "b' = sy @ t"
      using b' join_opt_hd [of "dumps y" "map dumps ys'"] ys by auto
    then obtain c t' where b'c: "b' = c # t'" "value_start c"
      using dumps_start [of y sy] by auto
    have "parse_value f' (s @ CHR '','' # CHR '' '' # b' @ CHR '']'' # rest)
          = Some (x, CHR '','' # CHR '' '' # b' @ CHR '']'' # rest)"
      using Cons.prems(1,4) f s b by simp
    moreover have "parse_elems f' (b' @ CHR '']'' # rest) = Some (ys, rest)"
      using Cons.IH [OF _ False b'] Cons.prems(1,4) f b by simp
    moreover have "skip_ws (b' @ CHR '']'' # rest) = b' @ CHR '']'' # rest"
      using b'c value_start_ok by (simp add: skip_ws_Cons)
    ultimately show ?thesis using f b by simp
  qed
qed

lemma skip_ws_value:
  "dumps v = Some s \<Longrightarrow> skip_ws (s @ r) = s @ r"
  using dumps_start [of v s] value_start_ok by (auto simp: skip_ws_Cons)

lemma parse_members_step:
  assumes "str_json k = Some sk" "dumps v = Some s" "parse_value f (s @ r) = Some (v, r)"
  shows "parse_members (Suc f) (sk @ '': '' @ s @ r) =
           (case skip_ws r of
              [] \<Rightarrow> None
            | e # r4 \<Rightarrow>
                if e = CHR '','' then map_option (\<lambda>(kvs, t). ((k, v) # kvs, t)) (parse_members f (skip_ws r4))
                else if e = CHR ''}'' then Some ([(k, v)], r4)
                else None)"
proof -
  obtain b where sk: "sk = CHR 0x22 # b @ [CHR 0x22]"
    and pc: "\<And>rest. parse_chars (b @ CHR 0x22 # rest) = Some (k, rest)"
    using str_json_parse [OF assms(1)] by blast
  show ?thesis using sk pc assms(3) skip_ws_value [OF assms(2)] by simp
qed

lemma parse_members_join:
  assumes IH: "\<And>k v s f rest. (k, v) \<in> set kvs \<Longrightarrow> dumps v = Some s \<Longrightarrow> length s \<le> f \<Longrightarrow>
                 num_end rest \<Longrightarrow> parse_value f (s @ rest) = Some (v, rest)"
    and "kvs \<noteq> []"
    and "join_opt (map (\<lambda>(k, v). concat_opt [str_json k, Some '': '', dumps v]) kvs) = Some b"
    and "length b < f"
  shows "parse_members f (b @ CHR ''}'' # rest) = Some (kvs, rest)"
  using assms
proof (induction kvs arbitrary: b f)
  case Nil
  then show ?case by simp
next
  case (Cons kv kvs)
  obtain k v where kv: "kv = (k, v)" by (cases kv)
  obtain f' where f: "f = Suc f'" using Cons.prems(4) by (cases f) auto
  let ?m = "\<lambda>(k, v). concat_opt [str_json k, Some '': '', dumps v]"
  obtain m b' where m: "?m kv = Some m" and b: "b = m @ b'"
    and tl: "kvs = [] \<Longrightarrow> b' = []"
    and tl2: "kvs \<noteq> [] \<Longrightarrow> \<exists>b''. join_opt (map ?m kvs) = Some b'' \<and> b' = '', '' @ b''"
    using Cons.prems(3)
    by (cases "?m kv"; cases kvs) (auto simp: join_opt_def join_opt_Cons2 split: option.splits)
  obtain sk s where sk: "str_json k = Some sk" and s: "dumps v = Some s" and mm: "m = sk @ '': '' @ s"
    using m kv by (auto split: option.splits)
  have pv: "parse_value f' (s @ r) = Some (v, r)" if "num_end r" for r
    using Cons.prems(1) [of k v s f' r] that s Cons.prems(4) f b mm kv by simp
  show ?case
  proof (cases "kvs = []")
    case True
    then show ?thesis
      using parse_members_step [OF sk s pv [of "CHR ''}'' # rest"]] f b mm tl kv by simp
  next
    case False
    then obtain b'' where b'': "join_opt (map ?m kvs) = Some b''" and b': "b' = '', '' @ b''"
      using tl2 by blast
    obtain kv2 kvs' where kvs: "kvs = kv2 # kvs'" using False by (cases kvs) auto
    obtain m2 t where "?m kv2 = Some m2" "b'' = m2 @ t"
      using b'' join_opt_hd [of "?m kv2" "map ?m kvs'"] kvs by auto
    then obtain t' where b''q: "b'' = CHR 0x22 # t'"
      by (cases kv2) (auto simp: str_json_def split: option.splits)
    have IH': "parse_value f2 (s2 @ r2) = Some (v2, r2)"
      if "(k2, v2) \<in> set kvs" "dumps v2 = Some s2" "length s2 \<le> f2" "num_end r2" for k2 v2 s2 f2 r2
      using Cons.prems(1) [of k2 v2 s2 f2 r2] that by simp
    have "length b'' < f'" using Cons.prems(4) f b b' mm by simp
    then have "parse_members f' (b'' @ CHR ''}'' # rest) = Some (kvs, rest)"
      using Cons.IH IH' False b'' by blast
    then show ?thesis
      using parse_members_step [OF sk s pv [of "CHR '','' # CHR '' '' # b'' @ CHR ''}'' # rest"]]
        f b mm b' b''q kv by simp
  qed
qed

lemma join_opt_start:
  "join_opt (map g xs) = Some b \<Longrightarrow> xs = x # xs' \<Longrightarrow> g x = Some s \<Longrightarrow> \<exists>t. b = s @ t"
  using join_opt_hd [of "g x" "map g xs'" b] by auto

lemma parse_value_dumps:
  "dumps v = Some s \<Longrightarrow> length s \<le> f \<Longrightarrow> num_end rest \<Longrightarrow> parse_value f (s @ rest) = Some (v, rest)"
proof (induction v arbitrary: s f rest)
  case JNull
  then show ?case by (cases f) auto
next
  case (JBool x)
  then show ?case by (cases f; cases x) auto
next
  case (JInt i)
  then obtain c t where ct: "s = c # t" "is_digit c \<or> c = CHR ''-''" using int_str_hd by fastforce
  obtain f' where "f = Suc f'" using JInt.prems(2) ct by (cases f) auto
  then show ?case
    using parse_value_number [OF ct] parse_number_int_str [OF JInt.prems(3), of i] JInt.prems(1) by simp
next
  case (JFloat r)
  then obtain c t where ct: "s = c # t" "is_digit c \<or> c = CHR ''-''" using float_repr_hd by fastforce
  obtain f' where "f = Suc f'" using JFloat.prems(2) ct by (cases f) auto
  then show ?case
    using parse_value_number [OF ct] parse_number_float_repr [OF _ JFloat.prems(3), of r s] JFloat.prems(1)
    by simp
next
  case (JStr x)
  then obtain b where "s = CHR 0x22 # b @ [CHR 0x22]" "\<And>r. parse_chars (b @ CHR 0x22 # r) = Some (x, r)"
    using str_json_parse by (metis dumps.simps(5))
  then show ?case using JStr by (cases f) auto
next
  case (JArr xs)
  then obtain f' where f: "f = Suc f'" by (cases f) auto
  show ?case
  proof (cases xs)
    case Nil
    then show ?thesis using JArr.prems f by (auto simp: join_opt_def)
  next
    case (Cons y ys)
    obtain b where b: "join_opt (map dumps xs) = Some b" and s: "s = ''['' @ b @ '']''"
      using JArr.prems(1) by auto
    obtain sy where "dumps y = Some sy" using b Cons join_opt_hd [of "dumps y"] by auto
    then obtain c t where bc: "b = c # t" "value_start c"
      using join_opt_start [OF b Cons] dumps_start [of y sy] by fastforce
    have "parse_elems f' (b @ CHR '']'' # rest) = Some (xs, rest)"
      using parse_elems_join [OF JArr.IH _ b] Cons JArr.prems(2) f s by simp
    then show ?thesis using f s bc value_start_ok [of c] by (simp add: skip_ws_Cons)
  qed
next
  case (JObj kvs)
  then obtain f' where f: "f = Suc f'" by (cases f) auto
  show ?case
  proof (cases kvs)
    case Nil
    then show ?thesis using JObj.prems f by (auto simp: join_opt_def)
  next
    case (Cons kv kvs')
    let ?m = "\<lambda>(k, v). concat_opt [str_json k, Some '': '', dumps v]"
    obtain b where b: "join_opt (map ?m kvs) = Some b" and s: "s = ''{'' @ b @ ''}''"
      using JObj.prems(1) by auto
    obtain m where "?m kv = Some m" using b Cons join_opt_hd [of "?m kv"] by auto
    then obtain t where bc: "b = CHR 0x22 # t"
      using join_opt_start [OF b Cons] by (cases kv) (auto simp: str_json_def split: option.splits)
    have IH: "parse_value f2 (s2 @ r2) = Some (v2, r2)"
      if "(k2, v2) \<in> set kvs" "dumps v2 = Some s2" "length s2 \<le> f2" "num_end r2" for k2 v2 s2 f2 r2
      using JObj.IH that by fastforce
    have "parse_members f' (b @ CHR ''}'' # rest) = Some (kvs, rest)"
      using parse_members_join [OF IH _ b] Cons JObj.prems(2) f s by simp
    then show ?thesis using f s bc by simp
  qed
qed

lemma skip_ws_dumps_ws: "dumps v = Some s \<Longrightarrow> skip_ws s = s"
  using skip_ws_value [of v s "[]"] by simp

text \<open>\<open>json.loads\<close> inverts \<open>json.dumps\<close> on every document the printer prints.\<close>

lemma json_loads_dumps: "dumps v = Some s \<Longrightarrow> json_loads s = Some v"
  using parse_value_dumps [of v s "length s" "[]"] skip_ws_dumps_ws [of v s]
  by (simp add: json_loads_def num_end_def skip_ws_def)

end
