(* ===== verification/Spec2Isabelle.thy ===== *)
theory Spec2Isabelle
  imports Analyzer JsonLoads
begin

text \<open>
  A verification development of \<open>src/src/python_scripts/audio_analyzer.py\<close>
  (Musical-Enchanter), which extracts hooks, drops and harmonic transitions
  from a track and prints the result as JSON.

  \<^bold>\<open>The program.\<close> \<open>analyze_track\<close> checks that the file exists, calls the
  feature library (librosa) for the signal features, runs three detectors
  on them (\<open>detect_hooks\<close>, \<open>detect_drops\<close>, \<open>detect_transitions\<close>, each
  built on \<open>scipy.signal.find_peaks\<close> and \<open>librosa.frames_to_time\<close>),
  assembles a dictionary and returns it as a JSON string; any exception
  inside its \<open>try\<close> block, and a missing file, give a fixed fallback
  document instead.  The \<open>__main__\<close> block prints that string, or an error
  document when no argument is given.

  \<^bold>\<open>Theories, in import order.\<close>
  \<^item> \<open>Prelude\<close>: Python exceptions as values (\<open>py_exc\<close>, results
    \<open>'a py = py_exc + 'a\<close>, sequencing \<open>sbind\<close>: the first exception wins),
    the NumPy reductions \<open>np_mean\<close>, \<open>np_min\<close>, \<open>np_max\<close> (raising on an
    empty array), \<open>np_diff\<close>, Python indexing \<open>py_get\<close> (negative indices,
    \<open>IndexError\<close>) and slicing \<open>py_slice\<close>, the idioms \<open>xs[:k]\<close> (\<open>cap\<close>)
    and \<open>min(max_d, max(min_d, v))\<close> (\<open>clamp_dur\<close>).
  \<^item> \<open>Float64\<close>: rounding to the nearest IEEE 754 binary64 value (\<open>fl\<close>,
    executable) and its error bound \<open>fl_err\<close> (relative error at most
    \<open>2^-53\<close>).
  \<^item> \<open>Json\<close>: the JSON values the program prints and \<open>json.dumps\<close> with its
    default separators (\<open>dumps\<close>).
  \<^item> \<open>Librosa\<close>: \<open>frames_to_time\<close> and \<open>time_to_frames\<close> with hop 512.
    \<open>time_to_frames\<close> rounds as the library's float arithmetic does, so
    the frame a detector reads back for a peak (\<open>frame_back\<close>) is the
    peak's frame or the one before it (\<open>frame_back_bounds\<close>).  At 22050 Hz
    about 7% of frames come back one lower, frame 15 among them.
  \<^item> \<open>Peaks\<close>: \<open>find_peaks\<close> with \<open>height\<close> and \<open>distance\<close> as SciPy
    implements it: the plateau scan \<open>local_maxima_scan\<close>, the height filter,
    the greedy suppression \<open>select_by_peak_distance\<close> (highest first, loops
    \<open>clear_left\<close>/\<open>clear_right\<close> shown equal to set-based suppression in
    \<open>distance_step_nth\<close>), and its contract \<open>find_peaks_contract\<close>.
  \<^item> \<open>Hooks\<close>: \<open>detect_hooks\<close> (lines 108--152): the loop over novelty peaks
    \<open>hooks_loop\<close> with its energy gate \<open>hook_qualifies\<close> (read at the frame
    recovered from the peak's time) and \<open>IndexError\<close>, the duration clamp
    \<open>hook_interval\<close>, the cap at three and the fallback \<open>hook_fallback\<close>
    for tracks over 30 s.  Claims C1--C4 and C23.
  \<^item> \<open>Drops\<close>: \<open>detect_drops\<close> (lines 154--191): min-max normalisation
    \<open>normalize_rms\<close>, peaks of its derivative, the loop \<open>drops_loop\<close> (which
    converts each candidate back to a frame) with its guard and energy gate
    \<open>drop_gate\<close>, the cap at two.  Claims C5--C9, C21 and C26.
  \<^item> \<open>Transitions\<close>: \<open>detect_transitions\<close> (lines 193--223): L1 distance of
    consecutive chroma frames (\<open>chroma_diff\<close>), normalisation by the maximum
    (\<open>normalize_diff\<close>), peaks at distance 20, 2-second intervals, the cap
    at five.  Claims C10--C12 and C25.
  \<^item> \<open>Analyzer\<close>: \<open>analyze_track\<close> (lines 8--106) and \<open>main\<close> (lines
    225--230).  The feature library is the record \<open>provider\<close>, one field per
    library call in source order, each a value or an exception;
    \<open>run_analysis\<close> is the \<open>try\<close> body, \<open>analysis\<close> the result dictionary,
    \<open>not_found_doc\<close> and \<open>error_doc\<close> the two fallback documents.  The output
    of a run is the list of lines printed to standard output.  The
    specification's result discipline (\<open>analysis_outcome\<close>, \<open>render\<close>) and
    the schema both result shapes share (\<open>shared_schema\<close>) are stated
    beside them.  Claims C13--C18, C20 and C22.
  \<^item> \<open>JsonLoads\<close>: \<open>json.loads\<close>, the reader of the program's output,
    after Python's decoder: whitespace (\<open>skip_ws\<close>), numbers
    (\<open>parse_number\<close>: ints, decimal floats, no leading zeros), strings with
    every escape of the printer (\<open>parse_chars\<close>, \<open>unescape\<close>, \<open>hex4\<close>),
    and the mutually recursive \<open>parse_value\<close>, \<open>parse_elems\<close>,
    \<open>parse_members\<close>; \<open>json_loads\<close> accepts a text that is one value
    between whitespace.  Its lemma \<open>json_loads_dumps\<close> shows that every text
    \<open>dumps\<close> prints is read back as the same document.
  \<^item> This theory: \<open>stdout_text\<close>, the text the prints of a run write to
    standard output, and the properties that span components (C19, C24,
    C27).

  \<^bold>\<open>What the lemmas show.\<close> For each detector: the shape of every interval
  it returns and the cap on their number (C1, C5, C10), exactly when it
  raises (C4, C8, C11), what it returns on characteristic inputs (C2, C6),
  the spacing its peak distance imposes (C3, C26), the gate a drop passes at
  the frame the loop reads back (C9), invariance of transitions under
  scaling (C12) and where a chroma change is reported (C25).  Two
  consequences of the float round trip: a hook gated by the energy of the
  frame before its peak (C23), and a drop of the specification's step test
  that appears at 22050 Hz and not at 77 Hz (C7).  For the
  orchestrator: the exact output for a missing file (C13) and for a failing
  stage (C14), that a result is only produced when every stage succeeded
  and consists of the detector outputs (C15), that an empty energy envelope
  always falls back (C16), the output without an argument (C17) and that
  standard output starts with a log line (C18), that \<open>analyze_track\<close>
  refines the specification's result discipline (C20) and that every
  returned document has the shared schema (C22); the normalised energy lies
  in \<open>[0, 1)\<close> (C21).  C19 combines the detector
  contracts: every successful analysis has at most 3 hooks of 3 to 8 s, at
  most 2 drops of 5 s and at most 5 transitions of 2 s, all starting at
  non-negative times; C24 adds that, when the library frames the signal as
  librosa does (at most \<open>len(y) // 512 + 1\<close> frames), every interval ends
  within the track plus 3, 5 or 2 seconds.  For the output as its consumer
  reads it: with an argument the last printed line is a JSON document of
  the shared schema while the whole of standard output is not JSON (C27).

  \<^bold>\<open>Modelling choices.\<close> Python floats are exact reals, except where a
  result depends on their rounding: \<open>time_to_frames\<close> reads the binary64
  value of the time and rounds its product with \<open>sr\<close> (\<open>fl\<close>), exactly as
  the library computes \<open>int(t * sr) // 512\<close>.  \<open>fl\<close> has no exponent
  bounds; it agrees with IEEE 754 on \<open>[2^-1022, 2^1024)\<close>, where all frame
  times and sample counts of the program lie.  The frame bounds hold for
  frame indices below \<open>2^51\<close>, far beyond any array in memory.  Output times
  and durations stay exact reals (the printed value may differ from
  Python's in the last digit).  Python ints are \<open>int\<close>; NumPy 1-D arrays
  are \<open>real list\<close>; the chroma matrix is a list of frames.  \<open>np.mean\<close> of
  an empty array (NaN in NumPy) is 0 in the model; no modelled path lets it
  reach the output.  Ties between equal peak heights in \<open>find_peaks\<close> are
  broken by a stable sort.  All loops of the code are structural
  recursions over lists; the scan loops of \<open>find_peaks\<close> are \<open>function\<close>s
  with termination measures, so every definition is total.  The only fuel
  is that of \<open>parse_value\<close>, one unit per nested value and per element;
  the round trip shows the length of the text is enough, and
  \<open>json_loads\<close> gives it that much.  The printer \<open>dumps\<close> is partial
  (\<open>None\<close>) for floats whose \<open>repr\<close> is not a short decimal in
  \<open>[1e-4, 1e16)\<close> and for non-ASCII text; the reader \<open>json_loads\<close>
  returns \<open>None\<close> for exponents, \<open>NaN\<close>, \<open>Infinity\<close> and non-ASCII
  text, which the printer never produces.

  \<^bold>\<open>Not modelled.\<close> The signal processing of the feature library (decoding,
  STFT, chroma, onset strength, RMS, tempo and beat tracking): its results
  are the fields of \<open>provider\<close>.  Values the code computes and never uses
  (\<open>avg_chroma\<close>, \<open>onset_times\<close>, \<open>beat_times\<close>, the \<open>onset_env\<close> argument
  of \<open>detect_hooks\<close>).  NumPy warnings and the process exit status (always
  0: nothing escapes the \<open>try\<close>, and the model has no exit path).
\<close>

section \<open>Standard output\<close>

text \<open>
  What a run writes to standard output: each \<open>print\<close> writes its line
  and a newline.
\<close>

definition stdout_text :: "string list \<Rightarrow> string" where
  "stdout_text out = concat (map (\<lambda>l. l @ [CHR 0x0A]) out)"

section \<open>Properties across components\<close>

text \<open>
  C19: every successful analysis returns at most three hooks, each 3 to 8
  seconds long, at most two drops of 5 seconds and at most five transitions
  of 2 seconds, all starting at non-negative times.
\<close>

theorem analysis_segments_wf:
  assumes "run_analysis p = Inr a"
  shows "length (a_hooks a) \<le> 3 \<and> (\<forall>(s, e) \<in> set (a_hooks a). 0 \<le> s \<and> s + 3 \<le> e \<and> e \<le> s + 8) \<and>
    length (a_drops a) \<le> 2 \<and> (\<forall>(s, e) \<in> set (a_drops a). 0 \<le> s \<and> e = s + 5) \<and>
    length (a_transitions a) \<le> 5 \<and> (\<forall>(s, e) \<in> set (a_transitions a). 0 \<le> s \<and> e = s + 2)"
proof -
  obtain ylen sr chroma rms novelty where
    h: "detect_hooks ylen sr novelty rms 3 8 = Inr (a_hooks a)" and
    d: "detect_drops sr rms 0.6 2 6 = Inr (a_drops a)" and
    t: "detect_transitions chroma sr 0.15 1 3 = Inr (a_transitions a)"
    using assms by (elim run_analysis_InrE) blast
  obtain ps where "2 \<le> sr" using h by (rule detect_hooks_InrE)
  then have sr: "0 < sr" by simp
  have "0 \<le> frames_to_time 20 sr" using sr by (rule frames_to_time_nonneg)
  then show ?thesis
    using detect_hooks_wf [OF h] detect_drops_wf [OF d] detect_transitions_wf [OF t sr]
    by fastforce
qed

theorem analysis_segments_wf_witness:
  "length [(frames_to_time 20 22050, frames_to_time 20 22050 + 5)] \<le> (2::nat) \<and>
   0 \<le> frames_to_time 20 22050 \<and> 0 \<le> frames_to_time 1 22050"
  using analysis_segments_wf [OF run_analysis_example] by simp

text \<open>
  C24: when the feature library frames the signal as librosa does with
  \<open>center=True\<close> (at most \<open>len(y) // 512 + 1\<close> frames of RMS energy, of
  the novelty envelope and of chroma), every interval of a successful analysis is non-empty and ends no
  later than the end of the track plus the detector's slack: 3 seconds for
  hooks (the minimum duration), 5 for drops and 2 for transitions (their
  fixed durations).
\<close>

theorem analysis_ends_within_track:
  assumes "run_analysis p = Inr a" "p_load p = Inr (ylen, sr)"
    "p_rms p = Inr rms" "p_chroma_stft p = Inr chroma" "p_novelty p = Inr novelty"
    "length rms \<le> ylen div 512 + 1" "length chroma \<le> ylen div 512 + 1"
    "length novelty \<le> ylen div 512 + 1"
  shows "(\<forall>(s, e) \<in> set (a_hooks a). s < e \<and> e \<le> track_length ylen sr + 3) \<and>
    (\<forall>(s, e) \<in> set (a_drops a). s < e \<and> e \<le> track_length ylen sr + 5) \<and>
    (\<forall>(s, e) \<in> set (a_transitions a). s < e \<and> e \<le> track_length ylen sr + 2)"
proof -
  have h: "detect_hooks ylen sr novelty rms 3 8 = Inr (a_hooks a)" and
    d: "detect_drops sr rms 0.6 2 6 = Inr (a_drops a)" and
    t: "detect_transitions chroma sr 0.15 1 3 = Inr (a_transitions a)"
    using assms(1) by (elim run_analysis_InrE; use assms(2-5) in auto)+
  obtain ps0 where "2 \<le> sr" using h by (rule detect_hooks_InrE)
  then have sr: "0 < sr" by simp
  have within: "q < ylen div 512 + 1 \<Longrightarrow> frames_to_time q sr \<le> track_length ylen sr" for q
    unfolding track_length_def using sr by (blast intro: frame_within_signal)
  have "s < e \<and> e \<le> track_length ylen sr + 3" if m: "(s, e) \<in> set (a_hooks a)" for s e
  proof (rule detect_hooks_memE [OF h m])
    assume "a_hooks a = hook_fallback ylen sr" "30 < track_length ylen sr"
    then show ?thesis using m by (auto simp: hook_fallback_def Let_def)
  next
    fix ps q assume fp: "find_peaks novelty (np_mean novelty * 1.5) (sr div 2) = Inr ps" and "q \<in> set ps"
      and iv: "hook_interval 3 8 ylen sr (frames_to_time q sr) = (s, e)"
    then have "is_local_max novelty q" using find_peaks_Inr_facts [OF fp] by blast
    then have "q < ylen div 512 + 1" using assms(8) local_max_bounds [of novelty q] by linarith
    then have "frames_to_time q sr \<le> track_length ylen sr" by (rule within)
    moreover have "s = frames_to_time q sr" using iv by (simp add: hook_interval_def)
    moreover have "s + 3 \<le> e \<and> e \<le> max (track_length ylen sr) (s + 3)"
      using hook_interval_wf [OF frames_to_time_nonneg [OF sr] iv] by blast
    ultimately show ?thesis by linarith
  qed
  moreover have "s < e \<and> e \<le> track_length ylen sr + 5" if m: "(s, e) \<in> set (a_drops a)" for s e
  proof (rule detect_drops_memE [OF d m])
    fix mn mx c assume "is_local_max (np_diff (normalize_rms rms mn mx)) c" "s = frames_to_time c sr"
      "e = s + clamp_dur 2 6 5"
    moreover have "c < ylen div 512 + 1" if "is_local_max (np_diff (normalize_rms rms mn mx)) c"
      using local_max_bounds [OF that] assms(6) by simp linarith
    ultimately show ?thesis using within [of c] by (simp add: clamp_dur_def)
  qed
  moreover have "s < e \<and> e \<le> track_length ylen sr + 2" if m: "(s, e) \<in> set (a_transitions a)" for s e
  proof (rule detect_transitions_memE [OF t m])
    fix mm f assume "is_local_max (normalize_diff (chroma_diff chroma) mm) f" "s = frames_to_time f sr"
      "e = s + clamp_dur 1 3 2"
    moreover have "f < ylen div 512 + 1" if "is_local_max (normalize_diff (chroma_diff chroma) mm) f"
    proof -
      have "Suc f < length chroma - 1" using local_max_bounds [OF that] by simp
      then show ?thesis using assms(7) by linarith
    qed
    ultimately show ?thesis using within [of f] by (simp add: clamp_dur_def)
  qed
  ultimately show ?thesis by blast
qed

theorem analysis_ends_within_track_witness:
  "frames_to_time 20 22050 < frames_to_time 20 22050 + 5 \<and>
   frames_to_time 20 22050 + 5 \<le> track_length 22050 22050 + 5 \<and>
   frames_to_time 1 22050 + 2 \<le> track_length 22050 22050 + 2"
proof -
  have "length (replicate 21 (1::real) @ replicate 20 (6 / 5)) \<le> 22050 div 512 + 1"
    "length [[0], [0], [1], [1::real]] \<le> 22050 div 512 + 1" "length ([] :: real list) \<le> 22050 div 512 + 1"
    by simp_all
  from analysis_ends_within_track [OF run_analysis_example _ _ _ _ this] show ?thesis
    by (simp add: example_provider_def)
qed

section \<open>The printed document read back\<close>

lemma parse_value_log_line: "parse_value f (CHR ''A'' # t) = None"
  by (cases f) (simp_all add: parse_number_def int_digits_ok_def is_digit_def)

lemma json_loads_log_line: "json_loads (CHR ''A'' # t) = None"
  by (simp add: json_loads_def skip_ws_def is_ws_def parse_value_log_line)

lemma main_result:
  assumes "1 < length argv" "main argv exists prov = Some out"
  obtains log s where "analyze_track exists (prov (argv ! 1)) (argv ! 1) = (log, Some s)"
    "out = log @ [s]"
  using assms by (auto simp: main_def split: prod.splits)

text \<open>
  C27: with an argument, the last line the script prints is a JSON document
  that \<open>json.loads\<close> reads back, with the shared schema; but the whole of
  standard output, which starts with the log line, is not JSON, so a
  consumer that parses stdout as one document fails.
\<close>

theorem main_stdout_not_json:
  assumes "1 < length argv" "main argv exists prov = Some out"
  shows "(\<exists>doc. json_loads (last out) = Some doc \<and> shared_schema doc) \<and>
         json_loads (stdout_text out) = None"
proof -
  obtain log s where at: "analyze_track exists (prov (argv ! 1)) (argv ! 1) = (log, Some s)"
    and out: "out = log @ [s]"
    using main_result [OF assms] .
  obtain doc where doc: "dumps doc = Some s" "shared_schema doc"
    using analyze_track_doc [OF at] error_doc_schema analysis_json_schema by metis
  have "json_loads s = Some doc" using doc(1) by (rule json_loads_dumps)
  moreover obtain more where "log = (''Analyzing file: '' @ argv ! 1) # more"
    using at by (auto simp: analyze_track_def Let_def split: if_splits sum.splits)
  ultimately show ?thesis
    using out doc(2) by (simp add: stdout_text_def json_loads_log_line)
qed

theorem main_stdout_not_json_witness:
  "main [''audio_analyzer.py'', ''t.wav''] (\<lambda>_. False) (\<lambda>_. example_provider) =
     Some [''Analyzing file: t.wav'', ''Error: File not found - t.wav'', fallback_text (jq ''File not found'')] \<and>
   (\<exists>doc. json_loads (fallback_text (jq ''File not found'')) = Some doc \<and> shared_schema doc) \<and>
   json_loads (stdout_text [''Analyzing file: t.wav'', ''Error: File not found - t.wav'',
     fallback_text (jq ''File not found'')]) = None"
proof -
  have m: "main [''audio_analyzer.py'', ''t.wav''] (\<lambda>_. False) (\<lambda>_. example_provider) =
     Some [''Analyzing file: t.wav'', ''Error: File not found - t.wav'', fallback_text (jq ''File not found'')]"
    by (simp add: main_def analyze_track_def not_found_doc_error_doc dumps_error_doc
        str_json_plain [OF plain_ascii_file_not_found])
  show ?thesis using m main_stdout_not_json [OF _ m] by simp
qed

end
